(* ===== verification/Seq_Prelude.thy ===== *)
theory Seq_Prelude
  imports Main "HOL-Library.Word"
begin

text \<open>
  Prelude of the development: the Go values the sources use (machine integers as words, byte
  slices as byte lists), the Go error values, the result of a Go call (\<open>Ok\<close>, \<open>Error\<close> for a
  returned error, \<open>Panic\<close> for a run-time panic), the stateful computations the handlers of the
  program are (a state goes in, a result and a state come out), the slice operations and the
  big-endian encodings of the standard library, and the generic lemmas the components share.
\<close>

unbundle bit_operations_syntax

section \<open>Go values\<close>

type_synonym u8 = "8 word"
type_synonym u16 = "16 word"
type_synonym u32 = "32 word"
type_synonym u64 = "64 word"

text \<open>Go's signed \<open>int64\<close> and \<open>int\<close> (64 bits), read with \<^const>\<open>sint\<close>.\<close>

type_synonym i64 = "64 word"

type_synonym bytes = "u8 list"

text \<open>An \<open>Address\<close> of the SDK is an array of bytes, an \<open>ids.ID\<close> too.\<close>

type_synonym Address = bytes
type_synonym ID = bytes

section \<open>Errors, results and stateful computations\<close>

datatype farg = FU u64 | FI int | FHex bytes | FStr string

text \<open>
  The error values: the sentinels of the packages, the errors built by \<open>fmt.Errorf\<close> (their
  format with its arguments), the ones that wrap another error with \<open>%w\<close>, and the errors of
  code outside the repository.
\<close>

datatype err =
    ErrNotFound
  | ErrExternal nat
  | ErrInvalidBalance
  | ErrOutputValueZero
  | ErrNotWhiteListed
  | ErrInvalidBidderSignature
  | ErrParsedBuilderSEQAddressMismatch
  | ErrOutputMemoTooLarge
  | ErrNameSpaceNotRegistered
  | ErrNotAuthorized
  | ErrOverflow
  | ErrUnderflow
  | ErrCryptoInvalidSignature
  | ErrTxNotFound
  | Errorf string "farg list"
  | Wrap string "farg list" err

text \<open>\<open>errors.Is\<close> looks through the chain of wrapped errors.\<close>

fun errors_Is :: "err \<Rightarrow> err \<Rightarrow> bool" where
  "errors_Is (Wrap s as e) t = (Wrap s as e = t \<or> errors_Is e t)"
| "errors_Is e t = (e = t)"

datatype panic = NilDereference | IndexOutOfRange | DivideByZero | TypeAssertion | MakeSlice
  | ExplicitPanic

datatype 'a res = Ok 'a | Error err | Panic panic

fun of_sum :: "err + 'a \<Rightarrow> 'a res" where
  "of_sum (Inl e) = Error e"
| "of_sum (Inr x) = Ok x"

fun is_panic :: "'a res \<Rightarrow> bool" where
  "is_panic (Panic p) = True"
| "is_panic _ = False"

fun res_bind :: "'a res \<Rightarrow> ('a \<Rightarrow> 'b res) \<Rightarrow> 'b res" where
  "res_bind (Ok x) f = f x"
| "res_bind (Error e) f = Error e"
| "res_bind (Panic p) f = Panic p"

text \<open>
  A Go function that works on a mutable state: it may leave changes behind when it returns an
  error, so the state is part of every outcome.
\<close>

type_synonym ('s, 'a) go = "'s \<Rightarrow> 'a res \<times> 's"

definition go_return :: "'a \<Rightarrow> ('s, 'a) go" where
  "go_return x = (\<lambda>s. (Ok x, s))"

definition go_error :: "err \<Rightarrow> ('s, 'a) go" where
  "go_error e = (\<lambda>s. (Error e, s))"

definition go_panic :: "panic \<Rightarrow> ('s, 'a) go" where
  "go_panic p = (\<lambda>s. (Panic p, s))"

definition go_lift :: "'a res \<Rightarrow> ('s, 'a) go" where
  "go_lift r = (\<lambda>s. (r, s))"

definition go_bind :: "('s, 'a) go \<Rightarrow> ('a \<Rightarrow> ('s, 'b) go) \<Rightarrow> ('s, 'b) go" where
  "go_bind f g = (\<lambda>s. case f s of
       (Ok x, s') \<Rightarrow> g x s'
     | (Error e, s') \<Rightarrow> (Error e, s')
     | (Panic p, s') \<Rightarrow> (Panic p, s'))"

text \<open>\<open>return fmt.Errorf("...: %w", err)\<close> on the error path of a call.\<close>

definition go_wrap :: "string \<Rightarrow> farg list \<Rightarrow> ('s, 'a) go \<Rightarrow> ('s, 'a) go" where
  "go_wrap msg args f = (\<lambda>s. case f s of
       (Error e, s') \<Rightarrow> (Error (Wrap msg args e), s')
     | r \<Rightarrow> r)"

text \<open>
  \<open>if c { return nil, e }\<close> and \<open>if err != nil { return err }\<close>.
\<close>

definition go_guard :: "bool \<Rightarrow> err \<Rightarrow> ('s, unit) go" where
  "go_guard ok e = (if ok then go_return () else go_error e)"

text \<open>Dereferencing a pointer: \<open>None\<close> is \<open>nil\<close>.\<close>

definition go_deref :: "'a option \<Rightarrow> ('s, 'a) go" where
  "go_deref p = (case p of None \<Rightarrow> go_panic NilDereference | Some x \<Rightarrow> go_return x)"

named_theorems go_defs "the combinators of stateful Go computations"

lemmas go_combinators [go_defs] =
  go_return_def go_error_def go_panic_def go_lift_def go_guard_def go_deref_def

lemma go_bind_simps [simp]:
  "go_bind (go_return x) g = g x"
  "go_bind (go_error e) g = go_error e"
  "go_bind (go_panic p) g = go_panic p"
  "go_bind (go_lift (Ok x)) g = g x"
  "go_bind (go_lift (Error e)) g = go_error e"
  "go_bind (go_lift (Panic p)) g = go_panic p"
  by (simp_all add: go_bind_def go_return_def go_error_def go_panic_def go_lift_def)

lemma go_bind_assoc: "go_bind (go_bind f g) h = go_bind f (\<lambda>x. go_bind (g x) h)"
  by (auto simp: go_bind_def fun_eq_iff split: prod.splits res.splits)

lemma go_bind_Ok_iff:
  "go_bind f g s = (Ok y, s'') \<longleftrightarrow> (\<exists>x s'. f s = (Ok x, s') \<and> g x s' = (Ok y, s''))"
  by (auto simp: go_bind_def split: prod.splits res.splits)

lemma go_bind_run:
  "f s = (Ok x, s') \<Longrightarrow> go_bind f g s = g x s'"
  "f s = (Error e, s') \<Longrightarrow> go_bind f g s = (Error e, s')"
  "f s = (Panic p, s') \<Longrightarrow> go_bind f g s = (Panic p, s')"
  by (simp_all add: go_bind_def)

lemma go_return_Ok_iff [simp]: "go_return x s = (r, s') \<longleftrightarrow> r = Ok x \<and> s' = s"
  by (auto simp: go_return_def)

lemma go_error_iff [simp]: "go_error e s = (r, s') \<longleftrightarrow> r = Error e \<and> s' = s"
  by (auto simp: go_error_def)

lemma go_panic_iff [simp]: "go_panic p s = (r, s') \<longleftrightarrow> r = Panic p \<and> s' = s"
  by (auto simp: go_panic_def)

lemma go_lift_iff [simp]: "go_lift x s = (r, s') \<longleftrightarrow> x = r \<and> s' = s"
  by (auto simp: go_lift_def)

lemma go_guard_Ok_iff [simp]: "go_guard b e s = (Ok x, s') \<longleftrightarrow> b \<and> s' = s"
  by (auto simp: go_guard_def)

lemma go_guard_simps [simp]:
  "go_guard True e = go_return ()"
  "go_guard False e = go_error e"
  by (simp_all add: go_guard_def)

lemma go_deref_simps [simp]:
  "go_deref None = go_panic NilDereference"
  "go_deref (Some x) = go_return x"
  by (simp_all add: go_deref_def)

lemma go_deref_Ok_iff [simp]: "go_deref p s = (Ok x, s') \<longleftrightarrow> p = Some x \<and> s' = s"
  by (cases p) auto

lemma go_wrap_Ok_iff [simp]: "go_wrap msg args f s = (Ok x, s') \<longleftrightarrow> f s = (Ok x, s')"
  by (auto simp: go_wrap_def split: prod.splits res.splits)

lemma go_wrap_simps [simp]:
  "go_wrap msg args (go_return x) = go_return x"
  "go_wrap msg args (go_error e) = go_error (Wrap msg args e)"
  "go_wrap msg args (go_panic p) = go_panic p"
  by (simp_all add: go_wrap_def go_return_def go_error_def go_panic_def)

lemma go_wrap_lift [simp]:
  "go_wrap msg args (go_lift (Ok x)) = go_return x"
  "go_wrap msg args (go_lift (Error e)) = go_error (Wrap msg args e)"
  "go_wrap msg args (go_lift (Panic p)) = go_panic p"
  by (simp_all add: go_wrap_def go_return_def go_error_def go_panic_def go_lift_def)

lemma of_sum_Ok_iff [simp]: "of_sum r = Ok x \<longleftrightarrow> r = Inr x"
  by (cases r) auto

lemma of_sum_not_Panic [simp]: "of_sum r \<noteq> Panic p"
  by (cases r) auto

lemma res_bind_Ok_iff: "res_bind r f = Ok y \<longleftrightarrow> (\<exists>x. r = Ok x \<and> f x = Ok y)"
  by (cases r) auto

text \<open>A read-only computation leaves the state as it is, whatever it returns.\<close>

definition reads_only :: "('s, 'a) go \<Rightarrow> bool" where
  "reads_only f \<longleftrightarrow> (\<forall>s. snd (f s) = s)"

lemma reads_only_intros [intro, simp]:
  "reads_only (go_return x)" "reads_only (go_error e)" "reads_only (go_panic p)"
  "reads_only (go_lift r)" "reads_only (go_guard b e)" "reads_only (go_deref q)"
  by (auto simp: reads_only_def go_defs split: option.splits)

lemma reads_only_bind [intro]:
  "reads_only f \<Longrightarrow> (\<And>x. reads_only (g x)) \<Longrightarrow> reads_only (go_bind f g)"
  by (auto simp: reads_only_def go_bind_def split: prod.splits res.splits) (metis snd_conv)+

lemma reads_only_state: "reads_only f \<Longrightarrow> f s = (r, s') \<Longrightarrow> s' = s"
  by (metis reads_only_def snd_conv)

section \<open>Slices\<close>

text \<open>
  \<open>copy(dst[off:], src)\<close> overwrites from \<open>off\<close> and copies no more than fits; slicing past
  the end of \<open>dst\<close> panics.
\<close>

definition copy_at :: "nat \<Rightarrow> bytes \<Rightarrow> bytes \<Rightarrow> bytes res" where
  "copy_at off src dst = (if length dst < off then Panic IndexOutOfRange
     else Ok (take off dst @ take (length dst - off) src @ drop (off + length src) dst))"

text \<open>\<open>dst[i] = b\<close>.\<close>

definition set_at :: "nat \<Rightarrow> u8 \<Rightarrow> bytes \<Rightarrow> bytes res" where
  "set_at i b dst = (if i < length dst then Ok (dst[i := b]) else Panic IndexOutOfRange)"

text \<open>\<open>make([]byte, n)\<close>.\<close>

definition make_bytes :: "nat \<Rightarrow> bytes" where
  "make_bytes n = replicate n 0"

text \<open>\<open>v[lo:hi]\<close> and \<open>v[lo:]\<close> on a slice whose capacity is its length.\<close>

definition slice :: "nat \<Rightarrow> nat \<Rightarrow> bytes \<Rightarrow> bytes res" where
  "slice lo hi v = (if lo \<le> hi \<and> hi \<le> length v then Ok (take (hi - lo) (drop lo v))
     else Panic IndexOutOfRange)"

definition slice_from :: "nat \<Rightarrow> bytes \<Rightarrow> bytes res" where
  "slice_from lo v = (if lo \<le> length v then Ok (drop lo v) else Panic IndexOutOfRange)"

lemma length_make_bytes [simp]: "length (make_bytes n) = n"
  by (simp add: make_bytes_def)

section \<open>Big-endian integers (encoding/binary)\<close>

text \<open>\<open>be_encode n w\<close>: the low \<open>n\<close> bytes of \<open>w\<close>, the most significant first.\<close>

fun be_encode :: "nat \<Rightarrow> 'a::len word \<Rightarrow> bytes" where
  "be_encode 0 w = []"
| "be_encode (Suc n) w = ucast (drop_bit (8 * n) w) # be_encode n w"

definition be_decode :: "bytes \<Rightarrow> 'a::len word" where
  "be_decode bs = foldl (\<lambda>acc b. push_bit 8 acc OR ucast b) 0 bs"

definition be64 :: "u64 \<Rightarrow> bytes" where "be64 = be_encode 8"
definition be16 :: "u16 \<Rightarrow> bytes" where "be16 = be_encode 2"

text \<open>\<open>binary.BigEndian.Uint64\<close> reads the first eight bytes and panics on a shorter slice.\<close>

definition be_Uint64 :: "bytes \<Rightarrow> u64 res" where
  "be_Uint64 v = (if 8 \<le> length v then Ok (be_decode (take 8 v)) else Panic IndexOutOfRange)"

text \<open>\<open>binary.BigEndian.PutUint64(v[off:], x)\<close> and \<open>PutUint16\<close>.\<close>

definition put_Uint64_at :: "nat \<Rightarrow> u64 \<Rightarrow> bytes \<Rightarrow> bytes res" where
  "put_Uint64_at off x v = (if off + 8 \<le> length v then copy_at off (be64 x) v
     else Panic IndexOutOfRange)"

definition put_Uint16_at :: "nat \<Rightarrow> u16 \<Rightarrow> bytes \<Rightarrow> bytes res" where
  "put_Uint16_at off x v = (if off + 2 \<le> length v then copy_at off (be16 x) v
     else Panic IndexOutOfRange)"

lemma length_be_encode [simp]: "length (be_encode n w) = n"
  by (induction n) auto

lemma length_be64 [simp]: "length (be64 x) = 8"
  by (simp add: be64_def)

lemma length_be16 [simp]: "length (be16 x) = 2"
  by (simp add: be16_def)

lemma be_decode_step:
  fixes w :: "'a::len word"
  shows "push_bit (8 * n) (push_bit 8 acc OR ucast (ucast (drop_bit (8 * n) w) :: u8)) OR take_bit (8 * n) w
       = push_bit (8 * Suc n) acc OR take_bit (8 * Suc n) w"
  by (rule bit_word_eqI) (auto simp: bit_simps add.commute)

lemma be_decode_encode_acc:
  fixes w :: "'a::len word"
  shows "foldl (\<lambda>acc b. push_bit 8 acc OR ucast b) acc (be_encode n w)
       = push_bit (8 * n) acc OR take_bit (8 * n) w"
proof (induction n arbitrary: acc)
  case 0
  then show ?case by simp
next
  case (Suc n)
  then show ?case by (simp only: be_encode.simps foldl_Cons be_decode_step)
qed

lemma be_decode_encode: "LENGTH('a) \<le> 8 * n \<Longrightarrow> be_decode (be_encode n w) = (w :: 'a::len word)"
  by (simp add: be_decode_def be_decode_encode_acc take_bit_word_eq_self)

lemma be_decode_be64 [simp]: "be_decode (be64 x) = x"
  by (simp add: be64_def be_decode_encode)

lemma be64_inject [simp]: "be64 x = be64 y \<longleftrightarrow> x = y"
  by (metis be_decode_be64)

lemma be_Uint64_be64 [simp]: "be_Uint64 (be64 x @ rest) = Ok x"
  by (simp add: be_Uint64_def)

lemma be_Uint64_be64' [simp]: "be_Uint64 (be64 x) = Ok x"
  using be_Uint64_be64 [of x "[]"] by simp

section \<open>Generic lemmas on words, lists and sums\<close>

lemma unat_u64_less: "unat (x :: u64) < 2 ^ 64"
  using unsigned_less [of x] by simp

lemma find_append: "find P (xs @ ys) = (case find P xs of Some x \<Rightarrow> Some x | None \<Rightarrow> find P ys)"
  by (induction xs) auto

lemma sum_update_le:
  fixes f :: "'a \<Rightarrow> nat"
  assumes "finite A" "a \<in> A"
  shows "sum (f(a := x)) A + f a = sum f A + x"
proof -
  have "sum (f(a := x)) A = sum (f(a := x)) (A - {a}) + x"
    using assms by (simp add: sum.remove [of A a] add.commute)
  also have "sum (f(a := x)) (A - {a}) = sum f (A - {a})"
    by (rule sum.cong) auto
  finally show ?thesis
    using assms by (simp add: sum.remove [of A a f])
qed

lemma append_eq_same_length:
  "length xs = length ys \<Longrightarrow> xs @ us = ys @ vs \<longleftrightarrow> xs = ys \<and> us = vs"
  by simp

end
