(* ===== verification/Seq_Sha256.thy ===== *)
theory Seq_Sha256
  imports Seq_Prelude
begin

text \<open>
  \<open>sha256.Sum256\<close> of Go's standard library (FIPS 180-4), which \<open>HashAuctionInfo\<close> of
  \<open>src/actions/auction.go\<close> calls: padding, message schedule, compression, output.
\<close>

text \<open>The round constants (the first 32 bits of the fractional parts of the cube roots of the first
  64 primes), in decimal.\<close>

definition sha256_K :: "u32 list" where
  "sha256_K = [
     1116352408, 1899447441, 3049323471, 3921009573, 961987163, 1508970993, 2453635748, 2870763221,
     3624381080, 310598401, 607225278, 1426881987, 1925078388, 2162078206, 2614888103, 3248222580,
     3835390401, 4022224774, 264347078, 604807628, 770255983, 1249150122, 1555081692, 1996064986,
     2554220882, 2821834349, 2952996808, 3210313671, 3336571891, 3584528711, 113926993, 338241895,
     666307205, 773529912, 1294757372, 1396182291, 1695183700, 1986661051, 2177026350, 2456956037,
     2730485921, 2820302411, 3259730800, 3345764771, 3516065817, 3600352804, 4094571909, 275423344,
     430227734, 506948616, 659060556, 883997877, 958139571, 1322822218, 1537002063, 1747873779,
     1955562222, 2024104815, 2227730452, 2361852424, 2428436474, 2756734187, 3204031479, 3329325298]"

text \<open>The eight working variables.\<close>

type_synonym sha_state = "u32 \<times> u32 \<times> u32 \<times> u32 \<times> u32 \<times> u32 \<times> u32 \<times> u32"

definition sha256_init :: sha_state where
  "sha256_init = (0x6a09e667, 0xbb67ae85, 0x3c6ef372, 0xa54ff53a, 0x510e527f, 0x9b05688c, 0x1f83d9ab, 0x5be0cd19)"

definition sha256_pad :: "bytes \<Rightarrow> bytes" where
  "sha256_pad msg = msg @ [0x80] @ replicate (nat ((55 - int (length msg)) mod 64)) 0
     @ be64 (of_nat (8 * length msg))"

definition rotr :: "nat \<Rightarrow> u32 \<Rightarrow> u32" where
  "rotr n x = drop_bit n x OR push_bit (32 - n) x"

definition small_sigma0 :: "u32 \<Rightarrow> u32" where
  "small_sigma0 x = rotr 7 x XOR rotr 18 x XOR drop_bit 3 x"
definition small_sigma1 :: "u32 \<Rightarrow> u32" where
  "small_sigma1 x = rotr 17 x XOR rotr 19 x XOR drop_bit 10 x"
definition big_sigma0 :: "u32 \<Rightarrow> u32" where
  "big_sigma0 x = rotr 2 x XOR rotr 13 x XOR rotr 22 x"
definition big_sigma1 :: "u32 \<Rightarrow> u32" where
  "big_sigma1 x = rotr 6 x XOR rotr 11 x XOR rotr 25 x"

text \<open>The block as words, and the schedule extended by \<open>n\<close> words; the list holds the latest word
  first.\<close>

fun words_of :: "bytes \<Rightarrow> u32 list" where
  "words_of (a # b # c # d # rest) = be_decode [a, b, c, d] # words_of rest"
| "words_of _ = []"

fun extend_schedule :: "nat \<Rightarrow> u32 list \<Rightarrow> u32 list" where
  "extend_schedule 0 w = w"
| "extend_schedule (Suc n) w =
     extend_schedule n ((small_sigma1 (w ! 1) + w ! 6 + small_sigma0 (w ! 14) + w ! 15) # w)"

definition sha256_schedule :: "bytes \<Rightarrow> u32 list" where
  "sha256_schedule block = rev (extend_schedule 48 (rev (words_of block)))"

fun sha256_round :: "sha_state \<Rightarrow> u32 \<times> u32 \<Rightarrow> sha_state" where
  "sha256_round (a, b, c, d, e, f, g, h) (k, w) =
     (let t1 = h + big_sigma1 e + ((e AND f) XOR (NOT e AND g)) + k + w;
          t2 = big_sigma0 a + ((a AND b) XOR (a AND c) XOR (b AND c)) in
      (t1 + t2, a, b, c, d + t1, e, f, g))"

fun add_state :: "sha_state \<Rightarrow> sha_state \<Rightarrow> sha_state" where
  "add_state (a, b, c, d, e, f, g, h) (a', b', c', d', e', f', g', h') =
     (a + a', b + b', c + c', d + d', e + e', f + f', g + g', h + h')"

definition sha256_block :: "sha_state \<Rightarrow> bytes \<Rightarrow> sha_state" where
  "sha256_block s block = add_state s (foldl sha256_round s (zip sha256_K (sha256_schedule block)))"

function sha256_blocks :: "sha_state \<Rightarrow> bytes \<Rightarrow> sha_state" where
  "sha256_blocks s msg = (if length msg < 64 then s
     else sha256_blocks (sha256_block s (take 64 msg)) (drop 64 msg))"
  by pat_completeness auto
termination
  by (relation "measure (\<lambda>(s, msg). length msg)") auto

declare sha256_blocks.simps [simp del]

fun sha_bytes :: "sha_state \<Rightarrow> bytes" where
  "sha_bytes (a, b, c, d, e, f, g, h) = concat (map (be_encode 4) [a, b, c, d, e, f, g, h])"

definition sha256_Sum256 :: "bytes \<Rightarrow> bytes" where
  "sha256_Sum256 msg = sha_bytes (sha256_blocks sha256_init (sha256_pad msg))"

lemma length_sha256 [simp]: "length (sha256_Sum256 msg) = 32"
  by (cases "sha256_blocks sha256_init (sha256_pad msg)" rule: sha_bytes.cases) (simp add: sha256_Sum256_def)

text \<open>The padded message is a whole number of blocks, so no byte of it is left out.\<close>

lemma sha256_pad_blocks: "64 dvd length (sha256_pad msg)"
proof -
  have "int (length (sha256_pad msg)) = int (length msg) + 9 + (55 - int (length msg)) mod 64"
    by (simp add: sha256_pad_def)
  also have "(55 - int (length msg)) mod 64 = 55 - int (length msg) - 64 * ((55 - int (length msg)) div 64)"
    by (simp add: minus_mult_div_eq_mod)
  finally have "int (length (sha256_pad msg)) = 64 * (1 - (55 - int (length msg)) div 64)" by simp
  then have "int 64 dvd int (length (sha256_pad msg))" by (metis dvd_triv_left of_nat_numeral)
  then show ?thesis by (simp only: int_dvd_int_iff)
qed

end
