(* ===== verification/Seq_Sdk.thy ===== *)
theory Seq_Sdk
  imports Seq_Prelude
begin

text \<open>
  The code outside the repository that the sources call, as parameters of the model: the
  constants and helpers of the SDK (\<open>hypersdk\<close>) and of \<open>avalanchego\<close>, the packer of
  \<open>hypersdk/codec\<close>, the rollup data of \<open>hypersdk/actions\<close>, the signature schemes, and the
  key-value interface \<open>state.Mutable\<close>. Each is a record of functions that the definitions
  take as an argument; nothing is assumed about them in the definitions. What the sources rely
  on is stated once, as the laws of the locales below, which the properties name as hypotheses.
\<close>

section \<open>The parameters\<close>

record sdk =
  AddressLen :: nat
  Uint16Len :: nat
  Uint64Len :: nat
  IntLen :: nat
  IDLen :: nat
  DimensionsLen :: nat
  MaxNamespaceLen :: nat
  MillisecondsPerSecond :: i64
  BranchFactor16 :: nat
  BranchFactor_Valid :: "nat \<Rightarrow> err option"
  NetworkSizeLimit :: int
  bls_PublicKeyLen :: nat
  bls_SignatureLen :: nat
  ed25519_PublicKeyLen :: nat
  ed25519_SignatureLen :: nat
  Add64 :: "u64 \<Rightarrow> u64 \<Rightarrow> err + u64"
  Sub64 :: "u64 \<Rightarrow> u64 \<Rightarrow> err + u64"
  CreateAddress :: "u8 \<Rightarrow> ID \<Rightarrow> Address"
  ToID :: "bytes \<Rightarrow> ID"
  ToAddress :: "bytes \<Rightarrow> Address \<times> err option"
  ParseAddressBech32 :: "string \<Rightarrow> string \<Rightarrow> err + Address"
  MustAddressBech32 :: "string \<Rightarrow> Address \<Rightarrow> string res"
  BytesLen :: "bytes \<Rightarrow> int"
  Dimensions_Bytes :: "u64 list \<Rightarrow> bytes"
  UnpackDimensions :: "bytes \<Rightarrow> err + u64 list"

text \<open>\<open>codec.Packer\<close>: \<open>'p\<close> is the packer; the unpack functions also return what they write
  through their \<open>dest\<close> pointer.\<close>

record 'p codec = sdk +
  NewReader :: "bytes \<Rightarrow> int \<Rightarrow> 'p"
  NewWriter :: "int \<Rightarrow> int \<Rightarrow> 'p"
  PackUint64 :: "u64 \<Rightarrow> 'p \<Rightarrow> 'p"
  PackInt :: "i64 \<Rightarrow> 'p \<Rightarrow> 'p"
  PackBytes :: "bytes \<Rightarrow> 'p \<Rightarrow> 'p"
  PackFixedBytes :: "bytes \<Rightarrow> 'p \<Rightarrow> 'p"
  PackAddress :: "Address \<Rightarrow> 'p \<Rightarrow> 'p"
  UnpackUint64 :: "bool \<Rightarrow> 'p \<Rightarrow> u64 \<times> 'p"
  UnpackInt :: "bool \<Rightarrow> 'p \<Rightarrow> i64 \<times> 'p"
  UnpackBytes :: "int \<Rightarrow> bool \<Rightarrow> 'p \<Rightarrow> bytes \<times> 'p"
  UnpackFixedBytes :: "nat \<Rightarrow> 'p \<Rightarrow> bytes \<times> 'p"
  UnpackAddress :: "'p \<Rightarrow> Address \<times> 'p"
  packer_Err :: "'p \<Rightarrow> err option"
  packer_Bytes :: "'p \<Rightarrow> bytes"

text \<open>The fields of \<open>hypersdk/actions\<close>' structs that the sources read or write.\<close>

record RollupInfo =
  ri_FeeRecipient :: Address
  ri_Namespace :: bytes
  ri_AuthoritySEQAddress :: Address
  ri_SequencerPublicKey :: bytes
  ri_StartEpoch :: u64
  ri_ExitEpoch :: u64

record EpochInfo =
  ei_Epoch :: u64
  ei_Namespace :: bytes

record EpochExitInfo =
  Exits :: "EpochInfo list"

record 'p hactions = "'p codec" +
  RollupInfoKey :: "bytes \<Rightarrow> bytes"
  RollupRegistryKey :: "bytes"
  EpochExitsKey :: "u64 \<Rightarrow> bytes"
  ArcadiaBidKey :: "u64 \<Rightarrow> bytes"
  RollupInfoChunks :: u16
  RollupRegistryChunks :: u16
  EpochExitsChunks :: u16
  EpochExitID :: u8
  RollupRegisterID :: u8
  RollupRegisterComputeUnits :: u64
  RollupInfo_Size :: "RollupInfo \<Rightarrow> int"
  RollupInfo_Marshal :: "RollupInfo \<Rightarrow> 'p \<Rightarrow> 'p"
  UnmarshalRollupInfo :: "'p \<Rightarrow> (err + RollupInfo) \<times> 'p"
  EpochInfo_Size :: "EpochInfo \<Rightarrow> int"
  EpochInfo_Marshal :: "EpochInfo \<Rightarrow> 'p \<Rightarrow> 'p"
  UnmarshalEpochInfo :: "'p \<Rightarrow> (err + EpochInfo) \<times> 'p"
  EpochExitInfo_Marshal :: "EpochExitInfo \<Rightarrow> 'p \<Rightarrow> 'p"
  UnmarshalEpochExitsInfo :: "'p \<Rightarrow> (err + EpochExitInfo) \<times> 'p"
  hPackNamespaces :: "bytes list \<Rightarrow> err + bytes"
  hUnpackNamespaces :: "bytes \<Rightarrow> err + bytes list"
  RollupInfo_ID :: "RollupInfo \<Rightarrow> ID"
  ValidAtEpoch :: "RollupInfo \<Rightarrow> u64 \<Rightarrow> bool"
  Exited :: "RollupInfo \<Rightarrow> u64 \<Rightarrow> bool"

text \<open>\<open>hypersdk/crypto/bls\<close> and \<open>hypersdk/crypto/ed25519\<close>; \<open>'pk\<close>, \<open>'sg\<close> and \<open>'sk\<close> are the
  parsed BLS public keys, signatures and private keys.\<close>

record ('p, 'pk, 'sg, 'sk) crypto = "'p hactions" +
  bls_PublicKeyFromBytes :: "bytes \<Rightarrow> err + 'pk"
  bls_SignatureFromBytes :: "bytes \<Rightarrow> err + 'sg"
  bls_PublicKeyToBytes :: "'pk \<Rightarrow> bytes"
  bls_SignatureToBytes :: "'sg \<Rightarrow> bytes"
  bls_Verify :: "bytes \<Rightarrow> 'pk \<Rightarrow> 'sg \<Rightarrow> bool"
  bls_Sign :: "bytes \<Rightarrow> 'sk \<Rightarrow> 'sg"
  bls_PublicFromPrivateKey :: "'sk \<Rightarrow> 'pk"
  ed25519_Verify :: "bytes \<Rightarrow> bytes \<Rightarrow> bytes \<Rightarrow> bool"
  ed25519_Sign :: "bytes \<Rightarrow> bytes \<Rightarrow> bytes"
  ed25519_PublicKey :: "bytes \<Rightarrow> bytes"
  ed25519_MinBatchSize :: int

text \<open>\<open>state.Mutable\<close> (its read half is \<open>state.Immutable\<close>): \<open>'m\<close> is the state.\<close>

record 'm Mutable =
  GetValue :: "'m \<Rightarrow> bytes \<Rightarrow> err + bytes"
  mu_Insert :: "'m \<Rightarrow> bytes \<Rightarrow> bytes \<Rightarrow> err option \<times> 'm"
  mu_Remove :: "'m \<Rightarrow> bytes \<Rightarrow> err option \<times> 'm"

text \<open>The calls \<open>im.GetValue(ctx, k)\<close>, \<open>mu.Insert(ctx, k, v)\<close>, \<open>mu.Remove(ctx, k)\<close> as
  stateful computations; the read hands value and error to its continuation.\<close>

fun go_of_error :: "err option \<times> 's \<Rightarrow> unit res \<times> 's" where
  "go_of_error (None, s) = (Ok (), s)"
| "go_of_error (Some e, s) = (Error e, s)"

definition go_get :: "'m Mutable \<Rightarrow> bytes \<Rightarrow> ('m, err + bytes) go" where
  "go_get S k = (\<lambda>m. (Ok (GetValue S m k), m))"

definition go_insert :: "'m Mutable \<Rightarrow> bytes \<Rightarrow> bytes \<Rightarrow> ('m, unit) go" where
  "go_insert S k v = (\<lambda>m. go_of_error (mu_Insert S m k v))"

definition go_remove :: "'m Mutable \<Rightarrow> bytes \<Rightarrow> ('m, unit) go" where
  "go_remove S k = (\<lambda>m. go_of_error (mu_Remove S m k))"

lemma go_of_error_Ok_iff [simp]: "go_of_error r = (Ok x, s) \<longleftrightarrow> r = (None, s)"
  by (cases r rule: go_of_error.cases) auto

lemma go_of_error_not_Panic [simp]: "go_of_error r \<noteq> (Panic p, s)"
  by (cases r rule: go_of_error.cases) auto

lemma go_write_not_Panic [simp]:
  "go_insert S k v m \<noteq> (Panic p, m')" "go_remove S k m \<noteq> (Panic p, m')"
  by (simp_all add: go_insert_def go_remove_def)

lemma go_get_iff [simp]: "go_get S k m = (r, m') \<longleftrightarrow> r = Ok (GetValue S m k) \<and> m' = m"
  by (auto simp: go_get_def)

lemma reads_only_get [intro, simp]: "reads_only (go_get S k)"
  by (simp add: reads_only_def go_get_def)

section \<open>Which keys a computation may change\<close>

text \<open>\<open>changes_only S m m' K\<close>: outside \<open>K\<close>, \<open>m'\<close> reads as \<open>m\<close> does. \<open>writes_only S K f\<close>:
  whatever \<open>f\<close> returns, it changed no key outside \<open>K\<close>.\<close>

definition changes_only :: "'m Mutable \<Rightarrow> 'm \<Rightarrow> 'm \<Rightarrow> bytes set \<Rightarrow> bool" where
  "changes_only S m m' K \<longleftrightarrow> (\<forall>k. k \<notin> K \<longrightarrow> GetValue S m' k = GetValue S m k)"

definition writes_only :: "'m Mutable \<Rightarrow> bytes set \<Rightarrow> ('m, 'a) go \<Rightarrow> bool" where
  "writes_only S K f \<longleftrightarrow> (\<forall>m. changes_only S m (snd (f m)) K)"

named_theorems writes "rules for the keys a computation may change"

lemma changes_only_refl [simp, intro]: "changes_only S m m K"
  by (simp add: changes_only_def)

lemma changes_only_trans:
  "changes_only S m m1 K \<Longrightarrow> changes_only S m1 m2 K \<Longrightarrow> changes_only S m m2 K"
  by (simp add: changes_only_def)

lemma writes_only_run: "writes_only S K f \<Longrightarrow> f m = (r, m') \<Longrightarrow> changes_only S m m' K"
  by (metis snd_conv writes_only_def)

lemma writes_only_mono: "writes_only S K f \<Longrightarrow> K \<subseteq> K' \<Longrightarrow> writes_only S K' f"
  by (auto simp: writes_only_def changes_only_def)

lemma writes_only_reads: "reads_only f \<Longrightarrow> writes_only S K f"
  by (simp add: writes_only_def reads_only_def)

lemma writes_only_basic [writes]:
  "writes_only S K (go_return x)" "writes_only S K (go_error e)" "writes_only S K (go_panic p)"
  "writes_only S K (go_lift r)" "writes_only S K (go_guard b e)" "writes_only S K (go_deref q)"
  "writes_only S K (go_get S' k)"
  by (auto intro: writes_only_reads)

lemma writes_only_bind [writes]:
  assumes f: "writes_only S K f" and g: "\<And>x. writes_only S K (g x)"
  shows "writes_only S K (go_bind f g)"
proof -
  have "changes_only S m (snd (go_bind f g m)) K" for m
  proof (cases "f m")
    case (Pair r m1)
    have 1: "changes_only S m m1 K" using f Pair by (rule writes_only_run)
    show ?thesis
    proof (cases r)
      case (Ok x)
      have "changes_only S m1 (snd (g x m1)) K" using g by (simp add: writes_only_def)
      with 1 Pair Ok show ?thesis by (simp add: go_bind_def changes_only_trans)
    qed (use 1 Pair in \<open>simp_all add: go_bind_def\<close>)
  qed
  then show ?thesis by (simp add: writes_only_def)
qed

lemma writes_only_wrap [writes]: "writes_only S K f \<Longrightarrow> writes_only S K (go_wrap msg args f)"
  by (auto simp: writes_only_def go_wrap_def split: prod.splits res.splits) (metis snd_conv)+

lemma writes_only_if [writes]:
  "(b \<Longrightarrow> writes_only S K f) \<Longrightarrow> (\<not> b \<Longrightarrow> writes_only S K g) \<Longrightarrow> writes_only S K (if b then f else g)"
  by simp

lemma writes_only_case_sum [writes]:
  "(\<And>x. writes_only S K (f x)) \<Longrightarrow> (\<And>y. writes_only S K (g y)) \<Longrightarrow> writes_only S K (case r of Inl x \<Rightarrow> f x | Inr y \<Rightarrow> g y)"
  by (cases r) simp_all

lemma writes_only_case_option [writes]:
  "writes_only S K f \<Longrightarrow> (\<And>y. writes_only S K (g y)) \<Longrightarrow> writes_only S K (case r of None \<Rightarrow> f | Some y \<Rightarrow> g y)"
  by (cases r) simp_all

lemma writes_only_case_prod [writes]:
  "(\<And>x y. writes_only S K (f x y)) \<Longrightarrow> writes_only S K (case r of (x, y) \<Rightarrow> f x y)"
  by (cases r) simp

section \<open>What the sources rely on\<close>

subsection \<open>The key-value state\<close>

text \<open>
  A successful write changes what is read at its own key only, and a refused write changes
  nothing. A write may be refused (a transaction's view of the state refuses keys the
  transaction did not declare).
\<close>

locale kv_store =
  fixes S :: "'m Mutable"
  assumes get_insert: "mu_Insert S m k v = (None, m') \<Longrightarrow>
      GetValue S m' k' = (if k' = k then Inr v else GetValue S m k')"
    and insert_refused: "mu_Insert S m k v = (Some e, m') \<Longrightarrow> GetValue S m' k' = GetValue S m k'"
    and get_remove: "mu_Remove S m k = (None, m') \<Longrightarrow>
      GetValue S m' k' = (if k' = k then Inl ErrNotFound else GetValue S m k')"
    and remove_refused: "mu_Remove S m k = (Some e, m') \<Longrightarrow> GetValue S m' k' = GetValue S m k'"
begin

lemma go_insert_Ok:
  "go_insert S k v m = (Ok (), m') \<Longrightarrow> GetValue S m' k' = (if k' = k then Inr v else GetValue S m k')"
  by (simp add: go_insert_def get_insert)

lemma go_remove_Ok:
  "go_remove S k m = (Ok (), m') \<Longrightarrow>
     GetValue S m' k' = (if k' = k then Inl ErrNotFound else GetValue S m k')"
  by (simp add: go_remove_def get_remove)

lemma go_insert_own: "go_insert S k v m = (Ok (), m') \<Longrightarrow> GetValue S m' k = Inr v"
  by (simp add: go_insert_Ok)

lemma go_insert_frame:
  "go_insert S k v m = (r, m') \<Longrightarrow> k' \<noteq> k \<Longrightarrow> GetValue S m' k' = GetValue S m k'"
  by (cases "mu_Insert S m k v" rule: go_of_error.cases)
    (auto simp: go_insert_def get_insert insert_refused)

lemma go_remove_frame:
  "go_remove S k m = (r, m') \<Longrightarrow> k' \<noteq> k \<Longrightarrow> GetValue S m' k' = GetValue S m k'"
  by (cases "mu_Remove S m k" rule: go_of_error.cases)
    (auto simp: go_remove_def get_remove remove_refused)

lemma go_insert_refused:
  "go_insert S k v m = (Error e, m') \<Longrightarrow> GetValue S m' k' = GetValue S m k'"
  by (cases "mu_Insert S m k v" rule: go_of_error.cases) (auto simp: go_insert_def insert_refused)

lemma go_remove_refused:
  "go_remove S k m = (Error e, m') \<Longrightarrow> GetValue S m' k' = GetValue S m k'"
  by (cases "mu_Remove S m k" rule: go_of_error.cases) (auto simp: go_remove_def remove_refused)

end

context kv_store
begin

lemma writes_only_insert [writes]: "k \<in> K \<Longrightarrow> writes_only S K (go_insert S k v)"
  unfolding writes_only_def changes_only_def
  by (metis go_insert_frame prod.collapse)

lemma writes_only_remove [writes]: "k \<in> K \<Longrightarrow> writes_only S K (go_remove S k)"
  unfolding writes_only_def changes_only_def
  by (metis go_remove_frame prod.collapse)

end

text \<open>A state that refuses no write: the database itself, or a view with every key declared.\<close>

locale kv_total = kv_store +
  assumes insert_accepted: "fst (mu_Insert S m k v) = None"
    and remove_accepted: "fst (mu_Remove S m k) = None"
begin

lemma go_insert_accepted: "\<exists>m'. go_insert S k v m = (Ok (), m')"
  using insert_accepted [of m k v] by (cases "mu_Insert S m k v") (simp add: go_insert_def)

lemma go_remove_accepted: "\<exists>m'. go_remove S k m = (Ok (), m')"
  using remove_accepted [of m k] by (cases "mu_Remove S m k") (simp add: go_remove_def)

end

subsection \<open>Checked arithmetic\<close>

text \<open>\<open>smath.Add64\<close> and \<open>smath.Sub\<close> return an error exactly when the result does not fit.\<close>

locale checked_math =
  fixes E :: "'x sdk_scheme"
  assumes Add64_fits: "unat a + unat b < 2 ^ 64 \<Longrightarrow> Add64 E a b = Inr (a + b)"
    and Add64_overflow: "2 ^ 64 \<le> unat a + unat b \<Longrightarrow> \<exists>e. Add64 E a b = Inl e"
    and Sub64_fits: "unat b \<le> unat a \<Longrightarrow> Sub64 E a b = Inr (a - b)"
    and Sub64_underflow: "unat a < unat b \<Longrightarrow> \<exists>e. Sub64 E a b = Inl e"
begin

lemma Add64_Inr: "Add64 E a b = Inr c \<longleftrightarrow> unat a + unat b < 2 ^ 64 \<and> c = a + b"
  using Add64_fits [of a b] Add64_overflow [of a b] by (cases "unat a + unat b < 2 ^ 64") auto

lemma Sub64_Inr: "Sub64 E a b = Inr c \<longleftrightarrow> unat b \<le> unat a \<and> c = a - b"
  using Sub64_fits [of b a] Sub64_underflow [of a b] by (cases "unat b \<le> unat a") auto

lemma Add64_unat: "Add64 E a b = Inr c \<Longrightarrow> unat c = unat a + unat b"
  using unat_add_lem [of a b] by (auto simp: Add64_Inr)

lemma Sub64_unat: "Sub64 E a b = Inr c \<Longrightarrow> unat c = unat a - unat b"
  by (auto simp: Sub64_Inr unat_sub word_le_nat_alt)

end

subsection \<open>The packer\<close>

text \<open>
  What is packed in an order unpacks in that order: every pack function appends the encoding of
  its argument (\<open>enc_u64\<close>, \<open>enc_int\<close>, \<open>enc_bytes\<close>; fixed bytes and addresses are their own
  encoding) or leaves an error behind, and every unpack function takes its encoding off the
  front of what is left to read (\<open>left\<close>) when the value satisfies what the call demands of it
  (not zero, not empty, within the limit). An error, once there, stays.
\<close>

locale packer =
  fixes E :: "('p, 'x) codec_scheme"
    and left :: "'p \<Rightarrow> bytes"
    and enc_u64 :: "u64 \<Rightarrow> bytes"
    and enc_int :: "i64 \<Rightarrow> bytes"
    and enc_bytes :: "bytes \<Rightarrow> bytes"
  assumes writer: "packer_Bytes E (NewWriter E n lim) = []" "packer_Err E (NewWriter E n lim) = None"
    and reader: "int (length b) \<le> lim \<Longrightarrow>
        left (NewReader E b lim) = b \<and> packer_Err E (NewReader E b lim) = None"
    and pack_u64: "packer_Err E (PackUint64 E v p) = None \<Longrightarrow>
        packer_Err E p = None \<and> packer_Bytes E (PackUint64 E v p) = packer_Bytes E p @ enc_u64 v"
    and pack_int: "packer_Err E (PackInt E i p) = None \<Longrightarrow>
        packer_Err E p = None \<and> packer_Bytes E (PackInt E i p) = packer_Bytes E p @ enc_int i"
    and pack_bytes: "packer_Err E (PackBytes E b p) = None \<Longrightarrow>
        packer_Err E p = None \<and> packer_Bytes E (PackBytes E b p) = packer_Bytes E p @ enc_bytes b"
    and pack_fixed: "packer_Err E (PackFixedBytes E b p) = None \<Longrightarrow>
        packer_Err E p = None \<and> packer_Bytes E (PackFixedBytes E b p) = packer_Bytes E p @ b"
    and pack_address: "packer_Err E (PackAddress E b p) = None \<Longrightarrow>
        packer_Err E p = None \<and> packer_Bytes E (PackAddress E b p) = packer_Bytes E p @ b"
    and unpack_u64: "packer_Err E p = None \<Longrightarrow> left p = enc_u64 v @ r \<Longrightarrow> req \<longrightarrow> v \<noteq> 0 \<Longrightarrow>
        \<exists>p'. UnpackUint64 E req p = (v, p') \<and> left p' = r \<and> packer_Err E p' = None"
    and unpack_u64_zero: "packer_Err E p = None \<Longrightarrow> left p = enc_u64 0 @ r \<Longrightarrow>
        \<exists>p' e. UnpackUint64 E True p = (0, p') \<and> packer_Err E p' = Some e"
    and unpack_int: "packer_Err E p = None \<Longrightarrow> left p = enc_int i @ r \<Longrightarrow> req \<longrightarrow> i \<noteq> 0 \<Longrightarrow>
        unat i < 2 ^ 31 \<Longrightarrow>
        \<exists>p'. UnpackInt E req p = (i, p') \<and> left p' = r \<and> packer_Err E p' = None"
    and unpack_bytes: "packer_Err E p = None \<Longrightarrow> left p = enc_bytes b @ r \<Longrightarrow> req \<longrightarrow> b \<noteq> [] \<Longrightarrow>
        lim < 0 \<or> int (length b) \<le> lim \<Longrightarrow> length b < 2 ^ 31 \<Longrightarrow>
        \<exists>p'. UnpackBytes E lim req p = (b, p') \<and> left p' = r \<and> packer_Err E p' = None"
    and unpack_bytes_long: "packer_Err E p = None \<Longrightarrow> left p = enc_bytes b @ r \<Longrightarrow>
        0 \<le> lim \<Longrightarrow> lim < int (length b) \<Longrightarrow> length b < 2 ^ 31 \<Longrightarrow>
        \<exists>b' p' e. UnpackBytes E lim req p = (b', p') \<and> packer_Err E p' = Some e"
    and unpack_bytes_empty: "packer_Err E p = None \<Longrightarrow> left p = enc_bytes [] @ r \<Longrightarrow>
        \<exists>p' e. UnpackBytes E lim True p = ([], p') \<and> packer_Err E p' = Some e"
    and unpack_fixed: "packer_Err E p = None \<Longrightarrow> left p = b @ r \<Longrightarrow>
        \<exists>p'. UnpackFixedBytes E (length b) p = (b, p') \<and> left p' = r \<and> packer_Err E p' = None"
    and unpack_address: "packer_Err E p = None \<Longrightarrow> left p = a @ r \<Longrightarrow> length a = AddressLen E \<Longrightarrow>
        a \<noteq> make_bytes (AddressLen E) \<Longrightarrow>
        \<exists>p'. UnpackAddress E p = (a, p') \<and> left p' = r \<and> packer_Err E p' = None"
    and error_stays: "packer_Err E p = Some e \<Longrightarrow>
        packer_Err E (snd (UnpackUint64 E req p)) \<noteq> None \<and> packer_Err E (snd (UnpackInt E req p)) \<noteq> None
        \<and> packer_Err E (snd (UnpackBytes E lim req p)) \<noteq> None"

text \<open>
  \<open>packs E f b\<close>: when \<open>f\<close> leaves no error, it appended \<open>b\<close>. \<open>unpacks E left f v b\<close>: \<open>f\<close> takes
  \<open>b\<close> off the front of what is left and returns \<open>v\<close>. Both compose along the calls of a
  \<open>Marshal\<close> or \<open>Unmarshal\<close> method.
\<close>

definition packs :: "('p, 'x) codec_scheme \<Rightarrow> ('p \<Rightarrow> 'p) \<Rightarrow> bytes \<Rightarrow> bool" where
  "packs E f b \<longleftrightarrow> (\<forall>p. packer_Err E (f p) = None \<longrightarrow>
     packer_Err E p = None \<and> packer_Bytes E (f p) = packer_Bytes E p @ b)"

definition unpacks ::
    "('p, 'x) codec_scheme \<Rightarrow> ('p \<Rightarrow> bytes) \<Rightarrow> ('p \<Rightarrow> 'v \<times> 'p) \<Rightarrow> 'v \<Rightarrow> bytes \<Rightarrow> bool" where
  "unpacks E left f v b \<longleftrightarrow> (\<forall>p r. packer_Err E p = None \<longrightarrow> left p = b @ r \<longrightarrow>
     (\<exists>p'. f p = (v, p') \<and> left p' = r \<and> packer_Err E p' = None))"

lemma packs_comp: "packs E f b \<Longrightarrow> packs E g c \<Longrightarrow> packs E (\<lambda>p. g (f p)) (b @ c)"
  unfolding packs_def by (metis append.assoc)

lemma packs_fold: "(\<And>x. packs E (f x) (enc x)) \<Longrightarrow> packs E (\<lambda>p. foldl (\<lambda>p x. f x p) p xs) (concat (map enc xs))"
proof (induction xs)
  case (Cons x xs)
  from packs_comp [OF Cons.prems Cons.IH [OF Cons.prems]] show ?case by simp
qed (simp add: packs_def)

lemma unpacks_bind:
  assumes "unpacks E left f v b" "unpacks E left (g v) w c"
  shows "unpacks E left (\<lambda>p. case f p of (x, p') \<Rightarrow> g x p') w (b @ c)"
  unfolding unpacks_def
proof (intro allI impI)
  fix p r assume p: "packer_Err E p = None" "left p = (b @ c) @ r"
  obtain p1 where 1: "f p = (v, p1)" "left p1 = c @ r" "packer_Err E p1 = None"
    using assms(1) p unfolding unpacks_def by (metis append.assoc)
  then show "\<exists>p'. (case f p of (x, p') \<Rightarrow> g x p') = (w, p') \<and> left p' = r \<and> packer_Err E p' = None"
    using assms(2) unfolding unpacks_def by simp
qed

lemma unpacks_return: "(\<And>p. packer_Err E p = None \<Longrightarrow> f p = (v, p)) \<Longrightarrow> unpacks E left f v []"
  by (simp add: unpacks_def)

lemma unpacks_run:
  "unpacks E left f v b \<Longrightarrow> packer_Err E p = None \<Longrightarrow> left p = b @ r \<Longrightarrow>
     \<exists>p'. f p = (v, p') \<and> left p' = r \<and> packer_Err E p' = None"
  by (simp add: unpacks_def)

context packer
begin

lemma packs_basic:
  "packs E (PackUint64 E v) (enc_u64 v)" "packs E (PackInt E i) (enc_int i)"
  "packs E (PackBytes E b) (enc_bytes b)" "packs E (PackFixedBytes E b) b" "packs E (PackAddress E b) b"
  unfolding packs_def
  by (intro allI impI, erule pack_u64, intro allI impI, erule pack_int, intro allI impI, erule pack_bytes,
      intro allI impI, erule pack_fixed, intro allI impI, erule pack_address)

lemma unpacks_basic:
  "req \<longrightarrow> v \<noteq> 0 \<Longrightarrow> unpacks E left (UnpackUint64 E req) v (enc_u64 v)"
  "req \<longrightarrow> i \<noteq> 0 \<Longrightarrow> unat i < 2 ^ 31 \<Longrightarrow> unpacks E left (UnpackInt E req) i (enc_int i)"
  "req \<longrightarrow> b \<noteq> [] \<Longrightarrow> lim < 0 \<or> int (length b) \<le> lim \<Longrightarrow> length b < 2 ^ 31 \<Longrightarrow>
     unpacks E left (UnpackBytes E lim req) b (enc_bytes b)"
  "length b = n \<Longrightarrow> unpacks E left (UnpackFixedBytes E n) b b"
  "length a = AddressLen E \<Longrightarrow> a \<noteq> make_bytes (AddressLen E) \<Longrightarrow> unpacks E left (UnpackAddress E) a a"
  unfolding unpacks_def
  using unpack_u64 [where req = req and v = v] unpack_int [where req = req and i = i]
    unpack_bytes [where req = req and b = b and lim = lim] unpack_fixed [where b = b] unpack_address [where a = a]
  by (blast, blast, blast, blast, blast)

lemmas unpacks_steps = unpacks_basic [THEN unpacks_bind]

text \<open>What a marshaller wrote into a fresh writer, the matching unmarshaller reads back.\<close>

lemma roundtrip:
  assumes "packs E f b" "unpacks E left g v b" "packer_Err E (f (NewWriter E n lim)) = None"
    and "int (length (packer_Bytes E (f (NewWriter E n lim)))) \<le> lim'"
  shows "\<exists>p'. g (NewReader E (packer_Bytes E (f (NewWriter E n lim))) lim') = (v, p') \<and> packer_Err E p' = None"
proof -
  have b: "packer_Bytes E (f (NewWriter E n lim)) = b"
    using assms(1,3) writer by (simp add: packs_def)
  then have "left (NewReader E b lim') = b \<and> packer_Err E (NewReader E b lim') = None"
    using assms(4) by (intro reader) simp
  then show ?thesis
    using unpacks_run [OF assms(2), of "NewReader E b lim'" "[]"] by (auto simp: b)
qed

end

subsection \<open>The rollup data\<close>

text \<open>
  The state keys of \<open>hypersdk/actions\<close> do not collide with one another, within a family or
  across families, and none starts with the prefix of a balance key.
\<close>

locale hactions_keys =
  fixes E :: "('p, 'x) hactions_scheme"
  assumes info_key_inject: "length ns \<le> MaxNamespaceLen E \<Longrightarrow> length ns' \<le> MaxNamespaceLen E \<Longrightarrow>
        RollupInfoKey E ns = RollupInfoKey E ns' \<Longrightarrow> ns = ns'"
    and exits_key_inject: "EpochExitsKey E e = EpochExitsKey E e' \<Longrightarrow> e = e'"
    and bid_key_inject: "ArcadiaBidKey E e = ArcadiaBidKey E e' \<Longrightarrow> e = e'"
    and keys_disjoint: "RollupInfoKey E ns \<noteq> RollupRegistryKey E" "RollupInfoKey E ns \<noteq> EpochExitsKey E e"
        "RollupInfoKey E ns \<noteq> ArcadiaBidKey E e" "EpochExitsKey E e \<noteq> RollupRegistryKey E"
        "EpochExitsKey E e \<noteq> ArcadiaBidKey E e'" "ArcadiaBidKey E e \<noteq> RollupRegistryKey E"
    and not_balance_prefix: "RollupInfoKey E ns \<noteq> 0 # k" "RollupRegistryKey E \<noteq> 0 # k"
        "EpochExitsKey E e \<noteq> 0 # k" "ArcadiaBidKey E e \<noteq> 0 # k"

text \<open>What was written without an error is read back.\<close>

locale hactions_codec =
  fixes E :: "('p, 'x) hactions_scheme"
  assumes info_roundtrip: "p = RollupInfo_Marshal E i (NewWriter E n (NetworkSizeLimit E)) \<Longrightarrow>
        packer_Err E p = None \<Longrightarrow>
        fst (UnmarshalRollupInfo E (NewReader E (packer_Bytes E p) (NetworkSizeLimit E))) = Inr i"
    and exits_roundtrip: "p = EpochExitInfo_Marshal E x (NewWriter E n (NetworkSizeLimit E)) \<Longrightarrow>
        packer_Err E p = None \<Longrightarrow>
        fst (UnmarshalEpochExitsInfo E (NewReader E (packer_Bytes E p) (NetworkSizeLimit E))) = Inr x"
    and namespaces_roundtrip: "hPackNamespaces E nss = Inr b \<Longrightarrow> hUnpackNamespaces E b = Inr nss"

text \<open>Inside a larger encoding: the rollup data append their encoding, and it is taken off again.\<close>

locale rollup_packer = packer E left enc_u64 enc_int enc_bytes
  for E :: "('p, 'x) hactions_scheme" and left :: "'p \<Rightarrow> bytes"
    and enc_u64 :: "u64 \<Rightarrow> bytes" and enc_int :: "i64 \<Rightarrow> bytes" and enc_bytes :: "bytes \<Rightarrow> bytes" +
  fixes enc_info :: "RollupInfo \<Rightarrow> bytes"
    and enc_epoch :: "EpochInfo \<Rightarrow> bytes"
  assumes pack_info: "packs E (RollupInfo_Marshal E i) (enc_info i)"
    and pack_epoch: "packs E (EpochInfo_Marshal E x) (enc_epoch x)"
    and unpack_info: "length (enc_info i) < 2 ^ 31 \<Longrightarrow> unpacks E left (UnmarshalRollupInfo E) (Inr i) (enc_info i)"
    and unpack_epoch: "length (enc_epoch x) < 2 ^ 31 \<Longrightarrow> unpacks E left (UnmarshalEpochInfo E) (Inr x) (enc_epoch x)"

end
