(* ===== verification/Seq_Instance.thy ===== *)
theory Seq_Instance
  imports Seq_Sdk
begin

text \<open>
  A concrete, executable instance of the parameters: a state that is a map from keys to values,
  a byte-level packer (big-endian integers, length-prefixed byte strings, a size limit, errors
  that stay), an encoding of the rollup data on top of it, and a signature scheme. Every law of
  the locales of \<open>Seq_Sdk\<close> is proved of it, so that the hypotheses of the properties are known
  to be satisfiable together, and the witnesses of the properties run on it.
\<close>

section \<open>A map as the state\<close>

type_synonym kv = "bytes \<Rightarrow> bytes option"

definition map_store :: "kv Mutable" where
  "map_store = \<lparr> GetValue = (\<lambda>m k. case m k of None \<Rightarrow> Inl ErrNotFound | Some v \<Rightarrow> Inr v),
     mu_Insert = (\<lambda>m k v. (None, m(k \<mapsto> v))),
     mu_Remove = (\<lambda>m k. (None, m(k := None))) \<rparr>"

interpretation map_kv: kv_total map_store
  by unfold_locales (auto simp: map_store_def)

text \<open>
  A view of the state that refuses to write any key but the declared ones, as the view of a
  transaction does; it satisfies the same laws.
\<close>

definition scoped_store :: "bytes list \<Rightarrow> kv Mutable" where
  "scoped_store ks = \<lparr> GetValue = GetValue map_store,
     mu_Insert = (\<lambda>m k v. if k \<in> set ks then (None, m(k \<mapsto> v)) else (Some (ErrExternal 1), m)),
     mu_Remove = (\<lambda>m k. if k \<in> set ks then (None, m(k := None)) else (Some (ErrExternal 1), m)) \<rparr>"

interpretation scoped_kv: kv_store "scoped_store ks"
  by unfold_locales (auto simp: scoped_store_def map_store_def split: if_splits)

section \<open>A byte-level packer\<close>

record rpacker =
  rp_out :: bytes
  rp_in :: bytes
  rp_max :: int
  rp_err :: "err option"

definition rp_fail :: "rpacker \<Rightarrow> rpacker" where
  "rp_fail p = p\<lparr>rp_err := Some (ErrExternal 2)\<rparr>"

definition rp_write :: "bytes \<Rightarrow> rpacker \<Rightarrow> rpacker" where
  "rp_write b p = (if rp_err p \<noteq> None then p
     else if rp_max p < int (length (rp_out p @ b)) then rp_fail p
     else p\<lparr>rp_out := rp_out p @ b\<rparr>)"

definition rp_read :: "nat \<Rightarrow> rpacker \<Rightarrow> bytes \<times> rpacker" where
  "rp_read n p = (if rp_err p \<noteq> None then ([], p)
     else if length (rp_in p) < n then ([], rp_fail p)
     else (take n (rp_in p), p\<lparr>rp_in := drop n (rp_in p)\<rparr>))"

definition be32 :: "u32 \<Rightarrow> bytes" where "be32 = be_encode 4"

definition rp_enc_bytes :: "bytes \<Rightarrow> bytes" where
  "rp_enc_bytes b = be32 (of_nat (length b)) @ b"

definition rp_enc_int :: "i64 \<Rightarrow> bytes" where
  "rp_enc_int i = be32 (ucast i)"

definition rp_PackBytes :: "bytes \<Rightarrow> rpacker \<Rightarrow> rpacker" where
  "rp_PackBytes b = rp_write (rp_enc_bytes b)"

definition rp_require :: "bool \<Rightarrow> 'v \<times> rpacker \<Rightarrow> 'v \<times> rpacker" where
  "rp_require ok r = (if rp_err (snd r) = None \<and> \<not> ok then (fst r, rp_fail (snd r)) else r)"

definition rp_UnpackUint64 :: "bool \<Rightarrow> rpacker \<Rightarrow> u64 \<times> rpacker" where
  "rp_UnpackUint64 req p = (let (b, p') = rp_read 8 p; v = be_decode b in
     rp_require (req \<longrightarrow> v \<noteq> 0) (v, p'))"

definition rp_UnpackInt :: "bool \<Rightarrow> rpacker \<Rightarrow> i64 \<times> rpacker" where
  "rp_UnpackInt req p = (let (b, p') = rp_read 4 p; v = ucast (be_decode b :: u32) in
     rp_require (req \<longrightarrow> v \<noteq> 0) (v, p'))"

definition rp_UnpackBytes :: "int \<Rightarrow> bool \<Rightarrow> rpacker \<Rightarrow> bytes \<times> rpacker" where
  "rp_UnpackBytes lim req p = (let (h, p1) = rp_read 4 p; n = unat (be_decode h :: u32) in
     if 0 \<le> lim \<and> lim < int n then ([], if rp_err p1 = None then rp_fail p1 else p1)
     else let (b, p2) = rp_read n p1 in rp_require (req \<longrightarrow> b \<noteq> []) (b, p2))"

definition rp_UnpackAddress :: "rpacker \<Rightarrow> Address \<times> rpacker" where
  "rp_UnpackAddress p = (let (b, p') = rp_read 33 p in rp_require (b \<noteq> make_bytes 33) (b, p'))"

lemma be_decode_be32 [simp]: "be_decode (be32 x) = x"
  by (simp add: be32_def be_decode_encode)

lemma length_be32 [simp]: "length (be32 x) = 4"
  by (simp add: be32_def)

lemma rp_read_append: "rp_err p = None \<Longrightarrow> rp_in p = b @ r \<Longrightarrow> rp_read (length b) p = (b, p\<lparr>rp_in := r\<rparr>)"
  by (simp add: rp_read_def)

lemma rp_read_4: "rp_err p = None \<Longrightarrow> rp_in p = be32 x @ r \<Longrightarrow> rp_read 4 p = (be32 x, p\<lparr>rp_in := r\<rparr>)"
  using rp_read_append [of p "be32 x" r] by simp

lemma rp_read_8: "rp_err p = None \<Longrightarrow> rp_in p = be64 x @ r \<Longrightarrow> rp_read 8 p = (be64 x, p\<lparr>rp_in := r\<rparr>)"
  using rp_read_append [of p "be64 x" r] by simp

lemma rp_UnpackBytes_eq:
  assumes "rp_err p = None" "rp_in p = rp_enc_bytes b @ r" "length b < 2 ^ 31"
  shows "rp_UnpackBytes lim req p = (if 0 \<le> lim \<and> lim < int (length b) then ([], rp_fail (p\<lparr>rp_in := b @ r\<rparr>))
     else rp_require (req \<longrightarrow> b \<noteq> []) (b, p\<lparr>rp_in := r\<rparr>))"
proof -
  have n: "unat (of_nat (length b) :: u32) = length b"
    using assms(3) by (simp add: unat_of_nat take_bit_eq_mod)
  then have n': "uint (of_nat (length b) :: u32) = int (length b)"
    by (metis uint_nat)
  have h: "rp_read 4 p = (be32 (of_nat (length b)), p\<lparr>rp_in := b @ r\<rparr>)"
    using assms by (intro rp_read_4) (simp_all add: rp_enc_bytes_def)
  have "rp_read (length b) (p\<lparr>rp_in := b @ r\<rparr>) = (b, p\<lparr>rp_in := r\<rparr>)"
    using rp_read_append [of "p\<lparr>rp_in := b @ r\<rparr>" b r] assms(1) by simp
  then show ?thesis
    using assms(1) by (simp add: rp_UnpackBytes_def h n n')
qed

section \<open>The rollup data\<close>

definition r_enc_info :: "RollupInfo \<Rightarrow> bytes" where
  "r_enc_info i = rp_enc_bytes (ri_FeeRecipient i) @ rp_enc_bytes (ri_Namespace i)
     @ rp_enc_bytes (ri_AuthoritySEQAddress i) @ rp_enc_bytes (ri_SequencerPublicKey i)
     @ be64 (ri_StartEpoch i) @ be64 (ri_ExitEpoch i)"

definition r_result :: "'v \<Rightarrow> rpacker \<Rightarrow> (err + 'v) \<times> rpacker" where
  "r_result v p = (case rp_err p of None \<Rightarrow> (Inr v, p) | Some e \<Rightarrow> (Inl e, p))"

definition r_UnmarshalRollupInfo :: "rpacker \<Rightarrow> (err + RollupInfo) \<times> rpacker" where
  "r_UnmarshalRollupInfo p =
     (let (f, p) = rp_UnpackBytes (-1) False p; (ns, p) = rp_UnpackBytes (-1) False p;
          (a, p) = rp_UnpackBytes (-1) False p; (sp, p) = rp_UnpackBytes (-1) False p;
          (st, p) = rp_UnpackUint64 False p; (ex, p) = rp_UnpackUint64 False p in
      r_result \<lparr>ri_FeeRecipient = f, ri_Namespace = ns, ri_AuthoritySEQAddress = a,
        ri_SequencerPublicKey = sp, ri_StartEpoch = st, ri_ExitEpoch = ex\<rparr> p)"

definition r_enc_epoch :: "EpochInfo \<Rightarrow> bytes" where
  "r_enc_epoch i = be64 (ei_Epoch i) @ rp_enc_bytes (ei_Namespace i)"

definition r_UnpackEpoch :: "rpacker \<Rightarrow> EpochInfo \<times> rpacker" where
  "r_UnpackEpoch p =
     (let (e, p) = rp_UnpackUint64 False p; (ns, p) = rp_UnpackBytes (-1) False p in
      (\<lparr>ei_Epoch = e, ei_Namespace = ns\<rparr>, p))"

text \<open>A list as its length and its elements.\<close>

definition r_enc_list :: "('v \<Rightarrow> bytes) \<Rightarrow> 'v list \<Rightarrow> bytes" where
  "r_enc_list enc xs = be32 (of_nat (length xs)) @ concat (map enc xs)"

fun r_unpack_n :: "(rpacker \<Rightarrow> 'v \<times> rpacker) \<Rightarrow> nat \<Rightarrow> rpacker \<Rightarrow> 'v list \<times> rpacker" where
  "r_unpack_n f 0 p = ([], p)"
| "r_unpack_n f (Suc n) p = (let (x, p) = f p; (xs, p) = r_unpack_n f n p in (x # xs, p))"

definition r_unpack_list :: "(rpacker \<Rightarrow> 'v \<times> rpacker) \<Rightarrow> rpacker \<Rightarrow> (err + 'v list) \<times> rpacker" where
  "r_unpack_list f p = (let (h, p) = rp_read 4 p; (xs, p) = r_unpack_n f (unat (be_decode h :: u32)) p in
     r_result xs p)"

definition r_reader :: "bytes \<Rightarrow> int \<Rightarrow> rpacker" where
  "r_reader b lim = \<lparr>rp_out = [], rp_in = b, rp_max = lim,
     rp_err = (if int (length b) \<le> lim then None else Some (ErrExternal 3))\<rparr>"

definition r_writer :: "int \<Rightarrow> int \<Rightarrow> rpacker" where
  "r_writer n lim = \<lparr>rp_out = [], rp_in = [], rp_max = lim, rp_err = None\<rparr>"

abbreviation r_limit :: int where "r_limit \<equiv> 2097152"

definition r_PackNamespaces :: "bytes list \<Rightarrow> err + bytes" where
  "r_PackNamespaces nss = (let b = r_enc_list rp_enc_bytes nss in
     if int (length b) \<le> r_limit then Inr b else Inl (ErrExternal 4))"

definition r_UnpackNamespaces :: "bytes \<Rightarrow> err + bytes list" where
  "r_UnpackNamespaces b = fst (r_unpack_list (rp_UnpackBytes (-1) False) (r_reader b r_limit))"

section \<open>The parameters, instantiated\<close>

definition pad :: "nat \<Rightarrow> bytes \<Rightarrow> bytes" where
  "pad n b = take n (b @ replicate n 0)"

definition ref :: "(rpacker, bytes, bytes, bytes) crypto" where
  "ref = \<lparr>
     AddressLen = 33, Uint16Len = 2, Uint64Len = 8, IntLen = 4, IDLen = 32, DimensionsLen = 40,
     MaxNamespaceLen = 8, MillisecondsPerSecond = 1000, BranchFactor16 = 16,
     BranchFactor_Valid = (\<lambda>n. if n = 2 \<or> n = 4 \<or> n = 16 \<or> n = 256 then None else Some (ErrExternal 10)),
     NetworkSizeLimit = r_limit,
     bls_PublicKeyLen = 48, bls_SignatureLen = 96, ed25519_PublicKeyLen = 32, ed25519_SignatureLen = 64,
     Add64 = (\<lambda>a b. if unat a + unat b < 2 ^ 64 then Inr (a + b) else Inl ErrOverflow),
     Sub64 = (\<lambda>a b. if unat b \<le> unat a then Inr (a - b) else Inl ErrUnderflow),
     CreateAddress = (\<lambda>t i. t # i),
     ToID = pad 32,
     ToAddress = (\<lambda>b. if length b = 33 then (b, None) else (make_bytes 33, Some (ErrExternal 5))),
     ParseAddressBech32 = (\<lambda>h s. let b = map (\<lambda>c. of_char c) s in
       if length b \<le> 33 then Inr (pad 33 b) else Inl (ErrExternal 6)),
     MustAddressBech32 = (\<lambda>h a. Ok h),
     BytesLen = (\<lambda>b. 4 + int (length b)),
     Dimensions_Bytes = (\<lambda>d. concat (map be64 (take 5 (d @ replicate 5 0)))),
     UnpackDimensions = (\<lambda>b. if length b = 40
       then Inr (map (\<lambda>i. be_decode (take 8 (drop (8 * i) b))) [0, 1, 2, 3, 4]) else Inl (ErrExternal 7)),
     NewReader = r_reader, NewWriter = r_writer,
     PackUint64 = (\<lambda>v. rp_write (be64 v)), PackInt = (\<lambda>i. rp_write (rp_enc_int i)),
     PackBytes = rp_PackBytes, PackFixedBytes = rp_write, PackAddress = rp_write,
     UnpackUint64 = rp_UnpackUint64, UnpackInt = rp_UnpackInt, UnpackBytes = rp_UnpackBytes,
     UnpackFixedBytes = rp_read, UnpackAddress = rp_UnpackAddress,
     packer_Err = rp_err, packer_Bytes = rp_out,
     RollupInfoKey = (\<lambda>ns. 0xf0 # ns), RollupRegistryKey = [0xf1],
     EpochExitsKey = (\<lambda>e. 0xf2 # be64 e), ArcadiaBidKey = (\<lambda>e. 0xf3 # be64 e),
     RollupInfoChunks = 2, RollupRegistryChunks = 3, EpochExitsChunks = 4,
     EpochExitID = 4, RollupRegisterID = 3, RollupRegisterComputeUnits = 15,
     RollupInfo_Size = (\<lambda>i. int (length (r_enc_info i))),
     RollupInfo_Marshal = (\<lambda>i. rp_write (r_enc_info i)),
     UnmarshalRollupInfo = r_UnmarshalRollupInfo,
     EpochInfo_Size = (\<lambda>i. int (length (r_enc_epoch i))),
     EpochInfo_Marshal = (\<lambda>i. rp_write (r_enc_epoch i)),
     UnmarshalEpochInfo = (\<lambda>p. case r_UnpackEpoch p of (v, p) \<Rightarrow> r_result v p),
     EpochExitInfo_Marshal = (\<lambda>x. rp_write (r_enc_list r_enc_epoch (Exits x))),
     UnmarshalEpochExitsInfo = (\<lambda>p. case r_unpack_list r_UnpackEpoch p of
       (Inr xs, p) \<Rightarrow> (Inr \<lparr>Exits = xs\<rparr>, p) | (Inl e, p) \<Rightarrow> (Inl e, p)),
     hPackNamespaces = r_PackNamespaces, hUnpackNamespaces = r_UnpackNamespaces,
     RollupInfo_ID = (\<lambda>i. pad 32 (of_nat (length (ri_Namespace i)) # ri_Namespace i)),
     ValidAtEpoch = (\<lambda>i e. ri_StartEpoch i \<le> e \<and> (ri_ExitEpoch i = 0 \<or> e < ri_ExitEpoch i)),
     Exited = (\<lambda>i e. ri_ExitEpoch i \<noteq> 0 \<and> ri_ExitEpoch i \<le> e),
     bls_PublicKeyFromBytes = (\<lambda>b. if length b = 48 then Inr b else Inl (ErrExternal 8)),
     bls_SignatureFromBytes = (\<lambda>b. if length b = 96 then Inr b else Inl (ErrExternal 9)),
     bls_PublicKeyToBytes = (\<lambda>b. b), bls_SignatureToBytes = (\<lambda>b. b),
     bls_Verify = (\<lambda>msg pk sg. sg = pad 96 (pk @ msg)),
     bls_Sign = (\<lambda>msg sk. pad 96 (pad 48 sk @ msg)),
     bls_PublicFromPrivateKey = pad 48,
     ed25519_Verify = (\<lambda>msg pk sg. sg = pad 64 (pk @ msg)),
     ed25519_Sign = (\<lambda>msg sk. pad 64 (pad 32 sk @ msg)),
     ed25519_PublicKey = pad 32,
     ed25519_MinBatchSize = 16 \<rparr>"

lemma ref_simps [simp]:
  "AddressLen ref = 33"
  "Uint16Len ref = 2"
  "Uint64Len ref = 8"
  "IntLen ref = 4"
  "IDLen ref = 32"
  "DimensionsLen ref = 40"
  "MaxNamespaceLen ref = 8"
  "MillisecondsPerSecond ref = 1000"
  "BranchFactor16 ref = 16"
  "BranchFactor_Valid ref = (\<lambda>n. if n = 2 \<or> n = 4 \<or> n = 16 \<or> n = 256 then None else Some (ErrExternal 10))"
  "NetworkSizeLimit ref = r_limit"
  "bls_PublicKeyLen ref = 48"
  "bls_SignatureLen ref = 96"
  "ed25519_PublicKeyLen ref = 32"
  "ed25519_SignatureLen ref = 64"
  "Add64 ref = (\<lambda>a b. if unat a + unat b < 2 ^ 64 then Inr (a + b) else Inl ErrOverflow)"
  "Sub64 ref = (\<lambda>a b. if unat b \<le> unat a then Inr (a - b) else Inl ErrUnderflow)"
  "CreateAddress ref = (\<lambda>t i. t # i)"
  "ToID ref = pad 32"
  "ToAddress ref = (\<lambda>b. if length b = 33 then (b, None) else (make_bytes 33, Some (ErrExternal 5)))"
  "ParseAddressBech32 ref = (\<lambda>h s. let b = map (\<lambda>c. of_char c) s in if length b \<le> 33 then Inr (pad 33 b) else Inl (ErrExternal 6))"
  "MustAddressBech32 ref = (\<lambda>h a. Ok h)"
  "BytesLen ref = (\<lambda>b. 4 + int (length b))"
  "Dimensions_Bytes ref = (\<lambda>d. concat (map be64 (take 5 (d @ replicate 5 0))))"
  "UnpackDimensions ref = (\<lambda>b. if length b = 40 then Inr (map (\<lambda>i. be_decode (take 8 (drop (8 * i) b))) [0, 1, 2, 3, 4]) else Inl (ErrExternal 7))"
  "NewReader ref = r_reader"
  "NewWriter ref = r_writer"
  "PackUint64 ref = (\<lambda>v. rp_write (be64 v))"
  "PackInt ref = (\<lambda>i. rp_write (rp_enc_int i))"
  "PackBytes ref = rp_PackBytes"
  "PackFixedBytes ref = rp_write"
  "PackAddress ref = rp_write"
  "UnpackUint64 ref = rp_UnpackUint64"
  "UnpackInt ref = rp_UnpackInt"
  "UnpackBytes ref = rp_UnpackBytes"
  "UnpackFixedBytes ref = rp_read"
  "UnpackAddress ref = rp_UnpackAddress"
  "packer_Err ref = rp_err"
  "packer_Bytes ref = rp_out"
  "RollupInfoKey ref = (\<lambda>ns. 0xf0 # ns)"
  "RollupRegistryKey ref = [0xf1]"
  "EpochExitsKey ref = (\<lambda>e. 0xf2 # be64 e)"
  "ArcadiaBidKey ref = (\<lambda>e. 0xf3 # be64 e)"
  "RollupInfoChunks ref = 2"
  "RollupRegistryChunks ref = 3"
  "EpochExitsChunks ref = 4"
  "EpochExitID ref = 4"
  "RollupRegisterID ref = 3"
  "RollupRegisterComputeUnits ref = 15"
  "RollupInfo_Size ref = (\<lambda>i. int (length (r_enc_info i)))"
  "RollupInfo_Marshal ref = (\<lambda>i. rp_write (r_enc_info i))"
  "UnmarshalRollupInfo ref = r_UnmarshalRollupInfo"
  "EpochInfo_Size ref = (\<lambda>i. int (length (r_enc_epoch i)))"
  "EpochInfo_Marshal ref = (\<lambda>i. rp_write (r_enc_epoch i))"
  "UnmarshalEpochInfo ref = (\<lambda>p. case r_UnpackEpoch p of (v, p) \<Rightarrow> r_result v p)"
  "EpochExitInfo_Marshal ref = (\<lambda>x. rp_write (r_enc_list r_enc_epoch (Exits x)))"
  "UnmarshalEpochExitsInfo ref = (\<lambda>p. case r_unpack_list r_UnpackEpoch p of (Inr xs, p) \<Rightarrow> (Inr \<lparr>Exits = xs\<rparr>, p) | (Inl e, p) \<Rightarrow> (Inl e, p))"
  "hPackNamespaces ref = r_PackNamespaces"
  "hUnpackNamespaces ref = r_UnpackNamespaces"
  "RollupInfo_ID ref = (\<lambda>i. pad 32 (of_nat (length (ri_Namespace i)) # ri_Namespace i))"
  "ValidAtEpoch ref = (\<lambda>i e. ri_StartEpoch i \<le> e \<and> (ri_ExitEpoch i = 0 \<or> e < ri_ExitEpoch i))"
  "Exited ref = (\<lambda>i e. ri_ExitEpoch i \<noteq> 0 \<and> ri_ExitEpoch i \<le> e)"
  "bls_PublicKeyFromBytes ref = (\<lambda>b. if length b = 48 then Inr b else Inl (ErrExternal 8))"
  "bls_SignatureFromBytes ref = (\<lambda>b. if length b = 96 then Inr b else Inl (ErrExternal 9))"
  "bls_PublicKeyToBytes ref = (\<lambda>b. b)"
  "bls_SignatureToBytes ref = (\<lambda>b. b)"
  "bls_Verify ref = (\<lambda>msg pk sg. sg = pad 96 (pk @ msg))"
  "bls_Sign ref = (\<lambda>msg sk. pad 96 (pad 48 sk @ msg))"
  "bls_PublicFromPrivateKey ref = pad 48"
  "ed25519_Verify ref = (\<lambda>msg pk sg. sg = pad 64 (pk @ msg))"
  "ed25519_Sign ref = (\<lambda>msg sk. pad 64 (pad 32 sk @ msg))"
  "ed25519_PublicKey ref = pad 32"
  "ed25519_MinBatchSize ref = 16"
  by (simp_all add: ref_def)

section \<open>The laws hold of the instance\<close>

interpretation ref_math: checked_math ref
  by unfold_locales auto

lemma rp_write_ok:
  "rp_err (rp_write b p) = None \<Longrightarrow> rp_err p = None \<and> rp_out (rp_write b p) = rp_out p @ b
     \<and> int (length (rp_out p @ b)) \<le> rp_max p"
  by (auto simp: rp_write_def rp_fail_def split: if_splits)

lemma rp_error_stays:
  assumes "rp_err p = Some e"
  shows "rp_err (snd (rp_UnpackUint64 req p)) \<noteq> None" "rp_err (snd (rp_UnpackInt req p)) \<noteq> None"
    "rp_err (snd (rp_UnpackBytes lim req p)) \<noteq> None"
  using assms by (auto simp: rp_UnpackUint64_def rp_UnpackInt_def rp_UnpackBytes_def rp_read_def
      rp_require_def Let_def)

lemma rp_UnpackUint64_eq:
  "rp_err p = None \<Longrightarrow> rp_in p = be64 v @ r \<Longrightarrow>
     rp_UnpackUint64 req p = rp_require (req \<longrightarrow> v \<noteq> 0) (v, p\<lparr>rp_in := r\<rparr>)"
  by (simp add: rp_UnpackUint64_def rp_read_8)

lemma rp_UnpackInt_eq:
  assumes "rp_err p = None" "rp_in p = rp_enc_int i @ r" "unat i < 2 ^ 31"
  shows "rp_UnpackInt req p = rp_require (req \<longrightarrow> i \<noteq> 0) (i, p\<lparr>rp_in := r\<rparr>)"
proof -
  have "(ucast (ucast i :: u32) :: i64) = i"
    using assms(3) by (simp add: word_unat_eq_iff unsigned_ucast_eq unsigned_take_bit_eq take_bit_nat_eq_self)
  then show ?thesis
    using assms by (simp add: rp_UnpackInt_def rp_enc_int_def rp_read_4 [where x = "ucast i" and r = r])
qed

lemma rp_UnpackAddress_eq:
  "rp_err p = None \<Longrightarrow> rp_in p = a @ r \<Longrightarrow> length a = 33 \<Longrightarrow>
     rp_UnpackAddress p = rp_require (a \<noteq> make_bytes 33) (a, p\<lparr>rp_in := r\<rparr>)"
  using rp_read_append [of p a r] by (simp add: rp_UnpackAddress_def)

interpretation ref_packer: packer ref rp_in be64 rp_enc_int rp_enc_bytes
proof (unfold_locales, goal_cases)
  case (4 v p) then show ?case using rp_write_ok by simp
next
  case (5 i p) then show ?case using rp_write_ok by simp
next
  case (6 b p) then show ?case using rp_write_ok by (simp add: rp_PackBytes_def)
next
  case (7 b p) then show ?case using rp_write_ok by simp
next
  case (8 b p) then show ?case using rp_write_ok by simp
next
  case (9 p v r req) then show ?case by (simp add: rp_UnpackUint64_eq rp_require_def)
next
  case (10 p r) then show ?case by (simp add: rp_UnpackUint64_eq rp_require_def rp_fail_def)
next
  case (11 p i r req) then show ?case by (simp add: rp_UnpackInt_eq rp_require_def)
next
  case (12 p b r req lim) then show ?case by (auto simp: rp_UnpackBytes_eq rp_require_def)
next
  case (13 p b r lim req) then show ?case by (simp add: rp_UnpackBytes_eq rp_fail_def)
next
  case (14 p r lim) then show ?case by (simp add: rp_UnpackBytes_eq rp_require_def rp_fail_def)
next
  case (15 p b r) then show ?case by (simp add: rp_read_append)
next
  case (16 p a r) then show ?case by (simp add: rp_UnpackAddress_eq rp_require_def)
next
  case (17 p e req lim) then show ?case by (simp add: rp_error_stays)
qed (simp_all add: r_reader_def r_writer_def)

interpretation ref_keys: hactions_keys ref
  by unfold_locales auto

lemma r_unpack_n_concat:
  assumes step: "\<And>x p r. x \<in> set xs \<Longrightarrow> rp_err p = None \<Longrightarrow> rp_in p = enc x @ r \<Longrightarrow> f p = (x, p\<lparr>rp_in := r\<rparr>)"
    and "rp_err p = None" "rp_in p = concat (map enc xs) @ r"
  shows "r_unpack_n f (length xs) p = (xs, p\<lparr>rp_in := r\<rparr>)"
  using assms
proof (induction xs arbitrary: p)
  case (Cons x xs)
  have "f p = (x, p\<lparr>rp_in := concat (map enc xs) @ r\<rparr>)"
    using Cons.prems by simp
  moreover have "r_unpack_n f (length xs) (p\<lparr>rp_in := concat (map enc xs) @ r\<rparr>)
      = (xs, (p\<lparr>rp_in := concat (map enc xs) @ r\<rparr>)\<lparr>rp_in := r\<rparr>)"
    using Cons.prems by (intro Cons.IH) simp_all
  ultimately show ?case by simp
qed simp

lemma length_le_concat: "(\<And>x. x \<in> set xs \<Longrightarrow> enc x \<noteq> []) \<Longrightarrow> length xs \<le> length (concat (map enc xs))"
proof (induction xs)
  case (Cons x xs)
  then have "length (enc x) \<ge> 1" "length xs \<le> length (concat (map enc xs))"
    by (simp_all add: Suc_leI)
  then show ?case by simp
qed simp

lemma r_enc_list_elem: "x \<in> set xs \<Longrightarrow> length (enc x) \<le> length (r_enc_list enc xs)"
  by (induction xs) (auto simp: r_enc_list_def)

lemma r_unpack_list_limit:
  assumes step: "\<And>x p r. x \<in> set xs \<Longrightarrow> rp_err p = None \<Longrightarrow> rp_in p = enc x @ r \<Longrightarrow>
        length (enc x) < 2 ^ 31 \<Longrightarrow> f p = (x, p\<lparr>rp_in := r\<rparr>)"
    and ne: "\<And>x. x \<in> set xs \<Longrightarrow> enc x \<noteq> []"
    and lim: "int (length (r_enc_list enc xs)) \<le> r_limit"
  shows "fst (r_unpack_list f (r_reader (r_enc_list enc xs) r_limit)) = Inr xs"
proof -
  have short: "length (r_enc_list enc xs) < 2 ^ 31" using lim by simp
  have "length xs \<le> length (concat (map enc xs))"
    using ne by (rule length_le_concat)
  then have "length xs \<le> length (r_enc_list enc xs)"
    by (simp add: r_enc_list_def)
  then have n: "unat (of_nat (length xs) :: u32) = length xs"
    using short by (simp add: unat_of_nat take_bit_eq_mod)
  let ?p = "r_reader (r_enc_list enc xs) r_limit"
  have err: "rp_err ?p = None" using lim by (simp add: r_reader_def)
  have hd: "rp_read 4 ?p = (be32 (of_nat (length xs)), ?p\<lparr>rp_in := concat (map enc xs)\<rparr>)"
    using err by (intro rp_read_4) (simp_all add: r_reader_def r_enc_list_def)
  have "r_unpack_n f (length xs) (?p\<lparr>rp_in := concat (map enc xs)\<rparr>)
      = (xs, (?p\<lparr>rp_in := concat (map enc xs)\<rparr>)\<lparr>rp_in := []\<rparr>)"
  proof (rule r_unpack_n_concat [where enc = enc])
    fix x r and p :: rpacker assume x: "x \<in> set xs" "rp_err p = None" "rp_in p = enc x @ r"
    show "f p = (x, p\<lparr>rp_in := r\<rparr>)"
      using r_enc_list_elem [OF x(1), of enc] short by (intro step [OF x]) simp
  qed (simp_all add: err)
  then show ?thesis
    by (simp add: r_unpack_list_def hd n r_result_def err)
qed

lemma r_UnpackBytes_any:
  "rp_err p = None \<Longrightarrow> rp_in p = rp_enc_bytes b @ r \<Longrightarrow> length b < 2 ^ 31 \<Longrightarrow>
     rp_UnpackBytes (-1) False p = (b, p\<lparr>rp_in := r\<rparr>)"
  by (simp add: rp_UnpackBytes_eq rp_require_def)

lemma r_UnpackEpoch_eq:
  "rp_err p = None \<Longrightarrow> rp_in p = r_enc_epoch x @ r \<Longrightarrow> length (r_enc_epoch x) < 2 ^ 31 \<Longrightarrow>
     r_UnpackEpoch p = (x, p\<lparr>rp_in := r\<rparr>)"
  by (simp add: r_UnpackEpoch_def rp_UnpackUint64_eq [where v = "ei_Epoch x" and r = "rp_enc_bytes (ei_Namespace x) @ r"]
      r_enc_epoch_def rp_require_def r_UnpackBytes_any [where b = "ei_Namespace x" and r = r] rp_enc_bytes_def)

lemma r_UnmarshalRollupInfo_eq:
  assumes "length (r_enc_info i) < 2 ^ 31" "rp_err p = None" "rp_in p = r_enc_info i @ r"
  shows "r_UnmarshalRollupInfo p = (Inr i, p\<lparr>rp_in := r\<rparr>)"
proof -
  have len: "length (ri_FeeRecipient i) < 2 ^ 31" "length (ri_Namespace i) < 2 ^ 31"
    "length (ri_AuthoritySEQAddress i) < 2 ^ 31" "length (ri_SequencerPublicKey i) < 2 ^ 31"
    using assms(1) by (simp_all add: r_enc_info_def rp_enc_bytes_def)
  have step: "rp_UnpackBytes (-1) False (p\<lparr>rp_in := rp_enc_bytes b @ t\<rparr>) = (b, p\<lparr>rp_in := t\<rparr>)"
    if "length b < 2 ^ 31" for b t
    using r_UnpackBytes_any [of "p\<lparr>rp_in := rp_enc_bytes b @ t\<rparr>" b t] assms(2) that by simp
  have step64: "rp_UnpackUint64 False (p\<lparr>rp_in := be64 v @ t\<rparr>) = (v, p\<lparr>rp_in := t\<rparr>)" for v t
    using rp_UnpackUint64_eq [of "p\<lparr>rp_in := be64 v @ t\<rparr>" v t] assms(2) by (simp add: rp_require_def)
  have "p = p\<lparr>rp_in := r_enc_info i @ r\<rparr>" using assms(3) by (cases p) simp
  then have "r_UnmarshalRollupInfo p = r_UnmarshalRollupInfo (p\<lparr>rp_in := r_enc_info i @ r\<rparr>)" by simp
  also have "\<dots> = (Inr i, p\<lparr>rp_in := r\<rparr>)"
    using len assms(2) by (simp add: r_UnmarshalRollupInfo_def r_enc_info_def step step64 r_result_def)
  finally show ?thesis .
qed

interpretation ref_codec: hactions_codec ref
proof (unfold_locales, goal_cases)
  case (1 p i n)
  then have w: "rp_err (rp_write (r_enc_info i) (r_writer n r_limit)) = None"
    and p: "p = rp_write (r_enc_info i) (r_writer n r_limit)" by simp_all
  from rp_write_ok [OF w] have out: "rp_out p = r_enc_info i" "int (length (r_enc_info i)) \<le> r_limit"
    by (simp_all add: p r_writer_def)
  then show ?case
    using r_UnmarshalRollupInfo_eq [of i "r_reader (r_enc_info i) r_limit" "[]"]
    by (simp add: r_reader_def)
next
  case (2 p x n)
  then have w: "rp_err (rp_write (r_enc_list r_enc_epoch (Exits x)) (r_writer n r_limit)) = None"
    and p: "p = rp_write (r_enc_list r_enc_epoch (Exits x)) (r_writer n r_limit)" by simp_all
  from rp_write_ok [OF w] have out: "rp_out p = r_enc_list r_enc_epoch (Exits x)"
    "int (length (r_enc_list r_enc_epoch (Exits x))) \<le> r_limit"
    by (simp_all add: p r_writer_def)
  have "r_enc_epoch y \<noteq> []" for y
    by (metis append_is_Nil_conv length_be64 list.size(3) r_enc_epoch_def zero_neq_numeral)
  with out have "fst (r_unpack_list r_UnpackEpoch (r_reader (r_enc_list r_enc_epoch (Exits x)) r_limit)) = Inr (Exits x)"
    by (intro r_unpack_list_limit) (simp_all add: r_UnpackEpoch_eq)
  then show ?case
    using out by (auto split: prod.splits sum.splits)
next
  case (3 nss b)
  then have b: "b = r_enc_list rp_enc_bytes nss" "int (length (r_enc_list rp_enc_bytes nss)) \<le> r_limit"
    by (simp_all add: r_PackNamespaces_def Let_def split: if_splits)
  have "rp_enc_bytes y \<noteq> []" for y
    by (metis append_is_Nil_conv length_be32 list.size(3) rp_enc_bytes_def zero_neq_numeral)
  with b have "fst (r_unpack_list (rp_UnpackBytes (- 1) False) (r_reader (r_enc_list rp_enc_bytes nss) r_limit)) = Inr nss"
    by (intro r_unpack_list_limit r_UnpackBytes_any) (simp_all add: rp_enc_bytes_def)
  then show ?case by (simp add: b r_UnpackNamespaces_def)
qed

interpretation ref_rollup_packer: rollup_packer ref rp_in be64 rp_enc_int rp_enc_bytes r_enc_info r_enc_epoch
proof (unfold_locales, goal_cases)
  case (1 i) show ?case unfolding packs_def using rp_write_ok by simp
next
  case (2 x) show ?case unfolding packs_def using rp_write_ok by simp
next
  case (3 i) then show ?case by (simp add: unpacks_def r_UnmarshalRollupInfo_eq)
next
  case (4 x) then show ?case by (simp add: unpacks_def r_UnpackEpoch_eq r_result_def)
qed

end
