(* ===== verification/Seq_Balance.thy ===== *)
theory Seq_Balance
  imports Seq_Instance
begin

text \<open>
  \<open>src/storage/storage.go\<close> and \<open>src/storage/balance.go\<close>: the keys of the state, the pool
  of key buffers, and the balance records (read, set, delete, add, subtract). The abstract view
  is a ledger, a function from addresses to amounts; the locale \<open>ledger\<close> states what clients
  of the balance functions rely on, and the model of \<open>balance.go\<close> is shown to provide it.
\<close>

section \<open>Definitions\<close>

definition HRP :: string where "HRP = ''seq''"

definition txPrefix :: u8 where "txPrefix = 0x0"
definition balancePrefix :: u8 where "balancePrefix = 0x0"
definition heightPrefix :: u8 where "heightPrefix = 0x4"
definition timestampPrefix :: u8 where "timestampPrefix = 0x5"
definition feePrefix :: u8 where "feePrefix = 0x6"
definition blockPrefix :: u8 where "blockPrefix = 0x9"
definition feeMarketPrefix :: u8 where "feeMarketPrefix = 0xa"

definition BalanceChunks :: u16 where "BalanceChunks = 1"

definition HeightKey :: bytes where "HeightKey = [heightPrefix]"
definition TimestampKey :: bytes where "TimestampKey = [timestampPrefix]"
definition FeeKey :: bytes where "FeeKey = [feePrefix]"
definition FeeMarketKey :: bytes where "FeeMarketKey = [feeMarketPrefix]"

definition PrefixBlockKey :: "'x sdk_scheme \<Rightarrow> ID \<Rightarrow> ID \<Rightarrow> bytes res" where
  "PrefixBlockKey E block parent =
     (let k = make_bytes (1 + IDLen E * 2) in
      res_bind (set_at 0 blockPrefix k) (\<lambda>k.
      res_bind (copy_at 1 block k) (\<lambda>k.
      res_bind (put_Uint16_at (1 + IDLen E * 2) BalanceChunks k) (\<lambda>k.
      copy_at (1 + IDLen E) parent k))))"

text \<open>A new buffer of \<open>balanceKeyPool\<close>.\<close>

definition balanceKeyPool_New :: "'x sdk_scheme \<Rightarrow> bytes" where
  "balanceKeyPool_New E = make_bytes (1 + AddressLen E + Uint16Len E)"

text \<open>The key written into a buffer taken from the pool, which may hold an earlier key.\<close>

definition BalanceKey_in :: "'x sdk_scheme \<Rightarrow> bytes \<Rightarrow> Address \<Rightarrow> bytes res" where
  "BalanceKey_in E k pk =
     res_bind (set_at 0 balancePrefix k) (\<lambda>k.
     res_bind (copy_at 1 pk k) (\<lambda>k.
     put_Uint16_at (1 + AddressLen E) BalanceChunks k))"

definition BalanceKey :: "'x sdk_scheme \<Rightarrow> Address \<Rightarrow> bytes res" where
  "BalanceKey E pk = BalanceKey_in E (balanceKeyPool_New E) pk"

definition innerGetBalance :: "err + bytes \<Rightarrow> (u64 \<times> bool) res" where
  "innerGetBalance r = (case r of
       Inl e \<Rightarrow> if errors_Is e ErrNotFound then Ok (0, False) else Error e
     | Inr v \<Rightarrow> res_bind (be_Uint64 v) (\<lambda>b. Ok (b, True)))"

definition getBalance :: "'x sdk_scheme \<Rightarrow> 'm Mutable \<Rightarrow> Address \<Rightarrow> ('m, bytes \<times> u64 \<times> bool) go" where
  "getBalance E S addr =
     go_bind (go_lift (BalanceKey E addr)) (\<lambda>k.
     go_bind (go_get S k) (\<lambda>r.
     go_bind (go_lift (innerGetBalance r)) (\<lambda>(bal, exists).
     go_return (k, bal, exists))))"

definition GetBalance :: "'x sdk_scheme \<Rightarrow> 'm Mutable \<Rightarrow> Address \<Rightarrow> ('m, u64) go" where
  "GetBalance E S addr = go_bind (getBalance E S addr) (\<lambda>(key, bal, _). go_return bal)"

text \<open>\<open>ReadState\<close>: the values and the errors of a batch of keys.\<close>

type_synonym ReadState = "bytes list \<Rightarrow> bytes list \<times> err option list"

text \<open>\<open>values[0]\<close> and \<open>errs[0]\<close> of the answer to a one-key batch.\<close>

definition read_first :: "bytes list \<times> err option list \<Rightarrow> (err + bytes) res" where
  "read_first a = (case a of
       (v # _, None # _) \<Rightarrow> Ok (Inr v)
     | (v # _, Some e # _) \<Rightarrow> Ok (Inl e)
     | _ \<Rightarrow> Panic IndexOutOfRange)"

definition GetBalanceFromState :: "'x sdk_scheme \<Rightarrow> ReadState \<Rightarrow> Address \<Rightarrow> u64 res" where
  "GetBalanceFromState E f addr =
     res_bind (BalanceKey E addr) (\<lambda>k.
     res_bind (read_first (f [k])) (\<lambda>r.
     res_bind (innerGetBalance r) (\<lambda>(bal, _). Ok bal)))"

definition setBalance :: "'m Mutable \<Rightarrow> bytes \<Rightarrow> u64 \<Rightarrow> ('m, unit) go" where
  "setBalance S key balance = go_insert S key (be64 balance)"

definition SetBalance :: "'x sdk_scheme \<Rightarrow> 'm Mutable \<Rightarrow> Address \<Rightarrow> u64 \<Rightarrow> ('m, unit) go" where
  "SetBalance E S addr balance =
     go_bind (go_lift (BalanceKey E addr)) (\<lambda>k. setBalance S k balance)"

definition DeleteBalance :: "'x sdk_scheme \<Rightarrow> 'm Mutable \<Rightarrow> Address \<Rightarrow> ('m, unit) go" where
  "DeleteBalance E S addr = go_bind (go_lift (BalanceKey E addr)) (\<lambda>k. go_remove S k)"

text \<open>The error of a balance update that does not fit, with its formatted message.\<close>

definition balance_error :: "'x sdk_scheme \<Rightarrow> string \<Rightarrow> u64 \<Rightarrow> Address \<Rightarrow> u64 \<Rightarrow> ('m, unit) go" where
  "balance_error E msg bal addr amount =
     go_bind (go_lift (MustAddressBech32 E HRP addr)) (\<lambda>a.
     go_error (Wrap msg [FU bal, FStr a, FU amount] ErrInvalidBalance))"

definition AddBalance ::
    "'x sdk_scheme \<Rightarrow> 'm Mutable \<Rightarrow> Address \<Rightarrow> u64 \<Rightarrow> bool \<Rightarrow> ('m, unit) go" where
  "AddBalance E S addr amount create =
     go_bind (getBalance E S addr) (\<lambda>(key, bal, exists).
     if \<not> exists \<and> \<not> create then go_return ()
     else case Add64 E bal amount of
         Inl _ \<Rightarrow> balance_error E ''could not add balance (bal=%d, addr=%v, amount=%d)'' bal addr amount
       | Inr nbal \<Rightarrow> setBalance S key nbal)"

definition SubBalance :: "'x sdk_scheme \<Rightarrow> 'm Mutable \<Rightarrow> Address \<Rightarrow> u64 \<Rightarrow> ('m, unit) go" where
  "SubBalance E S addr amount =
     go_bind (getBalance E S addr) (\<lambda>(key, bal, _).
     case Sub64 E bal amount of
       Inl _ \<Rightarrow> balance_error E ''could not subtract balance (bal=%d, addr=%v, amount=%d)'' bal addr amount
     | Inr nbal \<Rightarrow>
         if nbal = 0 then go_remove S key
         else setBalance S key nbal)"

section \<open>Keys\<close>

text \<open>The bytes of a balance key: prefix, address, number of chunks.\<close>

definition balance_key :: "Address \<Rightarrow> bytes" where
  "balance_key a = 0 # a @ [0, 1]"

abbreviation is_address :: "'x sdk_scheme \<Rightarrow> Address \<Rightarrow> bool" where
  "is_address E a \<equiv> length a = AddressLen E"

lemma balance_key_inject [simp]: "balance_key a = balance_key b \<longleftrightarrow> a = b"
  by (simp add: balance_key_def)

lemma be16_1: "be16 1 = [0, 1]"
  by (simp add: be16_def numeral_2_eq_2)

lemma BalanceKey_in_eq:
  assumes "is_address E pk" "length k = 1 + AddressLen E + 2"
  shows "BalanceKey_in E k pk = Ok (balance_key pk)"
proof -
  obtain x k' where k: "k = x # k'" "length k' = AddressLen E + 2"
    using assms(2) by (cases k) auto
  show ?thesis
    using assms k
    by (simp add: BalanceKey_in_def set_at_def copy_at_def put_Uint16_at_def balancePrefix_def
        BalanceChunks_def be16_1 balance_key_def)
qed

lemma innerGetBalance_simps [simp]:
  "innerGetBalance (Inl ErrNotFound) = Ok (0, False)"
  "innerGetBalance (Inr (be64 x)) = Ok (x, True)"
  by (simp_all add: innerGetBalance_def)

section \<open>The ledger interface\<close>

text \<open>
  What clients of the balance functions rely on: a successful subtraction had the funds, a
  successful addition fits, each changes the amount of its own address only, and a call that
  returns an error leaves every amount as it was.
\<close>

locale ledger =
  fixes bal :: "'m \<Rightarrow> 'a \<Rightarrow> nat"
    and sub :: "'a \<Rightarrow> u64 \<Rightarrow> ('m, unit) go"
    and add :: "'a \<Rightarrow> u64 \<Rightarrow> ('m, unit) go"
    and valid :: "'a \<Rightarrow> bool"
  assumes sub_funds: "valid a \<Longrightarrow> sub a x m = (Ok u, m') \<Longrightarrow> unat x \<le> bal m a"
    and sub_bal: "valid a \<Longrightarrow> valid b \<Longrightarrow> sub a x m = (Ok u, m') \<Longrightarrow>
        bal m' b = ((bal m)(a := bal m a - unat x)) b"
    and sub_error: "valid a \<Longrightarrow> valid b \<Longrightarrow> sub a x m = (Error e, m') \<Longrightarrow> bal m' b = bal m b"
    and add_fits: "valid a \<Longrightarrow> add a x m = (Ok u, m') \<Longrightarrow> bal m a + unat x < 2 ^ 64"
    and add_bal: "valid a \<Longrightarrow> valid b \<Longrightarrow> add a x m = (Ok u, m') \<Longrightarrow>
        bal m' b = ((bal m)(a := bal m a + unat x)) b"
    and add_error: "valid a \<Longrightarrow> valid b \<Longrightarrow> add a x m = (Error e, m') \<Longrightarrow> bal m' b = bal m b"
begin

text \<open>A payment: subtract, then add.\<close>

lemma move_bal:
  assumes "valid a" "valid b" "valid c"
    and "go_bind (sub a x) (\<lambda>_. add b x) m = (Ok u, m')"
  shows "bal m' c = ((bal m)(a := bal m a - unat x, b := ((bal m)(a := bal m a - unat x)) b + unat x)) c"
proof -
  obtain m1 where s: "sub a x m = (Ok (), m1)" and d: "add b x m1 = (Ok (), m')"
    using assms(4) by (auto simp: go_bind_Ok_iff)
  show ?thesis
    using add_bal [OF assms(2,3) d] sub_bal [OF assms(1,3) s] sub_bal [OF assms(1,2) s] by auto
qed

lemma move_funds:
  "valid a \<Longrightarrow> go_bind (sub a x) (\<lambda>_. add b x) m = (Ok u, m') \<Longrightarrow> unat x \<le> bal m a"
  by (auto simp: go_bind_Ok_iff dest: sub_funds)

text \<open>A payment neither creates nor destroys funds, over any set of addresses with both ends.\<close>

lemma move_conserves:
  assumes "finite A" "a \<in> A" "b \<in> A" "\<And>c. c \<in> A \<Longrightarrow> valid c"
    and mv: "go_bind (sub a x) (\<lambda>_. add b x) m = (Ok u, m')"
  shows "(\<Sum>c\<in>A. bal m' c) = (\<Sum>c\<in>A. bal m c)"
proof -
  have va: "valid a" and vb: "valid b" using assms by auto
  define f where "f = (bal m)(a := bal m a - unat x)"
  have le: "unat x \<le> bal m a" using va mv by (rule move_funds)
  have "(\<Sum>c\<in>A. bal m' c) = sum (f(b := f b + unat x)) A"
    using assms(4) by (intro sum.cong) (simp_all add: f_def move_bal [OF va vb _ mv])
  moreover have "sum (f(b := f b + unat x)) A + f b = sum f A + (f b + unat x)"
    using assms(1,3) by (rule sum_update_le)
  moreover have "sum f A + bal m a = sum (bal m) A + (bal m a - unat x)"
    unfolding f_def using assms(1,2) by (rule sum_update_le)
  ultimately show ?thesis using le by linarith
qed

end

section \<open>The model of balance.go provides the ledger\<close>

definition balance_of :: "'x sdk_scheme \<Rightarrow> 'm Mutable \<Rightarrow> 'm \<Rightarrow> Address \<Rightarrow> nat" where
  "balance_of E S m a = (case fst (GetBalance E S a m) of Ok b \<Rightarrow> unat b | _ \<Rightarrow> 0)"

locale bank = kv_store S + checked_math E
  for S :: "'m Mutable" and E :: "'x sdk_scheme" +
  assumes Uint16Len_2: "Uint16Len E = 2"
    and bech32_address: "is_address E a \<Longrightarrow> \<exists>s. MustAddressBech32 E HRP a = Ok s"
begin

lemma BalanceKey_eq: "is_address E a \<Longrightarrow> BalanceKey E a = Ok (balance_key a)"
  by (simp add: BalanceKey_def BalanceKey_in_eq balanceKeyPool_New_def Uint16Len_2)

lemma getBalance_eq:
  "is_address E a \<Longrightarrow> getBalance E S a m =
     (res_bind (innerGetBalance (GetValue S m (balance_key a))) (\<lambda>(b, ex). Ok (balance_key a, b, ex)), m)"
  by (simp add: getBalance_def BalanceKey_eq go_bind_def go_get_def go_lift_def go_return_def
      split: res.splits prod.splits)

lemma balance_of_eq:
  "is_address E a \<Longrightarrow> balance_of E S m a =
     (case innerGetBalance (GetValue S m (balance_key a)) of Ok (b, _) \<Rightarrow> unat b | _ \<Rightarrow> 0)"
  by (simp add: balance_of_def GetBalance_def go_bind_def getBalance_eq go_return_def
      split: res.splits prod.splits)

lemma balance_of_cong:
  "is_address E a \<Longrightarrow> GetValue S m' (balance_key a) = GetValue S m (balance_key a) \<Longrightarrow>
     balance_of E S m' a = balance_of E S m a"
  by (simp add: balance_of_eq)

lemma balance_error_iff:
  "is_address E a \<Longrightarrow> balance_error E msg b a x m = (r, m') \<longleftrightarrow>
     (\<exists>s. MustAddressBech32 E HRP a = Ok s \<and>
        r = Error (Wrap msg [FU b, FStr s, FU x] ErrInvalidBalance) \<and> m' = m)"
  using bech32_address [of a] by (auto simp: balance_error_def)

text \<open>The two updates, branch by branch.\<close>

lemma SubBalance_run:
  assumes "is_address E a"
  shows "SubBalance E S a x m =
    (case innerGetBalance (GetValue S m (balance_key a)) of
       Error e \<Rightarrow> (Error e, m)
     | Panic p \<Rightarrow> (Panic p, m)
     | Ok (b, ex) \<Rightarrow>
         if unat b < unat x
         then balance_error E ''could not subtract balance (bal=%d, addr=%v, amount=%d)'' b a x m
         else if b = x then go_remove S (balance_key a) m
         else go_insert S (balance_key a) (be64 (b - x)) m)"
proof (cases "innerGetBalance (GetValue S m (balance_key a))")
  case (Ok bx)
  obtain b ex where bx: "bx = (b, ex)" by (cases bx)
  have run: "SubBalance E S a x m = (case Sub64 E b x of
       Inl _ \<Rightarrow> balance_error E ''could not subtract balance (bal=%d, addr=%v, amount=%d)'' b a x m
     | Inr n \<Rightarrow> if n = 0 then go_remove S (balance_key a) m
         else go_insert S (balance_key a) (be64 n) m)"
    using assms by (simp add: SubBalance_def go_bind_def getBalance_eq Ok bx setBalance_def
        split: sum.splits)
  show ?thesis
  proof (cases "unat b < unat x")
    case True
    with Sub64_underflow obtain e where "Sub64 E b x = Inl e" by blast
    with True show ?thesis by (simp add: run Ok bx)
  next
    case False
    then have "Sub64 E b x = Inr (b - x)" by (simp add: Sub64_fits)
    with False show ?thesis by (simp add: run Ok bx)
  qed
qed (use assms in \<open>simp_all add: SubBalance_def go_bind_def getBalance_eq\<close>)

lemma AddBalance_run:
  assumes "is_address E a"
  shows "AddBalance E S a x c m =
    (case innerGetBalance (GetValue S m (balance_key a)) of
       Error e \<Rightarrow> (Error e, m)
     | Panic p \<Rightarrow> (Panic p, m)
     | Ok (b, ex) \<Rightarrow>
         if \<not> ex \<and> \<not> c then (Ok (), m)
         else if 2 ^ 64 \<le> unat b + unat x
         then balance_error E ''could not add balance (bal=%d, addr=%v, amount=%d)'' b a x m
         else go_insert S (balance_key a) (be64 (b + x)) m)"
proof (cases "innerGetBalance (GetValue S m (balance_key a))")
  case (Ok bx)
  obtain b ex where bx: "bx = (b, ex)" by (cases bx)
  have run: "AddBalance E S a x c m = (if \<not> ex \<and> \<not> c then (Ok (), m) else case Add64 E b x of
       Inl _ \<Rightarrow> balance_error E ''could not add balance (bal=%d, addr=%v, amount=%d)'' b a x m
     | Inr n \<Rightarrow> go_insert S (balance_key a) (be64 n) m)"
    using assms by (simp add: AddBalance_def go_bind_def getBalance_eq Ok bx setBalance_def
        split: sum.splits)
  show ?thesis
  proof (cases "2 ^ 64 \<le> unat b + unat x")
    case True
    with Add64_overflow obtain e where "Add64 E b x = Inl e" by blast
    with True show ?thesis by (simp add: run Ok bx)
  next
    case False
    then have "Add64 E b x = Inr (b + x)" by (simp add: Add64_fits)
    with False show ?thesis by (simp add: run Ok bx)
  qed
qed (use assms in \<open>simp_all add: AddBalance_def go_bind_def getBalance_eq\<close>)

text \<open>What each update leaves at every key of the state.\<close>

lemma SubBalance_Ok:
  assumes "is_address E a" "SubBalance E S a x m = (Ok u, m')"
  obtains b ex where "innerGetBalance (GetValue S m (balance_key a)) = Ok (b, ex)" "unat x \<le> unat b"
    "\<And>k. GetValue S m' k = (if k = balance_key a
        then (if b = x then Inl ErrNotFound else Inr (be64 (b - x))) else GetValue S m k)"
proof -
  obtain b ex where b: "innerGetBalance (GetValue S m (balance_key a)) = Ok (b, ex)"
    using assms by (auto simp: SubBalance_run split: res.splits)
  have le: "unat x \<le> unat b"
    using assms b by (auto simp: SubBalance_run balance_error_iff split: if_splits)
  have "GetValue S m' k = (if k = balance_key a
      then (if b = x then Inl ErrNotFound else Inr (be64 (b - x))) else GetValue S m k)" for k
    using assms b le by (cases "b = x")
      (auto simp: SubBalance_run linorder_not_less [symmetric] dest!: go_remove_Ok [where k' = k] go_insert_Ok [where k' = k])
  with b le show thesis by (rule that)
qed

lemma AddBalance_Ok:
  assumes "is_address E a" "AddBalance E S a x True m = (Ok u, m')"
  obtains b ex where "innerGetBalance (GetValue S m (balance_key a)) = Ok (b, ex)"
    "unat b + unat x < 2 ^ 64"
    "\<And>k. GetValue S m' k = (if k = balance_key a then Inr (be64 (b + x)) else GetValue S m k)"
proof -
  obtain b ex where b: "innerGetBalance (GetValue S m (balance_key a)) = Ok (b, ex)"
    using assms by (auto simp: AddBalance_run split: res.splits)
  have lt: "unat b + unat x < 2 ^ 64"
    using assms b by (auto simp: AddBalance_run balance_error_iff split: if_splits)
  have "GetValue S m' k = (if k = balance_key a then Inr (be64 (b + x)) else GetValue S m k)" for k
    using assms b lt by (auto simp: AddBalance_run dest!: go_insert_Ok [where k' = k])
  with b lt show thesis by (rule that)
qed

lemma SubBalance_fails_frame:
  assumes "is_address E a" "SubBalance E S a x m = (r, m')" "\<nexists>u. r = Ok u"
  shows "GetValue S m' k = GetValue S m k"
  using assms
  by (cases r) (auto simp: SubBalance_run balance_error_iff
      intro: go_insert_refused go_remove_refused split: res.splits if_splits)

lemma AddBalance_fails_frame:
  assumes "is_address E a" "AddBalance E S a x c m = (r, m')" "\<nexists>u. r = Ok u"
  shows "GetValue S m' k = GetValue S m k"
  using assms
  by (cases r) (auto simp: AddBalance_run balance_error_iff
      intro: go_insert_refused split: res.splits if_splits)

lemma SubBalance_frame:
  assumes "is_address E a" "SubBalance E S a x m = (r, m')" "k \<noteq> balance_key a"
  shows "GetValue S m' k = GetValue S m k"
proof (cases "\<exists>u. r = Ok u")
  case True
  with assms show ?thesis by (auto elim!: SubBalance_Ok)
qed (use assms in \<open>simp add: SubBalance_fails_frame\<close>)

lemma AddBalance_frame:
  assumes "is_address E a" "AddBalance E S a x True m = (r, m')" "k \<noteq> balance_key a"
  shows "GetValue S m' k = GetValue S m k"
proof (cases "\<exists>u. r = Ok u")
  case True
  with assms show ?thesis by (auto elim!: AddBalance_Ok)
qed (use assms in \<open>simp add: AddBalance_fails_frame\<close>)

lemma SubBalance_bal:
  assumes "is_address E a" "is_address E b" "SubBalance E S a x m = (Ok u, m')"
  shows "balance_of E S m' b = ((balance_of E S m)(a := balance_of E S m a - unat x)) b"
  using assms(1,3)
proof (rule SubBalance_Ok)
  fix v ex
  assume v: "innerGetBalance (GetValue S m (balance_key a)) = Ok (v, ex)" "unat x \<le> unat v"
    and m': "\<And>k. GetValue S m' k = (if k = balance_key a
        then (if v = x then Inl ErrNotFound else Inr (be64 (v - x))) else GetValue S m k)"
  then have "x \<le> v" by (simp add: word_le_nat_alt)
  then show ?thesis
    using assms(1,2) v by (auto simp: balance_of_eq m' unat_sub)
qed

lemma AddBalance_bal:
  assumes "is_address E a" "is_address E b" "AddBalance E S a x True m = (Ok u, m')"
  shows "balance_of E S m' b = ((balance_of E S m)(a := balance_of E S m a + unat x)) b"
  using assms(1,3)
proof (rule AddBalance_Ok)
  fix v ex
  assume v: "innerGetBalance (GetValue S m (balance_key a)) = Ok (v, ex)" "unat v + unat x < 2 ^ 64"
    and m': "\<And>k. GetValue S m' k = (if k = balance_key a then Inr (be64 (v + x)) else GetValue S m k)"
  have "unat (v + x) = unat v + unat x"
    using v(2) unat_add_lem [of v x] by simp
  then show ?thesis
    using assms(1,2) v(1) by (auto simp: balance_of_eq m')
qed

end

sublocale bank \<subseteq> ledger "balance_of E S" "SubBalance E S" "\<lambda>a x. AddBalance E S a x True" "is_address E"
proof
  fix a x m u m' assume a: "is_address E a" and run: "SubBalance E S a x m = (Ok u, m')"
  from a run show "unat x \<le> balance_of E S m a"
    by (rule SubBalance_Ok) (simp add: balance_of_eq a)
next
  fix a b x m u m' assume "is_address E a" "is_address E b" "SubBalance E S a x m = (Ok u, m')"
  then show "balance_of E S m' b = ((balance_of E S m)(a := balance_of E S m a - unat x)) b"
    by (rule SubBalance_bal)
next
  fix a b x m e m' assume "is_address E a" "is_address E b" "SubBalance E S a x m = (Error e, m')"
  then show "balance_of E S m' b = balance_of E S m b"
    by (auto intro: balance_of_cong SubBalance_fails_frame)
next
  fix a x m u m' assume a: "is_address E a" and run: "AddBalance E S a x True m = (Ok u, m')"
  from a run show "balance_of E S m a + unat x < 2 ^ 64"
    by (rule AddBalance_Ok) (simp add: balance_of_eq a)
next
  fix a b x m u m' assume "is_address E a" "is_address E b" "AddBalance E S a x True m = (Ok u, m')"
  then show "balance_of E S m' b = ((balance_of E S m)(a := balance_of E S m a + unat x)) b"
    by (rule AddBalance_bal)
next
  fix a b x m e m' assume "is_address E a" "is_address E b" "AddBalance E S a x True m = (Error e, m')"
  then show "balance_of E S m' b = balance_of E S m b"
    by (auto intro: balance_of_cong AddBalance_fails_frame)
qed

section \<open>Well-formed balance records\<close>

text \<open>Every balance record can be read: it is absent or it holds an amount.\<close>

definition readable :: "'x sdk_scheme \<Rightarrow> 'm Mutable \<Rightarrow> 'm \<Rightarrow> bool" where
  "readable E S m \<longleftrightarrow> (\<forall>a. is_address E a \<longrightarrow>
     (\<exists>b ex. innerGetBalance (GetValue S m (balance_key a)) = Ok (b, ex)))"

text \<open>No record holds the amount zero.\<close>

definition no_zero_records :: "'x sdk_scheme \<Rightarrow> 'm Mutable \<Rightarrow> 'm \<Rightarrow> bool" where
  "no_zero_records E S m \<longleftrightarrow> (\<forall>a. is_address E a \<longrightarrow>
     innerGetBalance (GetValue S m (balance_key a)) \<noteq> Ok (0, True))"

context bank
begin

lemma readableD:
  assumes "readable E S m" "is_address E a"
  obtains b ex where "innerGetBalance (GetValue S m (balance_key a)) = Ok (b, ex)" "unat b = balance_of E S m a"
  using assms by (auto simp: readable_def balance_of_eq)

lemma readable_frame:
  assumes "readable E S m" "\<And>k. k \<noteq> balance_key a \<Longrightarrow> GetValue S m' k = GetValue S m k"
    and "GetValue S m' (balance_key a) = Inl ErrNotFound \<or> (\<exists>n. GetValue S m' (balance_key a) = Inr (be64 n))"
  shows "readable E S m'"
  unfolding readable_def
proof (intro allI impI)
  fix c assume c: "is_address E c"
  show "\<exists>b ex. innerGetBalance (GetValue S m' (balance_key c)) = Ok (b, ex)"
    using assms c by (cases "c = a") (auto simp: readable_def)
qed

lemma no_zero_SubBalance:
  assumes "is_address E a" "SubBalance E S a x m = (r, m')" "no_zero_records E S m"
  shows "no_zero_records E S m'"
proof (cases "\<exists>u. r = Ok u")
  case True
  then obtain u where run: "SubBalance E S a x m = (Ok u, m')" using assms(2) by auto
  show ?thesis
    using assms(1) run
  proof (rule SubBalance_Ok)
    fix b ex assume m': "\<And>k. GetValue S m' k = (if k = balance_key a
        then (if b = x then Inl ErrNotFound else Inr (be64 (b - x))) else GetValue S m k)"
    show ?thesis using assms(3) by (auto simp: no_zero_records_def m')
  qed
next
  case False
  then show ?thesis
    using assms SubBalance_fails_frame [OF assms(1,2)] by (simp add: no_zero_records_def)
qed

lemma no_zero_AddBalance:
  assumes "is_address E a" "AddBalance E S a x True m = (r, m')" "no_zero_records E S m" "x \<noteq> 0"
  shows "no_zero_records E S m'"
proof (cases "\<exists>u. r = Ok u")
  case True
  then obtain u where run: "AddBalance E S a x True m = (Ok u, m')" using assms(2) by auto
  show ?thesis
    using assms(1) run
  proof (rule AddBalance_Ok)
    fix b ex assume fits: "unat b + unat x < 2 ^ 64"
      and m': "\<And>k. GetValue S m' k = (if k = balance_key a then Inr (be64 (b + x)) else GetValue S m k)"
    have "unat (b + x) = unat b + unat x" using fits unat_add_lem [of b x] by simp
    moreover have "unat x \<noteq> 0" using assms(4) by (simp add: unat_eq_zero)
    ultimately have "b + x \<noteq> 0" by (metis add_is_0 unat_0)
    then show ?thesis using assms(3) by (auto simp: no_zero_records_def m')
  qed
next
  case False
  then show ?thesis
    using assms AddBalance_fails_frame [OF assms(1,2)] by (simp add: no_zero_records_def)
qed

end

text \<open>A bank on a state that refuses no write: the updates succeed exactly when the amounts allow.\<close>

locale total_bank = bank S E + kv_total S
  for S :: "'m Mutable" and E :: "'x sdk_scheme"
begin

lemma SubBalance_total:
  assumes "is_address E a" "readable E S m"
  shows "unat x \<le> balance_of E S m a \<Longrightarrow> \<exists>m'. SubBalance E S a x m = (Ok (), m') \<and> readable E S m'"
    and "balance_of E S m a < unat x \<Longrightarrow> \<exists>e. SubBalance E S a x m = (Error e, m) \<and> errors_Is e ErrInvalidBalance"
proof -
  obtain b ex where b: "innerGetBalance (GetValue S m (balance_key a)) = Ok (b, ex)" "unat b = balance_of E S m a"
    using assms(2,1) by (rule readableD)
  { assume le: "unat x \<le> balance_of E S m a"
    then have "SubBalance E S a x m = (if b = x then go_remove S (balance_key a) m
         else go_insert S (balance_key a) (be64 (b - x)) m)"
      using b by (simp add: SubBalance_run [OF assms(1)] not_less [symmetric])
    with go_remove_accepted [of "balance_key a" m] go_insert_accepted [of "balance_key a" "be64 (b - x)" m]
    obtain m' where m': "SubBalance E S a x m = (Ok (), m')" by (cases "b = x") auto
    from assms(1) m' have "readable E S m'"
    proof (rule SubBalance_Ok)
      fix b' ex' assume "\<And>k. GetValue S m' k = (if k = balance_key a
        then (if b' = x then Inl ErrNotFound else Inr (be64 (b' - x))) else GetValue S m k)"
      then show ?thesis by (intro readable_frame [OF assms(2), of a]) auto
    qed
    with m' show "\<exists>m'. SubBalance E S a x m = (Ok (), m') \<and> readable E S m'" by blast }
  { assume "balance_of E S m a < unat x"
    then show "\<exists>e. SubBalance E S a x m = (Error e, m) \<and> errors_Is e ErrInvalidBalance"
      using b bech32_address [OF assms(1)]
      by (auto simp: SubBalance_run [OF assms(1)] balance_error_def go_bind_def go_lift_def go_error_def) }
qed

lemma AddBalance_total:
  assumes "is_address E a" "readable E S m"
  shows "balance_of E S m a + unat x < 2 ^ 64 \<Longrightarrow> \<exists>m'. AddBalance E S a x True m = (Ok (), m') \<and> readable E S m'"
    and "2 ^ 64 \<le> balance_of E S m a + unat x \<Longrightarrow>
      \<exists>e. AddBalance E S a x True m = (Error e, m) \<and> errors_Is e ErrInvalidBalance"
proof -
  obtain b ex where b: "innerGetBalance (GetValue S m (balance_key a)) = Ok (b, ex)" "unat b = balance_of E S m a"
    using assms(2,1) by (rule readableD)
  { assume lt: "balance_of E S m a + unat x < 2 ^ 64"
    then have "AddBalance E S a x True m = go_insert S (balance_key a) (be64 (b + x)) m"
      using b by (simp add: AddBalance_run [OF assms(1)])
    with go_insert_accepted obtain m' where m': "AddBalance E S a x True m = (Ok (), m')" by metis
    from assms(1) m' have "readable E S m'"
    proof (rule AddBalance_Ok)
      fix b' assume "\<And>k. GetValue S m' k = (if k = balance_key a then Inr (be64 (b' + x)) else GetValue S m k)"
      then show ?thesis by (intro readable_frame [OF assms(2), of a]) auto
    qed
    with m' show "\<exists>m'. AddBalance E S a x True m = (Ok (), m') \<and> readable E S m'" by blast }
  { assume "2 ^ 64 \<le> balance_of E S m a + unat x"
    then show "\<exists>e. AddBalance E S a x True m = (Error e, m) \<and> errors_Is e ErrInvalidBalance"
      using b bech32_address [OF assms(1)]
      by (auto simp: AddBalance_run [OF assms(1)] balance_error_def go_bind_def go_lift_def go_error_def) }
qed

text \<open>A payment goes through exactly when the payer has the funds and the payee's amount fits.\<close>

lemma move_total:
  assumes "is_address E a" "is_address E b" "readable E S m" "unat x \<le> balance_of E S m a"
    and "((balance_of E S m)(a := balance_of E S m a - unat x)) b + unat x < 2 ^ 64"
  shows "\<exists>m'. go_bind (SubBalance E S a x) (\<lambda>_. AddBalance E S b x True) m = (Ok (), m') \<and> readable E S m'"
proof -
  obtain m1 where m1: "SubBalance E S a x m = (Ok (), m1)" "readable E S m1"
    using SubBalance_total(1) [OF assms(1,3,4)] by blast
  have "balance_of E S m1 b + unat x < 2 ^ 64"
    using assms(5) SubBalance_bal [OF assms(1,2) m1(1)] by simp
  with AddBalance_total(1) [OF assms(2) m1(2)] m1(1) show ?thesis by (simp add: go_bind_run)
qed

lemma move_total_fails:
  assumes "is_address E a" "is_address E b" "readable E S m"
    and "\<not> (unat x \<le> balance_of E S m a \<and> ((balance_of E S m)(a := balance_of E S m a - unat x)) b + unat x < 2 ^ 64)"
  shows "\<exists>e m'. go_bind (SubBalance E S a x) (\<lambda>_. AddBalance E S b x True) m = (Error e, m') \<and> errors_Is e ErrInvalidBalance"
proof (cases "unat x \<le> balance_of E S m a")
  case True
  obtain m1 where m1: "SubBalance E S a x m = (Ok (), m1)" "readable E S m1"
    using SubBalance_total(1) [OF assms(1,3) True] by blast
  have "2 ^ 64 \<le> balance_of E S m1 b + unat x"
    using assms(4) True SubBalance_bal [OF assms(1,2) m1(1)] by simp
  then obtain e where "AddBalance E S b x True m1 = (Error e, m1)" "errors_Is e ErrInvalidBalance"
    using AddBalance_total(2) [OF assms(2) m1(2)] by blast
  with m1(1) show ?thesis by (auto simp: go_bind_run)
next
  case False
  then obtain e where "SubBalance E S a x m = (Error e, m)" "errors_Is e ErrInvalidBalance"
    using SubBalance_total(2) [OF assms(1,3)] by (metis not_less)
  then show ?thesis by (auto simp: go_bind_run)
qed

end

section \<open>Properties\<close>

interpretation ref_bank: bank map_store ref
  by unfold_locales simp_all

interpretation ref_total: total_bank map_store ref
  by unfold_locales

text \<open>A state with two accounts, for the witnesses.\<close>

definition alice :: Address where "alice = 1 # replicate 32 7"
definition bob :: Address where "bob = 1 # replicate 32 9"

definition demo_state :: kv where
  "demo_state = [balance_key alice \<mapsto> be64 100, balance_key bob \<mapsto> be64 5]"

lemma demo_addresses [simp]: "length alice = 33" "length bob = 33" "alice \<noteq> bob" "bob \<noteq> alice"
  by (simp_all add: alice_def bob_def)

lemma demo_balances [simp]:
  "GetValue map_store demo_state (balance_key alice) = Inr (be64 100)"
  "GetValue map_store demo_state (balance_key bob) = Inr (be64 5)"
  by (simp_all add: demo_state_def map_store_def)

text \<open>
  The key written into a pooled buffer does not depend on the earlier key the buffer still
  holds, so reusing buffers through \<open>balanceKeyPool\<close> never yields a stale or mixed key; and keys
  of different addresses differ.
\<close>

lemma BalanceKey_pool_independent:
  assumes "Uint16Len E = 2" "length k = 1 + AddressLen E + Uint16Len E" "is_address E a" "is_address E b"
  shows "BalanceKey_in E k a = BalanceKey E a \<and> (BalanceKey E a = BalanceKey E b) = (a = b)"
proof -
  have key: "BalanceKey_in E k' c = Ok (balance_key c)"
    if "length k' = 1 + AddressLen E + Uint16Len E" "is_address E c" for k' c
    using that assms(1) by (intro BalanceKey_in_eq) simp_all
  have new: "length (balanceKeyPool_New E) = 1 + AddressLen E + Uint16Len E"
    by (simp add: balanceKeyPool_New_def)
  show ?thesis
    using assms by (simp_all add: BalanceKey_def key new)
qed

lemma BalanceKey_pool_independent_example:
  "BalanceKey_in ref (balance_key bob) alice = BalanceKey ref alice \<and> BalanceKey ref alice \<noteq> BalanceKey ref bob"
  using BalanceKey_pool_independent [of ref "balance_key bob" alice bob]
  by (simp add: balance_key_def)

text \<open>
  C40: \<open>PrefixBlockKey\<close> never returns: it writes two bytes past the end of the buffer it
  allocated, so every call panics.
\<close>

theorem PrefixBlockKey_panics: "PrefixBlockKey E block parent = Panic IndexOutOfRange"
proof -
  let ?n = "IDLen E * 2"
  have "min (length block) ?n + (?n - length block) = ?n" by (simp add: min_def)
  then show ?thesis
    by (simp add: PrefixBlockKey_def Let_def set_at_def copy_at_def put_Uint16_at_def)
qed

end
