(* ===== verification/Seq_Rollup_Storage.thy ===== *)
theory Seq_Rollup_Storage
  imports Seq_Balance
begin

text \<open>
  The rest of \<open>src/storage\<close>: rollup infos (\<open>rollup_info.go\<close>), the registry of namespaces
  (\<open>rollup_registry.go\<close>), the exits of an epoch (\<open>epoch_exit.go\<close>), the winning bid of an
  epoch (\<open>arcadia.go\<close>), lists of epochs (\<open>utils.go\<close>) and the transaction index
  (\<open>transaction.go\<close>).
\<close>

section \<open>rollup\_info.go\<close>

text \<open>A nil pointer is \<open>None\<close>; the Boolean says whether there was a record.\<close>

definition innerGetRollupInfo ::
    "('p, 'x) hactions_scheme \<Rightarrow> err + bytes \<Rightarrow> (RollupInfo option \<times> bool) res" where
  "innerGetRollupInfo E r = (case r of
       Inl e \<Rightarrow> if errors_Is e ErrNotFound then Ok (None, False) else Error e
     | Inr v \<Rightarrow> (case fst (UnmarshalRollupInfo E (NewReader E v (NetworkSizeLimit E))) of
           Inl e \<Rightarrow> Error e
         | Inr info \<Rightarrow> Ok (Some info, True)))"

definition GetRollupInfo ::
    "('p, 'x) hactions_scheme \<Rightarrow> 'm Mutable \<Rightarrow> bytes \<Rightarrow> ('m, RollupInfo option) go" where
  "GetRollupInfo E S namespace =
     go_bind (go_get S (RollupInfoKey E namespace)) (\<lambda>r.
     go_bind (go_lift (innerGetRollupInfo E r)) (\<lambda>(rollup, _). go_return rollup))"

definition GetRollupInfoFromState ::
    "('p, 'x) hactions_scheme \<Rightarrow> ReadState \<Rightarrow> bytes \<Rightarrow> RollupInfo option res" where
  "GetRollupInfoFromState E f namespace =
     res_bind (read_first (f [RollupInfoKey E namespace])) (\<lambda>r.
     res_bind (innerGetRollupInfo E r) (\<lambda>(rollup, _). Ok rollup))"

definition SetRollupInfo ::
    "('p, 'x) hactions_scheme \<Rightarrow> 'm Mutable \<Rightarrow> bytes \<Rightarrow> RollupInfo \<Rightarrow> ('m, unit) go" where
  "SetRollupInfo E S namespace info =
     (let k = RollupInfoKey E namespace;
          p = RollupInfo_Marshal E info (NewWriter E (RollupInfo_Size E info) (NetworkSizeLimit E)) in
      case packer_Err E p of
        Some e \<Rightarrow> go_error e
      | None \<Rightarrow> go_insert S k (packer_Bytes E p))"

definition DelRollupInfo :: "('p, 'x) hactions_scheme \<Rightarrow> 'm Mutable \<Rightarrow> bytes \<Rightarrow> ('m, unit) go" where
  "DelRollupInfo E S namespace = go_remove S (RollupInfoKey E namespace)"

section \<open>rollup\_registry.go\<close>

definition PackNamespaces :: "('p, 'x) hactions_scheme \<Rightarrow> bytes list \<Rightarrow> err + bytes" where
  "PackNamespaces E namespaces = hPackNamespaces E namespaces"

definition UnpackNamespaces :: "('p, 'x) hactions_scheme \<Rightarrow> bytes \<Rightarrow> err + bytes list" where
  "UnpackNamespaces E raw = hUnpackNamespaces E raw"

definition innerGetRegistry ::
    "('p, 'x) hactions_scheme \<Rightarrow> err + bytes \<Rightarrow> (bytes list \<times> bool) res" where
  "innerGetRegistry E r = (case r of
       Inl e \<Rightarrow> if errors_Is e ErrNotFound then Ok ([], False) else Error e
     | Inr v \<Rightarrow> (case UnpackNamespaces E v of
           Inl e \<Rightarrow> Error e
         | Inr namespaces \<Rightarrow> Ok (namespaces, True)))"

definition GetRollupRegistry ::
    "('p, 'x) hactions_scheme \<Rightarrow> 'm Mutable \<Rightarrow> ('m, bytes list) go" where
  "GetRollupRegistry E S =
     go_bind (go_get S (RollupRegistryKey E)) (\<lambda>r.
     go_bind (go_lift (innerGetRegistry E r)) (\<lambda>(namespaces, _). go_return namespaces))"

definition GetRollupRegistryFromState ::
    "('p, 'x) hactions_scheme \<Rightarrow> ReadState \<Rightarrow> bytes list res" where
  "GetRollupRegistryFromState E f =
     res_bind (read_first (f [RollupRegistryKey E])) (\<lambda>r.
     res_bind (innerGetRegistry E r) (\<lambda>(namespaces, _). Ok namespaces))"

definition SetRollupRegistry ::
    "('p, 'x) hactions_scheme \<Rightarrow> 'm Mutable \<Rightarrow> bytes list \<Rightarrow> ('m, unit) go" where
  "SetRollupRegistry E S namespaces =
     (case PackNamespaces E namespaces of
        Inl e \<Rightarrow> go_error e
      | Inr packed \<Rightarrow> go_insert S (RollupRegistryKey E) packed)"

section \<open>epoch\_exit.go\<close>

definition innerGetEpochExits ::
    "('p, 'x) hactions_scheme \<Rightarrow> err + bytes \<Rightarrow> (EpochExitInfo option \<times> bool) res" where
  "innerGetEpochExits E r = (case r of
       Inl e \<Rightarrow> if errors_Is e ErrNotFound then Ok (None, False) else Error e
     | Inr v \<Rightarrow> (case fst (UnmarshalEpochExitsInfo E (NewReader E v (NetworkSizeLimit E))) of
           Inl e \<Rightarrow> Error e
         | Inr info \<Rightarrow> Ok (Some info, True)))"

definition getEpochExits ::
    "('p, 'x) hactions_scheme \<Rightarrow> 'm Mutable \<Rightarrow> u64 \<Rightarrow> ('m, bytes \<times> EpochExitInfo option \<times> bool) go" where
  "getEpochExits E S epoch =
     (let k = EpochExitsKey E epoch in
      go_bind (go_get S k) (\<lambda>r.
      go_bind (go_lift (innerGetEpochExits E r)) (\<lambda>(epochExit, exists).
      go_return (k, epochExit, exists))))"

definition GetEpochExits ::
    "('p, 'x) hactions_scheme \<Rightarrow> 'm Mutable \<Rightarrow> u64 \<Rightarrow> ('m, EpochExitInfo option \<times> bool) go" where
  "GetEpochExits E S epoch =
     go_bind (getEpochExits E S epoch) (\<lambda>(_, ep, exists). go_return (ep, exists))"

definition GetEpochExitsFromState ::
    "('p, 'x) hactions_scheme \<Rightarrow> ReadState \<Rightarrow> u64 \<Rightarrow> EpochExitInfo option res" where
  "GetEpochExitsFromState E f epoch =
     res_bind (read_first (f [EpochExitsKey E epoch])) (\<lambda>r.
     res_bind (innerGetEpochExits E r) (\<lambda>(epochExit, _). Ok epochExit))"

definition setEpochExits ::
    "('p, 'x) hactions_scheme \<Rightarrow> 'm Mutable \<Rightarrow> bytes \<Rightarrow> EpochExitInfo \<Rightarrow> ('m, unit) go" where
  "setEpochExits E S key info =
     (let size = sum_list (map (EpochInfo_Size E) (Exits info));
          p = EpochExitInfo_Marshal E info (NewWriter E size (NetworkSizeLimit E)) in
      case packer_Err E p of
        Some e \<Rightarrow> go_error e
      | None \<Rightarrow> go_insert S key (packer_Bytes E p))"

definition SetEpochExits ::
    "('p, 'x) hactions_scheme \<Rightarrow> 'm Mutable \<Rightarrow> u64 \<Rightarrow> EpochExitInfo \<Rightarrow> ('m, unit) go" where
  "SetEpochExits E S epoch info = setEpochExits E S (EpochExitsKey E epoch) info"

section \<open>arcadia.go\<close>

definition StoreArcadiaBidInfo ::
    "('p, 'x) hactions_scheme \<Rightarrow> 'm Mutable \<Rightarrow> u64 \<Rightarrow> u64 \<Rightarrow> bytes \<Rightarrow> bytes \<Rightarrow> ('m, unit) go" where
  "StoreArcadiaBidInfo E S epoch bidPrice bidderPublicKey bidderSignature =
     (let k = ArcadiaBidKey E epoch; v = make_bytes (8 + 48 + 96) in
      go_bind (go_lift (put_Uint64_at 0 bidPrice v)) (\<lambda>v.
      go_bind (go_lift (copy_at 8 bidderPublicKey v)) (\<lambda>v.
      go_bind (go_lift (copy_at (8 + 48) bidderSignature v)) (\<lambda>v.
      go_insert S k v))))"

definition GetArcadiaBidValue ::
    "('p, 'x) hactions_scheme \<Rightarrow> 'm Mutable \<Rightarrow> u64 \<Rightarrow> ('m, u64) go" where
  "GetArcadiaBidValue E S epoch =
     go_bind (go_get S (ArcadiaBidKey E epoch)) (\<lambda>r.
     go_bind (go_lift (of_sum r)) (\<lambda>v.
     go_bind (go_lift (slice 0 8 v)) (\<lambda>w.
     go_lift (be_Uint64 w))))"

definition GetArcadiaBuilderInfoAndSignature ::
    "('p, 'x) hactions_scheme \<Rightarrow> 'm Mutable \<Rightarrow> u64 \<Rightarrow> ('m, bytes \<times> bytes) go" where
  "GetArcadiaBuilderInfoAndSignature E S epoch =
     go_bind (go_get S (ArcadiaBidKey E epoch)) (\<lambda>r.
     go_bind (go_lift (of_sum r)) (\<lambda>v.
     go_bind (go_lift (slice 8 (8 + 48) v)) (\<lambda>pk.
     go_bind (go_lift (slice_from (8 + 48) v)) (\<lambda>sig.
     go_return (pk, sig)))))"

text \<open>Here the error is compared with \<open>==\<close>, not with \<open>errors.Is\<close>; no builder is \<open>nil\<close>.\<close>

definition GetArcadiaBuilderFromState ::
    "('p, 'x) hactions_scheme \<Rightarrow> ReadState \<Rightarrow> u64 \<Rightarrow> bytes option res" where
  "GetArcadiaBuilderFromState E f epoch =
     (let (values, errs) = f [ArcadiaBidKey E epoch] in
      case errs of
        [] \<Rightarrow> Panic IndexOutOfRange
      | Some e # _ \<Rightarrow> if e = ErrNotFound then Ok None else Error e
      | None # _ \<Rightarrow> (case values of
            [] \<Rightarrow> Panic IndexOutOfRange
          | v # _ \<Rightarrow> res_bind (slice 8 (8 + 48) v) (\<lambda>pk. Ok (Some pk))))"

section \<open>utils.go\<close>

definition PackEpochs :: "('p, 'x) codec_scheme \<Rightarrow> u64 list \<Rightarrow> bytes \<times> err option" where
  "PackEpochs E epochs =
     (let p = NewWriter E (int (length epochs) * 8) (NetworkSizeLimit E);
          p = PackInt E (of_nat (length epochs)) p;
          p = foldl (\<lambda>p e. PackUint64 E e p) p epochs in
      (packer_Bytes E p, packer_Err E p))"

text \<open>The loop \<open>for i := 0; i < eLen; i++\<close> with \<open>n = eLen - i\<close> rounds to go.\<close>

fun unpack_epochs_loop :: "('p, 'x) codec_scheme \<Rightarrow> nat \<Rightarrow> 'p \<Rightarrow> u64 list \<times> 'p" where
  "unpack_epochs_loop E 0 p = ([], p)"
| "unpack_epochs_loop E (Suc n) p =
     (let (e, p) = UnpackUint64 E True p; (es, p) = unpack_epochs_loop E n p in (e # es, p))"

definition UnpackEpochs :: "('p, 'x) codec_scheme \<Rightarrow> bytes \<Rightarrow> (u64 list \<times> err option) res" where
  "UnpackEpochs E raw =
     (let p = NewReader E raw (NetworkSizeLimit E);
          (eLen, p) = UnpackInt E False p in
      if sint eLen < 0 then Panic MakeSlice
      else let (epochs, p) = unpack_epochs_loop E (nat (sint eLen)) p in
        Ok (epochs, packer_Err E p))"

section \<open>transaction.go\<close>

definition failureByte :: u8 where "failureByte = 0x0"
definition successByte :: u8 where "successByte = 0x1"

definition TxKey :: "'x sdk_scheme \<Rightarrow> ID \<Rightarrow> bytes res" where
  "TxKey E txid =
     (let k = make_bytes (1 + IDLen E) in
      res_bind (set_at 0 txPrefix k) (\<lambda>k. copy_at 1 txid k))"

text \<open>\<open>put\<close> is \<open>db.Put\<close> of the writer that is passed in (a batch).\<close>

definition StoreTransaction ::
    "'x sdk_scheme \<Rightarrow> (bytes \<Rightarrow> bytes \<Rightarrow> ('d, unit) go) \<Rightarrow> ID \<Rightarrow> i64 \<Rightarrow> bool \<Rightarrow> u64 list \<Rightarrow> u64 \<Rightarrow> ('d, unit) go" where
  "StoreTransaction E put txid t success units fee =
     go_bind (go_lift (TxKey E txid)) (\<lambda>k.
     let v = make_bytes (Uint64Len E + 1 + DimensionsLen E + Uint64Len E) in
     go_bind (go_lift (put_Uint64_at 0 t v)) (\<lambda>v.
     go_bind (go_lift (set_at (Uint64Len E) (if success then successByte else failureByte) v)) (\<lambda>v.
     go_bind (go_lift (copy_at (Uint64Len E + 1) (Dimensions_Bytes E units) v)) (\<lambda>v.
     go_bind (go_lift (put_Uint64_at (Uint64Len E + 1 + DimensionsLen E) fee v)) (\<lambda>v.
     put k v)))))"

text \<open>\<open>get\<close> is \<open>db.Get\<close>; the result is \<open>None\<close> when the transaction is not found.\<close>

definition GetTransaction ::
    "'x sdk_scheme \<Rightarrow> (bytes \<Rightarrow> err + bytes) \<Rightarrow> ID \<Rightarrow> (i64 \<times> bool \<times> u64 list \<times> u64) option res" where
  "GetTransaction E get txid =
     res_bind (TxKey E txid) (\<lambda>k.
     case get k of
       Inl e \<Rightarrow> if errors_Is e ErrNotFound then Ok None else Error e
     | Inr v \<Rightarrow>
        res_bind (be_Uint64 v) (\<lambda>t.
        res_bind (slice (Uint64Len E) (Uint64Len E + 1) v) (\<lambda>b.
        res_bind (slice (Uint64Len E + 1) (Uint64Len E + 1 + DimensionsLen E) v) (\<lambda>db.
        res_bind (of_sum (UnpackDimensions E db)) (\<lambda>d.
        res_bind (slice_from (Uint64Len E + 1 + DimensionsLen E) v) (\<lambda>fb.
        res_bind (be_Uint64 fb) (\<lambda>fee.
        Ok (Some (t, b \<noteq> [failureByte], d, fee)))))))))"

section \<open>Views of the state and what the setters do to them\<close>

definition registry_of :: "('p, 'x) hactions_scheme \<Rightarrow> 'm Mutable \<Rightarrow> 'm \<Rightarrow> bytes list res" where
  "registry_of E S m = fst (GetRollupRegistry E S m)"

definition info_of :: "('p, 'x) hactions_scheme \<Rightarrow> 'm Mutable \<Rightarrow> 'm \<Rightarrow> bytes \<Rightarrow> RollupInfo option res" where
  "info_of E S m ns = fst (GetRollupInfo E S ns m)"

definition exits_of ::
    "('p, 'x) hactions_scheme \<Rightarrow> 'm Mutable \<Rightarrow> 'm \<Rightarrow> u64 \<Rightarrow> (EpochExitInfo option \<times> bool) res" where
  "exits_of E S m e = fst (GetEpochExits E S e m)"

lemma reads_only_getters [simp, intro]:
  "reads_only (GetRollupRegistry E S)" "reads_only (GetRollupInfo E S ns)" "reads_only (GetEpochExits E S e)"
  by (auto simp: GetRollupRegistry_def GetRollupInfo_def GetEpochExits_def getEpochExits_def Let_def
      intro!: reads_only_bind split: prod.splits)

lemma getters_run:
  "GetRollupRegistry E S m = (registry_of E S m, m)"
  "GetRollupInfo E S ns m = (info_of E S m ns, m)"
  "GetEpochExits E S e m = (exits_of E S m e, m)"
  by (simp_all add: registry_of_def info_of_def exits_of_def prod_eq_iff reads_only_getters [unfolded reads_only_def])

lemma views_eq:
  "registry_of E S m = res_bind (innerGetRegistry E (GetValue S m (RollupRegistryKey E))) (\<lambda>(x, _). Ok x)"
  "info_of E S m ns = res_bind (innerGetRollupInfo E (GetValue S m (RollupInfoKey E ns))) (\<lambda>(x, _). Ok x)"
  "exits_of E S m e = innerGetEpochExits E (GetValue S m (EpochExitsKey E e))"
  by (auto simp: registry_of_def info_of_def exits_of_def GetRollupRegistry_def GetRollupInfo_def
      GetEpochExits_def getEpochExits_def Let_def go_bind_def go_get_def go_lift_def go_return_def
      split: res.splits)

lemma views_cong:
  "GetValue S m' (RollupRegistryKey E) = GetValue S m (RollupRegistryKey E) \<Longrightarrow> registry_of E S m' = registry_of E S m"
  "GetValue S m' (RollupInfoKey E ns) = GetValue S m (RollupInfoKey E ns) \<Longrightarrow> info_of E S m' ns = info_of E S m ns"
  "GetValue S m' (EpochExitsKey E e) = GetValue S m (EpochExitsKey E e) \<Longrightarrow> exits_of E S m' e = exits_of E S m e"
  by (simp_all add: views_eq)

lemma views_not_Panic [simp]:
  "registry_of E S m \<noteq> Panic p" "info_of E S m ns \<noteq> Panic p" "exits_of E S m e \<noteq> Panic p"
  by (auto simp: views_eq innerGetRegistry_def innerGetRollupInfo_def innerGetEpochExits_def
      split: sum.splits if_splits)

lemma exits_of_cases:
  "exits_of E S m e = Ok (x, b) \<Longrightarrow> b = (x \<noteq> None)"
  by (auto simp: views_eq innerGetEpochExits_def split: sum.splits if_splits)

lemma setters_not_Panic [simp]:
  "SetRollupInfo E S ns i m \<noteq> (Panic p, m')" "SetRollupRegistry E S nss m \<noteq> (Panic p, m')"
  "SetEpochExits E S e x m \<noteq> (Panic p, m')"
  by (auto simp: SetRollupInfo_def SetRollupRegistry_def SetEpochExits_def setEpochExits_def Let_def
      split: option.splits sum.splits)

text \<open>
  The rollup part of the state, as its clients (the rollup and epoch-exit actions) use it: each
  setter makes its own view read back what was set and leaves the other views as they were.
\<close>

locale rollups = kv_store S + hactions_keys E + hactions_codec E
  for S :: "'m Mutable" and E :: "('p, 'x) hactions_scheme"
begin

lemma setters_write [writes]:
  "RollupInfoKey E ns \<in> K \<Longrightarrow> writes_only S K (SetRollupInfo E S ns i)"
  "RollupRegistryKey E \<in> K \<Longrightarrow> writes_only S K (SetRollupRegistry E S nss)"
  "EpochExitsKey E e \<in> K \<Longrightarrow> writes_only S K (SetEpochExits E S e x)"
  "ArcadiaBidKey E e \<in> K \<Longrightarrow> writes_only S K (StoreArcadiaBidInfo E S e b pk sg)"
  by (auto simp: SetRollupInfo_def SetRollupRegistry_def SetEpochExits_def setEpochExits_def
      StoreArcadiaBidInfo_def Let_def intro!: writes)

lemma SetRollupInfo_reads:
  assumes "SetRollupInfo E S ns i m = (Ok u, m')"
  shows "info_of E S m' ns = Ok (Some i)"
  using assms info_roundtrip [OF refl]
  by (auto simp: SetRollupInfo_def Let_def views_eq innerGetRollupInfo_def dest!: go_insert_own
      split: option.splits)

lemma SetRollupInfo_other:
  assumes "SetRollupInfo E S ns i m = (r, m')"
  shows "length ns \<le> MaxNamespaceLen E \<Longrightarrow> length ns' \<le> MaxNamespaceLen E \<Longrightarrow> ns' \<noteq> ns \<Longrightarrow>
      info_of E S m' ns' = info_of E S m ns'"
    and "registry_of E S m' = registry_of E S m" "exits_of E S m' e = exits_of E S m e"
  using writes_only_run [OF setters_write(1) [of ns "{RollupInfoKey E ns}"] assms] keys_disjoint
    info_key_inject [of ns' ns]
  by (auto intro!: views_cong simp: changes_only_def) (metis keys_disjoint)+

lemma SetRollupRegistry_reads:
  "SetRollupRegistry E S nss m = (Ok u, m') \<Longrightarrow> registry_of E S m' = Ok nss"
  using namespaces_roundtrip [of nss]
  by (auto simp: SetRollupRegistry_def PackNamespaces_def UnpackNamespaces_def views_eq
      innerGetRegistry_def dest!: go_insert_own split: sum.splits)

lemma SetRollupRegistry_other:
  assumes "SetRollupRegistry E S nss m = (r, m')"
  shows "info_of E S m' ns = info_of E S m ns" "exits_of E S m' e = exits_of E S m e"
  using writes_only_run [OF setters_write(2) [of "{RollupRegistryKey E}"] assms] keys_disjoint
  by (auto intro!: views_cong simp: changes_only_def)

lemma SetEpochExits_reads:
  "SetEpochExits E S e x m = (Ok u, m') \<Longrightarrow> exits_of E S m' e = Ok (Some x, True)"
  using exits_roundtrip [OF refl]
  by (auto simp: SetEpochExits_def setEpochExits_def Let_def views_eq innerGetEpochExits_def
      dest!: go_insert_own split: option.splits)

lemma SetEpochExits_other:
  assumes "SetEpochExits E S e x m = (r, m')"
  shows "info_of E S m' ns = info_of E S m ns" "registry_of E S m' = registry_of E S m"
    "e' \<noteq> e \<Longrightarrow> exits_of E S m' e' = exits_of E S m e'"
  using writes_only_run [OF setters_write(3) [of e "{EpochExitsKey E e}"] assms] keys_disjoint
    exits_key_inject [of e' e]
  by (auto intro!: views_cong simp: changes_only_def) (metis keys_disjoint)+

end

interpretation ref_rollups: rollups map_store ref
  by unfold_locales

section \<open>Properties\<close>

lemma StoreArcadiaBidInfo_eq:
  "length pk = 48 \<Longrightarrow> length sg = 96 \<Longrightarrow>
     StoreArcadiaBidInfo E S e b pk sg = go_insert S (ArcadiaBidKey E e) (be64 b @ pk @ sg)"
  by (simp add: StoreArcadiaBidInfo_def put_Uint64_at_def copy_at_def)

text \<open>
  A winning bid that was stored for an epoch reads back as it was: the price, the builder's
  public key and the signature.
\<close>

lemma arcadia_bid_roundtrip:
  assumes "kv_store S" "length pk = 48" "length sg = 96"
    and "StoreArcadiaBidInfo E S e b pk sg m = (Ok u, m')"
  shows "GetArcadiaBidValue E S e m' = (Ok b, m') \<and>
    GetArcadiaBuilderInfoAndSignature E S e m' = (Ok (pk, sg), m')"
proof -
  have v: "GetValue S m' (ArcadiaBidKey E e) = Inr (be64 b @ pk @ sg)"
    using assms by (simp add: StoreArcadiaBidInfo_eq kv_store.go_insert_own [OF assms(1)])
  show ?thesis
    using assms(2,3)
    by (simp add: GetArcadiaBidValue_def GetArcadiaBuilderInfoAndSignature_def go_bind_def go_get_def
        v go_lift_def go_return_def slice_def slice_from_def)
qed

lemma arcadia_bid_roundtrip_example:
  "\<exists>m'. StoreArcadiaBidInfo ref map_store 7 42 (replicate 48 1) (replicate 96 2) demo_state = (Ok (), m')
     \<and> GetArcadiaBidValue ref map_store 7 m' = (Ok 42, m')
     \<and> GetArcadiaBuilderInfoAndSignature ref map_store 7 m' = (Ok (replicate 48 1, replicate 96 2), m')"
proof -
  obtain m' where m': "StoreArcadiaBidInfo ref map_store 7 42 (replicate 48 1) (replicate 96 2) demo_state = (Ok (), m')"
    using map_kv.go_insert_accepted by (simp add: StoreArcadiaBidInfo_eq) blast
  from arcadia_bid_roundtrip [OF map_kv.kv_store_axioms _ _ m'] m' show ?thesis by simp
qed

text \<open>The state as the RPC handlers read it: one value or one error per key.\<close>

definition reads_state :: "'m Mutable \<Rightarrow> 'm \<Rightarrow> ReadState \<Rightarrow> bool" where
  "reads_state S m f \<longleftrightarrow> (\<forall>k. f [k] =
     (case GetValue S m k of Inr v \<Rightarrow> ([v], [None]) | Inl e \<Rightarrow> ([[]], [Some e])))"

lemma read_first_state: "reads_state S m f \<Longrightarrow> read_first (f [k]) = Ok (GetValue S m k)"
  by (simp add: reads_state_def read_first_def split: sum.splits)

text \<open>
  A query over the read interface of the state and the read the actions do inside a block
  return the same, error cases included, for balances, rollup infos, the registry and the exits
  of an epoch.
\<close>

lemma state_queries_agree:
  assumes "reads_state S m f"
  shows "GetBalanceFromState E f a = fst (GetBalance E S a m)
    \<and> GetRollupInfoFromState E f ns = fst (GetRollupInfo E S ns m)
    \<and> GetRollupRegistryFromState E f = fst (GetRollupRegistry E S m)
    \<and> GetEpochExitsFromState E f e = res_bind (fst (GetEpochExits E S e m)) (\<lambda>(x, _). Ok x)"
proof -
  have "GetBalanceFromState E f a = fst (GetBalance E S a m)"
    by (cases "BalanceKey E a")
      (auto simp: GetBalanceFromState_def GetBalance_def getBalance_def read_first_state [OF assms]
        go_bind_def go_get_def go_lift_def go_return_def go_error_def go_panic_def split: res.splits)
  moreover have "GetRollupInfoFromState E f ns = info_of E S m ns"
    "GetRollupRegistryFromState E f = registry_of E S m"
    "GetEpochExitsFromState E f e = res_bind (exits_of E S m e) (\<lambda>(x, _). Ok x)"
    by (simp_all add: GetRollupInfoFromState_def GetRollupRegistryFromState_def
        GetEpochExitsFromState_def read_first_state [OF assms] views_eq)
  ultimately show ?thesis
    by (simp add: registry_of_def info_of_def exits_of_def)
qed

definition demo_read :: ReadState where
  "demo_read ks = (map (\<lambda>k. case GetValue map_store demo_state k of Inr v \<Rightarrow> v | Inl _ \<Rightarrow> []) ks,
     map (\<lambda>k. case GetValue map_store demo_state k of Inr _ \<Rightarrow> None | Inl e \<Rightarrow> Some e) ks)"

lemma state_queries_agree_example:
  "reads_state map_store demo_state demo_read \<and> GetBalanceFromState ref demo_read alice = Ok 100"
proof -
  have r: "reads_state map_store demo_state demo_read"
    by (simp add: reads_state_def demo_read_def split: sum.splits)
  moreover have "fst (GetBalance ref map_store alice demo_state) = Ok 100"
    by (simp add: GetBalance_def ref_bank.getBalance_eq go_bind_def go_return_def)
  ultimately show ?thesis
    using state_queries_agree [OF r, of ref alice "[]" 0] by simp
qed

lemma TxKey_eq: "length txid = IDLen E \<Longrightarrow> TxKey E txid = Ok (0 # txid)"
  by (simp add: TxKey_def set_at_def copy_at_def make_bytes_def txPrefix_def replicate_Suc)

lemma StoreTransaction_eq:
  assumes "Uint64Len E = 8" "length txid = IDLen E" "length (Dimensions_Bytes E u) = DimensionsLen E"
  shows "StoreTransaction E put txid t ok u fee =
    put (0 # txid) (be64 t @ [if ok then successByte else failureByte] @ Dimensions_Bytes E u @ be64 fee)"
proof -
  let ?n = "8 + 1 + DimensionsLen E + 8"
  have 1: "put_Uint64_at 0 t (make_bytes ?n) = Ok (be64 t @ make_bytes (1 + DimensionsLen E + 8))"
    by (simp add: put_Uint64_at_def copy_at_def make_bytes_def)
  have 2: "set_at 8 b (be64 t @ make_bytes (1 + DimensionsLen E + 8)) = Ok (be64 t @ [b] @ make_bytes (DimensionsLen E + 8))" for b
    using replicate_Suc [of "DimensionsLen E + 8" "0 :: u8"]
    by (simp add: set_at_def make_bytes_def list_update_append add.commute)
  have 3: "copy_at 9 (Dimensions_Bytes E u) (be64 t @ [b] @ make_bytes (DimensionsLen E + 8))
      = Ok (be64 t @ [b] @ Dimensions_Bytes E u @ make_bytes 8)" for b
    using assms(3) by (simp add: copy_at_def make_bytes_def)
  have 4: "put_Uint64_at (9 + DimensionsLen E) fee (be64 t @ [b] @ Dimensions_Bytes E u @ make_bytes 8)
      = Ok (be64 t @ [b] @ Dimensions_Bytes E u @ be64 fee)" for b
    using assms(3) by (simp add: put_Uint64_at_def copy_at_def)
  show ?thesis
    using assms 1 2 3 4 by (simp add: StoreTransaction_def TxKey_eq Let_def)
qed

text \<open>
  A transaction result that was stored is found again with its timestamp, outcome, units and
  fee, for every database whose reads return what was put.
\<close>

lemma transaction_roundtrip:
  assumes "Uint64Len E = 8" "length txid = IDLen E" "length (Dimensions_Bytes E u) = DimensionsLen E"
    and "UnpackDimensions E (Dimensions_Bytes E u) = Inr u"
    and put: "\<And>k v d d'. put k v d = (Ok (), d') \<Longrightarrow> get d' k = Inr v"
    and run: "StoreTransaction E put txid t ok u fee d = (Ok (), d')"
  shows "GetTransaction E (get d') txid = Ok (Some (t, ok, u, fee))"
proof -
  have "put (0 # txid) (be64 t @ [if ok then successByte else failureByte] @ Dimensions_Bytes E u @ be64 fee) d = (Ok (), d')"
    using run assms(1-3) by (simp add: StoreTransaction_eq)
  then have "get d' (0 # txid) = Inr (be64 t @ [if ok then successByte else failureByte] @ Dimensions_Bytes E u @ be64 fee)"
    by (rule put)
  then show ?thesis
    using assms(1-4)
    by (simp add: GetTransaction_def TxKey_eq slice_def slice_from_def successByte_def failureByte_def)
qed

lemma transaction_roundtrip_example:
  "GetTransaction ref ((\<lambda>(d :: kv) k. case d k of None \<Rightarrow> Inl ErrNotFound | Some v \<Rightarrow> Inr v)
      (snd (StoreTransaction ref (\<lambda>k v d. (Ok (), d(k \<mapsto> v))) (replicate 32 3) 1700 True [1, 2, 3, 4, 5] 99 Map.empty)))
     (replicate 32 3) = Ok (Some (1700, True, [1, 2, 3, 4, 5], 99))"
proof -
  have len: "length (Dimensions_Bytes ref [1, 2, 3, 4, 5]) = DimensionsLen ref"
    by simp
  have dim: "UnpackDimensions ref (Dimensions_Bytes ref [1, 2, 3, 4, 5]) = Inr [1, 2, 3, 4, 5]"
    by (simp add: drop_append)
  show ?thesis
    by (rule transaction_roundtrip [where put = "\<lambda>k v d. (Ok (), d(k \<mapsto> v))" and d = Map.empty, OF _ _ len dim])
      (auto simp: StoreTransaction_eq)
qed

context packer
begin

lemma unpack_epochs_loop_unpacks:
  "0 \<notin> set es \<Longrightarrow> unpacks E left (unpack_epochs_loop E (length es)) es (concat (map enc_u64 es))"
proof (induction es)
  case (Cons e es)
  have "unpacks E left (\<lambda>p. case UnpackUint64 E True p of (e, p) \<Rightarrow>
      case unpack_epochs_loop E (length es) p of (es, p) \<Rightarrow> (e # es, p)) (e # es)
      (enc_u64 e @ concat (map enc_u64 es) @ [])"
    using Cons.prems
    by (intro unpacks_steps unpacks_bind [OF Cons.IH] unpacks_return) auto
  then show ?case by simp
qed (simp add: unpacks_def)

lemma PackEpochs_packs:
  "packs E (\<lambda>p. foldl (\<lambda>p e. PackUint64 E e p) (PackInt E n p) es) (enc_int n @ concat (map enc_u64 es))"
  by (intro packs_comp [where f = "PackInt E n"] packs_fold packs_basic)

end

text \<open>
  A list of non-zero epochs that was packed without an error is unpacked to itself, without an
  error and without a panic.
\<close>

lemma epochs_roundtrip:
  assumes "packer E left enc_u64 enc_int enc_bytes" "PackEpochs E es = (b, None)"
    and "0 \<notin> set es" "length es < 2 ^ 31" "int (length b) \<le> NetworkSizeLimit E"
  shows "UnpackEpochs E b = Ok (es, None)"
proof -
  let ?n = "of_nat (length es) :: i64"
  let ?f = "\<lambda>p. foldl (\<lambda>p e. PackUint64 E e p) (PackInt E ?n p) es"
  let ?w = "NewWriter E (int (length es) * 8) (NetworkSizeLimit E)"
  have w: "packer_Err E (?f ?w) = None" "b = packer_Bytes E (?f ?w)"
    using assms(2) by (simp_all add: PackEpochs_def Let_def)
  have n: "unat ?n = length es" "sint ?n = int (length es)"
    using assms(4) by (simp_all add: unat_of_nat signed_of_nat take_bit_nat_eq_self signed_take_bit_int_eq_self)
  have "unpacks E left (\<lambda>p. case UnpackInt E False p of (l, p) \<Rightarrow> unpack_epochs_loop E (nat (sint l)) p) es
      (enc_int ?n @ concat (map enc_u64 es))"
    by (rule unpacks_bind [OF packer.unpacks_basic(2) [OF assms(1)]])
      (use packer.unpack_epochs_loop_unpacks [OF assms(1,3)] assms(4) n in simp_all)
  from packer.roundtrip [OF assms(1) packer.PackEpochs_packs [OF assms(1)] this w(1)] assms(5)
  obtain p' where p': "(case UnpackInt E False (NewReader E b (NetworkSizeLimit E)) of (l, p) \<Rightarrow> unpack_epochs_loop E (nat (sint l)) p) = (es, p')"
    "packer_Err E p' = None"
    unfolding w(2) by blast
  obtain l p1 where 1: "UnpackInt E False (NewReader E b (NetworkSizeLimit E)) = (l, p1)" by fastforce
  have "l = ?n"
  proof -
    have "left (NewReader E b (NetworkSizeLimit E)) = b \<and> packer_Err E (NewReader E b (NetworkSizeLimit E)) = None"
      using packer.reader [OF assms(1) assms(5)] .
    moreover have "b = enc_int ?n @ concat (map enc_u64 es)"
      using packer.PackEpochs_packs [OF assms(1), of ?n es] w packer.writer [OF assms(1)] unfolding packs_def by simp
    ultimately show ?thesis
      using packer.unpack_int [OF assms(1), of "NewReader E b (NetworkSizeLimit E)" ?n "concat (map enc_u64 es)" False] assms(4) n 1
      by auto
  qed
  then show ?thesis
    using p' 1 n by (simp add: UnpackEpochs_def Let_def)
qed

lemma epochs_roundtrip_example:
  "UnpackEpochs ref (fst (PackEpochs ref [3, 9])) = Ok ([3, 9], None)"
proof -
  have p: "PackEpochs ref [3, 9] = (rp_enc_int 2 @ be64 3 @ be64 9, None)"
    by (simp add: PackEpochs_def rp_write_def r_writer_def rp_enc_int_def)
  show ?thesis unfolding p fst_conv
    by (rule epochs_roundtrip [OF ref_packer.packer_axioms p]) (simp_all add: rp_enc_int_def)
qed

end
