(* ===== verification/Seq_Genesis.thy ===== *)
theory Seq_Genesis
  imports Seq_Balance
begin

text \<open>
  \<open>src/genesis\<close>: the genesis parameters, their defaults, reading them, loading the initial
  balances into the state, and the rules the other components ask for their parameters.
\<close>

section \<open>genesis.go\<close>

record CustomAllocation =
  ca_Address :: string
  ca_Balance :: u64

record Genesis =
  StateBranchFactor :: nat
  MinBlockGap :: i64
  MinEmptyBlockGap :: i64
  EpochLength :: i64
  MinUnitPrice :: "u64 list"
  UnitPriceChangeDenominator :: "u64 list"
  WindowTargetUnits :: "u64 list"
  MaxBlockUnits :: "u64 list"
  FeeMarketMinUnits :: u64
  FeeMarketWindowTargetUnits :: u64
  FeeMarketPriceChangeDenominator :: u64
  ValidityWindow :: i64
  MaxActionsPerTx :: u8
  MaxOutputsPerAction :: u8
  BaseComputeUnits :: u64
  StorageKeyReadUnits :: u64
  StorageValueReadUnits :: u64
  StorageKeyAllocateUnits :: u64
  StorageValueAllocateUnits :: u64
  StorageKeyWriteUnits :: u64
  StorageValueWriteUnits :: u64
  g_CustomAllocation :: "CustomAllocation list"

definition Default :: "'x sdk_scheme \<Rightarrow> Genesis" where
  "Default E = \<lparr>
     StateBranchFactor = BranchFactor16 E,
     MinBlockGap = 1000,
     MinEmptyBlockGap = 1000,
     EpochLength = 6,
     MinUnitPrice = [100, 100, 100, 100, 100],
     UnitPriceChangeDenominator = [48, 48, 48, 48, 48],
     WindowTargetUnits = [20000000, 1000, 1000, 1000, 1000],
     MaxBlockUnits = [1800000, 2000, 2000, 2000, 2000],
     FeeMarketMinUnits = 100,
     FeeMarketWindowTargetUnits = 600 * 1024,
     FeeMarketPriceChangeDenominator = 48,
     ValidityWindow = 60 * MillisecondsPerSecond E,
     MaxActionsPerTx = 16,
     MaxOutputsPerAction = 1,
     BaseComputeUnits = 1,
     StorageKeyReadUnits = 5,
     StorageValueReadUnits = 2,
     StorageKeyAllocateUnits = 20,
     StorageValueAllocateUnits = 5,
     StorageKeyWriteUnits = 10,
     StorageValueWriteUnits = 3,
     g_CustomAllocation = [] \<rparr>"

text \<open>\<open>unmarshal\<close> is \<open>json.Unmarshal\<close> into an already filled struct: the fields of the text
  replace the ones there.\<close>

definition Genesis_New ::
    "'x sdk_scheme \<Rightarrow> (bytes \<Rightarrow> Genesis \<Rightarrow> err + Genesis) \<Rightarrow> bytes \<Rightarrow> err + Genesis" where
  "Genesis_New E unmarshal b =
     (let g = Default E in
      if length b > 0 then
        (case unmarshal b g of
           Inl e \<Rightarrow> Inl (Wrap ''failed to unmarshal config %s'' [FHex b] e)
         | Inr g' \<Rightarrow> Inr g')
      else Inr g)"

text \<open>The loop over the allocations, with the supply so far.\<close>

fun load_allocations ::
    "'x sdk_scheme \<Rightarrow> 'm Mutable \<Rightarrow> u64 \<Rightarrow> CustomAllocation list \<Rightarrow> ('m, unit) go" where
  "load_allocations E S supply [] = go_return ()"
| "load_allocations E S supply (alloc # allocs) =
     go_bind (go_lift (of_sum (ParseAddressBech32 E HRP (ca_Address alloc)))) (\<lambda>pk.
     go_bind (go_lift (of_sum (Add64 E supply (ca_Balance alloc)))) (\<lambda>supply.
     go_bind (go_wrap ''addr=%s, bal=%d'' [FStr (ca_Address alloc), FU (ca_Balance alloc)]
       (SetBalance E S pk (ca_Balance alloc))) (\<lambda>_.
     load_allocations E S supply allocs)))"

definition Load :: "'x sdk_scheme \<Rightarrow> 'm Mutable \<Rightarrow> Genesis \<Rightarrow> ('m, unit) go" where
  "Load E S g = (case BranchFactor_Valid E (StateBranchFactor g) of
       Some e \<Rightarrow> go_error e
     | None \<Rightarrow> load_allocations E S 0 (g_CustomAllocation g))"

definition GetStateBranchFactor :: "Genesis \<Rightarrow> nat" where
  "GetStateBranchFactor g = StateBranchFactor g"

section \<open>rules.go\<close>

record Rules =
  r_g :: Genesis
  r_networkID :: u32
  r_chainID :: ID
  r_parsedWhiteListedAddress :: "Address list"

definition Genesis_Rules :: "Genesis \<Rightarrow> i64 \<Rightarrow> u32 \<Rightarrow> ID \<Rightarrow> Address list \<Rightarrow> Rules" where
  "Genesis_Rules g t networkID chainID parsedWhiteListedAddresses =
     \<lparr>r_g = g, r_networkID = networkID, r_chainID = chainID,
      r_parsedWhiteListedAddress = parsedWhiteListedAddresses\<rparr>"

definition Rules_NetworkID :: "Rules \<Rightarrow> u32" where "Rules_NetworkID r = r_networkID r"
definition Rules_ChainID :: "Rules \<Rightarrow> ID" where "Rules_ChainID r = r_chainID r"
definition GetMinBlockGap :: "Rules \<Rightarrow> i64" where "GetMinBlockGap r = MinBlockGap (r_g r)"
definition GetMinEmptyBlockGap :: "Rules \<Rightarrow> i64" where "GetMinEmptyBlockGap r = MinEmptyBlockGap (r_g r)"
definition GetValidityWindow :: "Rules \<Rightarrow> i64" where "GetValidityWindow r = ValidityWindow (r_g r)"
definition GetEpochLength :: "Rules \<Rightarrow> i64" where "GetEpochLength r = EpochLength (r_g r)"
definition GetMaxActionsPerTx :: "Rules \<Rightarrow> u8" where "GetMaxActionsPerTx r = MaxActionsPerTx (r_g r)"
definition GetMaxOutputsPerAction :: "Rules \<Rightarrow> u8" where
  "GetMaxOutputsPerAction r = MaxOutputsPerAction (r_g r)"
definition GetMaxBlockUnits :: "Rules \<Rightarrow> u64 list" where "GetMaxBlockUnits r = MaxBlockUnits (r_g r)"
definition GetBaseComputeUnits :: "Rules \<Rightarrow> u64" where "GetBaseComputeUnits r = BaseComputeUnits (r_g r)"
definition GetSponsorStateKeysMaxChunks :: "Rules \<Rightarrow> u16 list" where
  "GetSponsorStateKeysMaxChunks r = [BalanceChunks]"
definition GetStorageKeyReadUnits :: "Rules \<Rightarrow> u64" where
  "GetStorageKeyReadUnits r = StorageKeyReadUnits (r_g r)"
definition GetStorageValueReadUnits :: "Rules \<Rightarrow> u64" where
  "GetStorageValueReadUnits r = StorageValueReadUnits (r_g r)"
definition GetStorageKeyAllocateUnits :: "Rules \<Rightarrow> u64" where
  "GetStorageKeyAllocateUnits r = StorageKeyAllocateUnits (r_g r)"
definition GetStorageValueAllocateUnits :: "Rules \<Rightarrow> u64" where
  "GetStorageValueAllocateUnits r = StorageValueAllocateUnits (r_g r)"
definition GetStorageKeyWriteUnits :: "Rules \<Rightarrow> u64" where
  "GetStorageKeyWriteUnits r = StorageKeyWriteUnits (r_g r)"
definition GetStorageValueWriteUnits :: "Rules \<Rightarrow> u64" where
  "GetStorageValueWriteUnits r = StorageValueWriteUnits (r_g r)"
definition GetMinUnitPrice :: "Rules \<Rightarrow> u64 list" where "GetMinUnitPrice r = MinUnitPrice (r_g r)"
definition GetUnitPriceChangeDenominator :: "Rules \<Rightarrow> u64 list" where
  "GetUnitPriceChangeDenominator r = UnitPriceChangeDenominator (r_g r)"
definition GetWindowTargetUnits :: "Rules \<Rightarrow> u64 list" where
  "GetWindowTargetUnits r = WindowTargetUnits (r_g r)"
definition GetFeeMarketPriceChangeDenominator :: "Rules \<Rightarrow> u64" where
  "GetFeeMarketPriceChangeDenominator r = FeeMarketPriceChangeDenominator (r_g r)"
definition GetFeeMarketWindowTargetUnits :: "Rules \<Rightarrow> u64" where
  "GetFeeMarketWindowTargetUnits r = FeeMarketWindowTargetUnits (r_g r)"
definition GetFeeMarketMinUnitPrice :: "Rules \<Rightarrow> u64" where
  "GetFeeMarketMinUnitPrice r = FeeMarketMinUnits (r_g r)"

text \<open>The dynamic values \<open>FetchCustom\<close> returns.\<close>

datatype go_any = AnyNil | AnyAddresses "Address list"

definition FetchCustom :: "Rules \<Rightarrow> string \<Rightarrow> go_any \<times> bool" where
  "FetchCustom r s =
     (if s = ''whitelisted.Addresses'' then (AnyAddresses (r_parsedWhiteListedAddress r), False)
      else (AnyNil, False))"

section \<open>Loading the balances\<close>

text \<open>The addresses the allocations parse to.\<close>

definition parsed :: "'x sdk_scheme \<Rightarrow> CustomAllocation \<Rightarrow> Address" where
  "parsed E a = (case ParseAddressBech32 E HRP (ca_Address a) of Inr pk \<Rightarrow> pk | Inl _ \<Rightarrow> [])"

definition supply_of :: "CustomAllocation list \<Rightarrow> nat" where
  "supply_of al = sum_list (map (\<lambda>a. unat (ca_Balance a)) al)"

text \<open>The balances after the allocations: the last allocation of an address counts.\<close>

definition allotted :: "'x sdk_scheme \<Rightarrow> CustomAllocation list \<Rightarrow> (Address \<Rightarrow> nat) \<Rightarrow> Address \<Rightarrow> nat" where
  "allotted E al bal b = (case find (\<lambda>a. parsed E a = b) (rev al) of Some a \<Rightarrow> unat (ca_Balance a) | None \<Rightarrow> bal b)"

lemma allotted_distinct:
  assumes "distinct (map (parsed E) al)" "a \<in> set al"
  shows "allotted E al bal (parsed E a) = unat (ca_Balance a)"
proof -
  obtain c where c: "find (\<lambda>c. parsed E c = parsed E a) (rev al) = Some c"
    using assms(2) by (metis (mono_tags, lifting) find_None_iff2 not_None_eq set_rev)
  then have "c \<in> set al" "parsed E c = parsed E a"
    by (auto simp: find_Some_iff in_set_conv_nth) (metis length_rev nth_mem set_rev in_set_conv_nth)
  then have "c = a" using assms by (metis distinct_map inj_onD)
  with c show ?thesis by (simp add: allotted_def)
qed

context bank
begin

lemma SetBalance_Ok:
  assumes "is_address E a" "SetBalance E S a x m = (Ok u, m')"
  shows "GetValue S m' k = (if k = balance_key a then Inr (be64 x) else GetValue S m k)"
  using assms by (simp add: SetBalance_def BalanceKey_eq setBalance_def go_insert_Ok)

lemma SetBalance_bal:
  assumes "is_address E a" "is_address E b" "SetBalance E S a x m = (Ok u, m')"
  shows "balance_of E S m' b = ((balance_of E S m)(a := unat x)) b"
  using assms by (simp add: balance_of_eq SetBalance_Ok [OF assms(1,3)])

lemma load_allocations_supply:
  "load_allocations E S sofar al m = (Ok u, m') \<Longrightarrow> unat sofar + supply_of al < 2 ^ 64"
proof (induction al arbitrary: sofar m)
  case Nil
  then show ?case using unat_u64_less [of sofar] by (simp add: supply_of_def)
next
  case (Cons a al)
  obtain s' m1 where add: "Add64 E sofar (ca_Balance a) = Inr s'"
    and rest: "load_allocations E S s' al m1 = (Ok u, m')"
    using Cons.prems by (auto simp: go_bind_Ok_iff)
  have "unat s' + supply_of al < 2 ^ 64" using rest by (rule Cons.IH)
  then show ?case by (simp add: Add64_unat [OF add] supply_of_def add.assoc)
qed

lemma load_allocations_bal:
  assumes "load_allocations E S sofar al m = (Ok u, m')" "is_address E b"
    and "\<And>a. a \<in> set al \<Longrightarrow> is_address E (parsed E a)"
  shows "balance_of E S m' b = allotted E al (balance_of E S m) b"
  using assms
proof (induction al arbitrary: sofar m)
  case (Cons a al)
  obtain s' m1 where set: "SetBalance E S (parsed E a) (ca_Balance a) m = (Ok (), m1)"
    and rest: "load_allocations E S s' al m1 = (Ok u, m')"
    using Cons.prems(1) by (auto simp: go_bind_Ok_iff parsed_def)
  have "balance_of E S m' b = allotted E al (balance_of E S m1) b"
    using Cons.prems(2,3) rest by (intro Cons.IH) auto
  moreover have "balance_of E S m1 b = ((balance_of E S m)(parsed E a := unat (ca_Balance a))) b"
    using Cons.prems(3) SetBalance_bal [OF _ Cons.prems(2) set] by simp
  ultimately show ?case by (simp add: allotted_def find_append split: option.splits)
qed (simp add: allotted_def)

end

section \<open>Properties\<close>

text \<open>
  C35: when loading the genesis succeeds, every allocated address holds the last of its allocations and
  every other address what it held before; the sum of all allocations, repeated ones included, fits in
  64 bits, and it is the sum of the allocated balances when no address is allocated twice.
\<close>

theorem genesis_load_balances:
  assumes "bank S E" "Load E S g m = (Ok u, m')"
    and "\<forall>a\<in>set (g_CustomAllocation g). is_address E (parsed E a)"
  shows "(\<forall>b. is_address E b \<longrightarrow> balance_of E S m' b =
        (case find (\<lambda>a. parsed E a = b) (rev (g_CustomAllocation g)) of Some a \<Rightarrow> unat (ca_Balance a) | None \<Rightarrow> balance_of E S m b))
    \<and> supply_of (g_CustomAllocation g) < 2 ^ 64
    \<and> (distinct (map (parsed E) (g_CustomAllocation g)) \<longrightarrow>
        (\<Sum>b\<in>set (map (parsed E) (g_CustomAllocation g)). balance_of E S m' b) = supply_of (g_CustomAllocation g))"
proof (intro conjI impI)
  let ?al = "g_CustomAllocation g"
  have run: "load_allocations E S 0 ?al m = (Ok u, m')"
    using assms(2) by (simp add: Load_def split: option.splits)
  have bal: "balance_of E S m' b = allotted E ?al (balance_of E S m) b" if "is_address E b" for b
    using bank.load_allocations_bal [OF assms(1) run that] assms(3) by blast
  then show "\<forall>b. is_address E b \<longrightarrow> balance_of E S m' b =
      (case find (\<lambda>a. parsed E a = b) (rev ?al) of Some a \<Rightarrow> unat (ca_Balance a) | None \<Rightarrow> balance_of E S m b)"
    by (simp add: allotted_def)
  show "supply_of ?al < 2 ^ 64" using bank.load_allocations_supply [OF assms(1) run] by simp
  assume dist: "distinct (map (parsed E) ?al)"
  have "(\<Sum>b\<in>set (map (parsed E) ?al). balance_of E S m' b) = sum_list (map (balance_of E S m') (map (parsed E) ?al))"
    using dist by (rule sum_list_distinct_conv_sum_set [symmetric])
  also have "\<dots> = supply_of ?al"
    unfolding supply_of_def using assms(3) by (simp add: comp_def bal allotted_distinct [OF dist] cong: map_cong)
  finally show "(\<Sum>b\<in>set (map (parsed E) ?al). balance_of E S m' b) = supply_of ?al" .
qed

definition demo_genesis :: Genesis where
  "demo_genesis = (Default ref)\<lparr>g_CustomAllocation :=
     [\<lparr>ca_Address = ''a'', ca_Balance = 100\<rparr>, \<lparr>ca_Address = ''b'', ca_Balance = 5\<rparr>]\<rparr>"

text \<open>The second example allocates to one address twice.\<close>

definition demo_repeated :: Genesis where
  "demo_repeated = demo_genesis\<lparr>g_CustomAllocation := g_CustomAllocation demo_genesis @ [\<lparr>ca_Address = ''a'', ca_Balance = 7\<rparr>]\<rparr>"

theorem genesis_load_balances_witness:
  "\<exists>m'. Load ref map_store demo_repeated Map.empty = (Ok (), m')
     \<and> balance_of ref map_store m' (parsed ref \<lparr>ca_Address = ''a'', ca_Balance = 100\<rparr>) = 7
     \<and> balance_of ref map_store m' (parsed ref \<lparr>ca_Address = ''b'', ca_Balance = 5\<rparr>) = 5
     \<and> supply_of (g_CustomAllocation demo_repeated) < 2 ^ 64"
proof -
  have len: "length (pad 33 b) = 33" for b by (simp add: pad_def)
  have addr: "parsed ref \<lparr>ca_Address = ''a'', ca_Balance = x\<rparr> = pad 33 [97]"
    "parsed ref \<lparr>ca_Address = ''b'', ca_Balance = x\<rparr> = pad 33 [98]" for x
    by (simp_all add: parsed_def)
  have dist: "pad 33 [97] \<noteq> pad 33 [98]"
    by (simp add: pad_def)
  obtain m' where run: "Load ref map_store demo_repeated Map.empty = (Ok (), m')"
    by (simp add: Load_def demo_repeated_def demo_genesis_def Default_def SetBalance_def ref_bank.BalanceKey_eq len
        setBalance_def go_insert_def go_bind_def go_wrap_def go_lift_def go_return_def map_store_def)
  have "\<forall>a\<in>set (g_CustomAllocation demo_repeated). is_address ref (parsed ref a)"
    by (simp add: demo_repeated_def demo_genesis_def addr len)
  note loaded = genesis_load_balances [OF ref_bank.bank_axioms run this]
  have al: "rev (g_CustomAllocation demo_repeated)
    = [\<lparr>ca_Address = ''a'', ca_Balance = 7\<rparr>, \<lparr>ca_Address = ''b'', ca_Balance = 5\<rparr>, \<lparr>ca_Address = ''a'', ca_Balance = 100\<rparr>]"
    by (simp add: demo_repeated_def demo_genesis_def)
  have "balance_of ref map_store m' (pad 33 [97]) = 7" "balance_of ref map_store m' (pad 33 [98]) = 5"
    using loaded [unfolded al] dist by (simp_all add: addr len)
  with run loaded show ?thesis unfolding addr by blast
qed

end
