(* ===== verification/Seq_Action_Utils.thy ===== *)
theory Seq_Action_Utils
  imports Seq_Rollup_Storage Seq_Genesis
begin

text \<open>
  What the actions share: \<open>src/actions/utils.go\<close> (whitelist, membership, the fund address, the
  authorization check, the epoch of a block), \<open>src/actions/consts.go\<close>, the declaration of the
  state keys an action may touch, and \<open>src/controller/state_manager.go\<close>.
\<close>

section \<open>consts.go\<close>

definition TransferID :: u8 where "TransferID = 0"
definition MsgID :: u8 where "MsgID = 1"
definition AuctionID :: u8 where "AuctionID = 2"

definition TransferComputeUnits :: u64 where "TransferComputeUnits = 1"
definition EpochExitComputeUnits :: u64 where "EpochExitComputeUnits = 10"
definition AuctionComputeUnits :: u64 where "AuctionComputeUnits = 4"
definition MsgComputeUnits :: u64 where "MsgComputeUnits = 15"
definition MaxMemoSize :: nat where "MaxMemoSize = 256"

definition DefaultNMTNamespace :: bytes where "DefaultNMTNamespace = make_bytes 8"

text \<open>\<open>auth.Ed25519ID\<close> and \<open>auth.BLSID\<close>.\<close>

definition Ed25519ID :: u8 where "Ed25519ID = 0"
definition BLSID :: u8 where "BLSID = 1"

section \<open>State keys\<close>

text \<open>\<open>state.Keys\<close>: a map from keys to permissions. In a Go map literal a later entry replaces an
  earlier one with the same key.\<close>

datatype perm = Read | Allocate | Write

definition All :: "perm set" where "All = {Read, Allocate, Write}"

type_synonym Keys = "bytes \<Rightarrow> perm set option"

definition may_write :: "Keys \<Rightarrow> bytes set" where
  "may_write K = {k. \<exists>P. K k = Some P \<and> Write \<in> P}"

section \<open>utils.go\<close>

fun containsAddress :: "Address list \<Rightarrow> Address \<Rightarrow> bool" where
  "containsAddress [] addr = False"
| "containsAddress (a # addrs) addr = (if a = addr then True else containsAddress addrs addr)"

fun contains :: "bytes list \<Rightarrow> bytes \<Rightarrow> bool" where
  "contains [] ns = False"
| "contains (v # arr) ns = (if v = ns then True else contains arr ns)"

text \<open>The type assertion on the dynamic value panics when the value has another type.\<close>

definition isWhiteListed :: "Rules \<Rightarrow> Address \<Rightarrow> bool res" where
  "isWhiteListed rules actor = (case fst (FetchCustom rules ''whitelisted.Addresses'') of
       AnyAddresses whitelistedAddresses \<Rightarrow> Ok (containsAddress whitelistedAddresses actor)
     | AnyNil \<Rightarrow> Panic TypeAssertion)"

definition ArcadiaFundAddress :: "'x sdk_scheme \<Rightarrow> Address" where
  "ArcadiaFundAddress E = fst (ToAddress E ((make_bytes 33)[32 := 0x1]))"

definition authorizationChecks ::
    "('p, 'x) hactions_scheme \<Rightarrow> 'm Mutable \<Rightarrow> Address \<Rightarrow> bytes list \<Rightarrow> bytes \<Rightarrow> ('m, unit) go" where
  "authorizationChecks E S actor namespaces ns =
     go_bind (go_guard (contains namespaces ns) ErrNameSpaceNotRegistered) (\<lambda>_.
     go_bind (GetRollupInfo E S ns) (\<lambda>p.
     go_bind (go_deref p) (\<lambda>info.
     go_guard (ri_AuthoritySEQAddress info = actor) ErrNotAuthorized)))"

text \<open>\<open>uint64(epochLength)\<close> reinterprets the bits; dividing by zero panics.\<close>

definition Epoch :: "u64 \<Rightarrow> i64 \<Rightarrow> u64 res" where
  "Epoch blockHeight epochLength =
     (if epochLength = 0 then Panic DivideByZero else Ok (blockHeight div epochLength))"

section \<open>state\_manager.go\<close>

definition SponsorStateKeys :: "'x sdk_scheme \<Rightarrow> Address \<Rightarrow> Keys res" where
  "SponsorStateKeys E addr = res_bind (BalanceKey E addr) (\<lambda>k. Ok [k \<mapsto> {Read, Write}])"

definition CanDeduct :: "'x sdk_scheme \<Rightarrow> 'm Mutable \<Rightarrow> Address \<Rightarrow> u64 \<Rightarrow> ('m, unit) go" where
  "CanDeduct E S addr amount =
     go_bind (GetBalance E S addr) (\<lambda>bal. go_guard (\<not> bal < amount) ErrInvalidBalance)"

definition Deduct :: "'x sdk_scheme \<Rightarrow> 'm Mutable \<Rightarrow> Address \<Rightarrow> u64 \<Rightarrow> ('m, unit) go" where
  "Deduct E S addr amount = SubBalance E S addr amount"

section \<open>Lemmas\<close>

lemma containsAddress_iff [simp]: "containsAddress addrs a \<longleftrightarrow> a \<in> set addrs"
  by (induction addrs) auto

lemma contains_iff [simp]: "contains arr ns \<longleftrightarrow> ns \<in> set arr"
  by (induction arr) auto

lemma isWhiteListed_eq [simp]:
  "isWhiteListed rules actor = Ok (actor \<in> set (r_parsedWhiteListedAddress rules))"
  by (simp add: isWhiteListed_def FetchCustom_def)

lemma Epoch_Ok_iff: "Epoch h l = Ok e \<longleftrightarrow> l \<noteq> 0 \<and> e = h div l"
  by (auto simp: Epoch_def)

lemma Epoch_not_Error [simp]: "Epoch h l \<noteq> Error e"
  by (simp add: Epoch_def)

lemma reads_only_authorization [simp, intro]: "reads_only (authorizationChecks E S actor nss ns)"
  by (auto simp: authorizationChecks_def intro!: reads_only_bind)

lemma authorization_state: "authorizationChecks E S actor nss ns m = (r, m') \<Longrightarrow> m' = m"
  by (rule reads_only_state [OF reads_only_authorization])

text \<open>The check passes exactly for the recorded authority of a registered namespace.\<close>

lemma authorizationChecks_Ok_iff:
  "authorizationChecks E S actor nss ns m = (Ok u, m') \<longleftrightarrow>
     ns \<in> set nss \<and> m' = m \<and> (\<exists>i. info_of E S m ns = Ok (Some i) \<and> ri_AuthoritySEQAddress i = actor)"
  by (auto simp: authorizationChecks_def go_bind_Ok_iff getters_run)

lemma authorizationChecks_no_panic:
  "info_of E S m ns \<noteq> Ok None \<or> ns \<notin> set nss \<Longrightarrow> \<not> is_panic (fst (authorizationChecks E S actor nss ns m))"
  by (cases "info_of E S m ns")
    (auto simp: authorizationChecks_def go_bind_def getters_run go_defs split: option.splits)

context kv_store
begin

lemma balance_parts_write [writes]:
  "writes_only S K (balance_error E msg b a x)"
  "k \<in> K \<Longrightarrow> writes_only S K (setBalance S k n)"
  unfolding balance_error_def setBalance_def by (intro writes; assumption)+

lemma balance_writes [writes]:
  assumes "\<And>k. BalanceKey E a = Ok k \<Longrightarrow> k \<in> K"
  shows "writes_only S K (SubBalance E S a x)" "writes_only S K (AddBalance E S a x c)"
    "writes_only S K (SetBalance E S a x)"
proof -
  have bind: "writes_only S K (go_bind (getBalance E S a) g)"
    if g: "\<And>k b ex. k \<in> K \<Longrightarrow> writes_only S K (g (k, b, ex))" for g :: "bytes \<times> u64 \<times> bool \<Rightarrow> ('m, unit) go"
  proof (cases "BalanceKey E a")
    case (Ok k)
    have "go_bind (getBalance E S a) g = go_bind (go_get S k) (\<lambda>r.
        go_bind (go_lift (innerGetBalance r)) (\<lambda>(b, ex). g (k, b, ex)))"
      by (simp add: getBalance_def Ok go_bind_assoc split_def)
    then show ?thesis
      using assms [OF Ok] by (simp only:) (intro writes g)
  qed (simp_all add: getBalance_def writes_only_basic)
  show "writes_only S K (SubBalance E S a x)"
    unfolding SubBalance_def by (rule bind) (unfold prod.case, intro writes; assumption)
  show "writes_only S K (AddBalance E S a x c)"
    unfolding AddBalance_def by (rule bind) (unfold prod.case, intro writes; assumption)
  show "writes_only S K (SetBalance E S a x)"
    using assms by (cases "BalanceKey E a")
      (simp_all add: SetBalance_def setBalance_def writes_only_basic writes_only_insert)
qed

end

section \<open>Properties\<close>

context bank
begin

lemma CanDeduct_Ok_iff:
  assumes "is_address E a"
  shows "CanDeduct E S a x m = (Ok (), m') \<longleftrightarrow>
     m' = m \<and> (\<exists>b ex. innerGetBalance (GetValue S m (balance_key a)) = Ok (b, ex) \<and> unat x \<le> unat b)"
  using assms
  by (cases "innerGetBalance (GetValue S m (balance_key a))")
    (auto simp: CanDeduct_def GetBalance_def go_bind_def getBalance_eq go_return_def
      word_less_nat_alt)

end

text \<open>
  C34: the fee check and the fee deduction agree: on a state that accepts writes, the deduction
  succeeds exactly when the check passed on the same state, it then lowers the sponsor's balance
  by the amount and no other balance, and the check itself changes nothing.
\<close>

theorem deduct_iff_can_deduct:
  assumes "bank S E" "kv_total S" "is_address E a" "is_address E b"
  shows "(CanDeduct E S a x m = (Ok (), m)) = (\<exists>m'. Deduct E S a x m = (Ok (), m'))
    \<and> (\<forall>m'. Deduct E S a x m = (Ok (), m') \<longrightarrow>
        balance_of E S m' b = (if b = a then balance_of E S m a - unat x else balance_of E S m b))"
proof
  have acc: "\<exists>m'. go_insert S k v m = (Ok (), m')" "\<exists>m'. go_remove S k m = (Ok (), m')" for k v
    using assms(2) by (rule kv_total.go_insert_accepted, rule kv_total.go_remove_accepted)
  show "(CanDeduct E S a x m = (Ok (), m)) = (\<exists>m'. Deduct E S a x m = (Ok (), m'))"
    using acc assms(3)
    by (auto simp: bank.CanDeduct_Ok_iff [OF assms(1,3)] Deduct_def bank.SubBalance_run [OF assms(1,3)]
        bank.balance_error_iff [OF assms(1,3)] not_less split: res.splits if_splits)
  show "\<forall>m'. Deduct E S a x m = (Ok (), m') \<longrightarrow>
        balance_of E S m' b = (if b = a then balance_of E S m a - unat x else balance_of E S m b)"
    using bank.SubBalance_bal [OF assms(1,3,4)] by (auto simp: Deduct_def)
qed

theorem deduct_iff_can_deduct_witness:
  "(CanDeduct ref map_store alice 30 demo_state = (Ok (), demo_state))
     = (\<exists>m'. Deduct ref map_store alice 30 demo_state = (Ok (), m'))
   \<and> CanDeduct ref map_store alice 30 demo_state = (Ok (), demo_state)"
proof -
  have "CanDeduct ref map_store alice 30 demo_state = (Ok (), demo_state)"
    by (auto simp: ref_bank.CanDeduct_Ok_iff)
  then show ?thesis
    using deduct_iff_can_deduct [OF ref_bank.bank_axioms map_kv.kv_total_axioms, of alice bob 30 demo_state]
    by simp
qed

end
