(* ===== verification/Seq_Transfer.thy ===== *)
theory Seq_Transfer
  imports Seq_Action_Utils
begin

text \<open>
  \<open>src/actions/transfer.go\<close> and \<open>src/actions/msg.go\<close>: the payment action and the action that
  carries a rollup's message. Every method of \<open>chain.Action\<close> is a definition; \<open>Execute\<close> takes
  the rules, the state, the timestamp, the height, the actor and the action's ID as in the code.
\<close>

section \<open>transfer.go\<close>

text \<open>What a function of type \<open>(chain.Action, error)\<close> returns: the action (\<open>None\<close> is nil) and
  the error (\<open>None\<close> is nil).\<close>

type_synonym 'a returned = "'a option \<times> err option"

record Transfer =
  t_To :: Address
  t_Value :: u64
  t_Memo :: bytes

definition Transfer_GetTypeID :: u8 where "Transfer_GetTypeID = TransferID"

definition Transfer_StateKeys :: "'x sdk_scheme \<Rightarrow> Transfer \<Rightarrow> Address \<Rightarrow> ID \<Rightarrow> Keys res" where
  "Transfer_StateKeys E t actor aid =
     res_bind (BalanceKey E actor) (\<lambda>k1.
     res_bind (BalanceKey E (t_To t)) (\<lambda>k2.
     Ok [k1 \<mapsto> {Read, Write}, k2 \<mapsto> All]))"

definition Transfer_StateKeysMaxChunks :: "u16 list" where
  "Transfer_StateKeysMaxChunks = [BalanceChunks, BalanceChunks]"

definition Transfer_Execute ::
    "'x sdk_scheme \<Rightarrow> 'm Mutable \<Rightarrow> Transfer \<Rightarrow> Rules \<Rightarrow> i64 \<Rightarrow> u64 \<Rightarrow> Address \<Rightarrow> ID \<Rightarrow> ('m, bytes list) go" where
  "Transfer_Execute E S t rules ts hght actor aid =
     (if t_Value t = 0 then go_error ErrOutputValueZero
      else if length (t_Memo t) > MaxMemoSize then go_error ErrOutputMemoTooLarge
      else
        go_bind (SubBalance E S actor (t_Value t)) (\<lambda>_.
        go_bind (AddBalance E S (t_To t) (t_Value t) True) (\<lambda>_.
        go_return [])))"

definition Transfer_ComputeUnits :: u64 where "Transfer_ComputeUnits = TransferComputeUnits"

definition Transfer_Size :: "'x sdk_scheme \<Rightarrow> Transfer \<Rightarrow> int" where
  "Transfer_Size E t = int (AddressLen E) + int (Uint64Len E) + BytesLen E (t_Memo t)"

definition Transfer_Marshal :: "('p, 'x) codec_scheme \<Rightarrow> Transfer \<Rightarrow> 'p \<Rightarrow> 'p" where
  "Transfer_Marshal E t p =
     (let p = PackAddress E (t_To t) p;
          p = PackUint64 E (t_Value t) p in
      PackBytes E (t_Memo t) p)"

definition UnmarshalTransfer :: "('p, 'x) codec_scheme \<Rightarrow> 'p \<Rightarrow> Transfer returned \<times> 'p" where
  "UnmarshalTransfer E p =
     (case UnpackAddress E p of (to, p) \<Rightarrow>
      case UnpackUint64 E True p of (value, p) \<Rightarrow>
      case UnpackBytes E (int MaxMemoSize) False p of (memo, p) \<Rightarrow>
      ((Some \<lparr>t_To = to, t_Value = value, t_Memo = memo\<rparr>, packer_Err E p), p))"

definition Transfer_ValidRange :: "i64 \<times> i64" where "Transfer_ValidRange = (-1, -1)"

definition Transfer_NMTNamespace :: bytes where "Transfer_NMTNamespace = DefaultNMTNamespace"

definition Transfer_UseFeeMarket :: bool where "Transfer_UseFeeMarket = False"

section \<open>msg.go\<close>

record SequencerMsg =
  sm_ChainID :: bytes
  sm_Data :: bytes
  sm_FromAddress :: Address
  sm_RelayerID :: i64

definition SequencerMsg_GetTypeID :: u8 where "SequencerMsg_GetTypeID = MsgID"

definition SequencerMsg_StateKeys :: "Address \<Rightarrow> ID \<Rightarrow> Keys res" where
  "SequencerMsg_StateKeys actor aid = Ok Map.empty"

definition SequencerMsg_StateKeysMaxChunks :: "u16 list" where
  "SequencerMsg_StateKeysMaxChunks = []"

definition SequencerMsg_Execute ::
    "'m Mutable \<Rightarrow> SequencerMsg \<Rightarrow> Rules \<Rightarrow> i64 \<Rightarrow> u64 \<Rightarrow> Address \<Rightarrow> ID \<Rightarrow> ('m, bytes list) go" where
  "SequencerMsg_Execute S msg rules ts hght actor aid = go_return []"

definition SequencerMsg_ComputeUnits :: u64 where "SequencerMsg_ComputeUnits = MsgComputeUnits"

definition SequencerMsg_Size :: "'x sdk_scheme \<Rightarrow> SequencerMsg \<Rightarrow> int" where
  "SequencerMsg_Size E msg =
     BytesLen E (sm_ChainID msg) + BytesLen E (sm_Data msg) + int (AddressLen E) + int (IntLen E)"

definition SequencerMsg_Marshal :: "('p, 'x) codec_scheme \<Rightarrow> SequencerMsg \<Rightarrow> 'p \<Rightarrow> 'p" where
  "SequencerMsg_Marshal E msg p =
     (let p = PackAddress E (sm_FromAddress msg) p;
          p = PackBytes E (sm_Data msg) p;
          p = PackBytes E (sm_ChainID msg) p in
      PackInt E (sm_RelayerID msg) p)"

definition UnmarshalSequencerMsg :: "('p, 'x) codec_scheme \<Rightarrow> 'p \<Rightarrow> SequencerMsg returned \<times> 'p" where
  "UnmarshalSequencerMsg E p =
     (case UnpackAddress E p of (fromA, p) \<Rightarrow>
      case UnpackBytes E (-1) True p of (data, p) \<Rightarrow>
      case UnpackBytes E (-1) True p of (chain, p) \<Rightarrow>
      case UnpackInt E False p of (relayer, p) \<Rightarrow>
      ((Some \<lparr>sm_ChainID = chain, sm_Data = data, sm_FromAddress = fromA, sm_RelayerID = relayer\<rparr>,
        packer_Err E p), p))"

definition SequencerMsg_ValidRange :: "i64 \<times> i64" where "SequencerMsg_ValidRange = (-1, -1)"

definition SequencerMsg_NMTNamespace :: "SequencerMsg \<Rightarrow> bytes" where
  "SequencerMsg_NMTNamespace msg = sm_ChainID msg"

definition SequencerMsg_UseFeeMarket :: bool where "SequencerMsg_UseFeeMarket = True"

section \<open>Lemmas\<close>

lemma Transfer_Execute_Ok_iff:
  "Transfer_Execute E S t rules ts h actor aid m = (Ok r, m') \<longleftrightarrow>
     t_Value t \<noteq> 0 \<and> length (t_Memo t) \<le> 256 \<and> r = [] \<and>
     go_bind (SubBalance E S actor (t_Value t)) (\<lambda>_. AddBalance E S (t_To t) (t_Value t) True) m = (Ok (), m')"
  by (auto simp: Transfer_Execute_def MaxMemoSize_def go_bind_Ok_iff)

context kv_store
begin

lemma Transfer_Execute_writes [writes]:
  assumes "\<And>k. BalanceKey E actor = Ok k \<Longrightarrow> k \<in> K" "\<And>k. BalanceKey E (t_To t) = Ok k \<Longrightarrow> k \<in> K"
  shows "writes_only S K (Transfer_Execute E S t rules ts h actor aid)"
  unfolding Transfer_Execute_def by (intro writes assms)

end

context packer
begin

lemma Transfer_packs:
  "packs E (Transfer_Marshal E t) (t_To t @ enc_u64 (t_Value t) @ enc_bytes (t_Memo t))"
  unfolding Transfer_Marshal_def Let_def append_assoc [symmetric]
  by (intro packs_comp packs_basic)

lemma Transfer_unpacks:
  assumes "length (t_To t) = AddressLen E" "t_To t \<noteq> make_bytes (AddressLen E)" "t_Value t \<noteq> 0"
    and "length (t_Memo t) \<le> 256"
  shows "unpacks E left (UnmarshalTransfer E) (Some t, None)
    (t_To t @ enc_u64 (t_Value t) @ enc_bytes (t_Memo t) @ [])"
  unfolding UnmarshalTransfer_def using assms
  by (intro unpacks_steps unpacks_return) (simp_all add: MaxMemoSize_def)

lemma SequencerMsg_packs:
  "packs E (SequencerMsg_Marshal E msg)
     (sm_FromAddress msg @ enc_bytes (sm_Data msg) @ enc_bytes (sm_ChainID msg) @ enc_int (sm_RelayerID msg))"
  unfolding SequencerMsg_Marshal_def Let_def append_assoc [symmetric]
  by (intro packs_comp packs_basic)

lemma SequencerMsg_unpacks:
  assumes "length (sm_FromAddress msg) = AddressLen E" "sm_FromAddress msg \<noteq> make_bytes (AddressLen E)"
    and "sm_Data msg \<noteq> []" "sm_ChainID msg \<noteq> []" "length (sm_Data msg) < 2 ^ 31" "length (sm_ChainID msg) < 2 ^ 31"
    and "unat (sm_RelayerID msg) < 2 ^ 31"
  shows "unpacks E left (UnmarshalSequencerMsg E) (Some msg, None)
    (sm_FromAddress msg @ enc_bytes (sm_Data msg) @ enc_bytes (sm_ChainID msg) @ enc_int (sm_RelayerID msg) @ [])"
  unfolding UnmarshalSequencerMsg_def using assms
  by (intro unpacks_steps unpacks_return) simp_all

end

section \<open>Properties\<close>

text \<open>The specification of a payment on a ledger: which error, or which ledger.\<close>

definition transfer_spec :: "(Address \<Rightarrow> nat) \<Rightarrow> Address \<Rightarrow> Transfer \<Rightarrow> err + (Address \<Rightarrow> nat)" where
  "transfer_spec bal actor t =
     (let debited = bal(actor := bal actor - unat (t_Value t)) in
      if t_Value t = 0 then Inl ErrOutputValueZero
      else if 256 < length (t_Memo t) then Inl ErrOutputMemoTooLarge
      else if bal actor < unat (t_Value t) then Inl ErrInvalidBalance
      else if 2 ^ 64 \<le> debited (t_To t) + unat (t_Value t) then Inl ErrInvalidBalance
      else Inr (debited(t_To t := debited (t_To t) + unat (t_Value t))))"

text \<open>The payment lemmas of the ledger, for the model of \<open>balance.go\<close>.\<close>

context bank
begin

lemmas payment_bal = move_bal
lemmas payment_funds = move_funds
lemmas payment_conserves = move_conserves

end

context total_bank
begin

lemma Transfer_Execute_pays:
  assumes "readable E S m" "is_address E actor" "is_address E (t_To t)"
    and "transfer_spec (balance_of E S m) actor t = Inr bal"
  shows "\<exists>m'. Transfer_Execute E S t rules ts h actor aid m = (Ok [], m') \<and> readable E S m'
        \<and> (\<forall>a. is_address E a \<longrightarrow> balance_of E S m' a = bal a)"
proof -
  let ?x = "t_Value t" and ?b = "balance_of E S m"
  have ok: "?x \<noteq> 0" "length (t_Memo t) \<le> 256" "unat ?x \<le> ?b actor"
    and fits: "(?b(actor := ?b actor - unat ?x)) (t_To t) + unat ?x < 2 ^ 64"
    and bal: "bal = ?b(actor := ?b actor - unat ?x, t_To t := (?b(actor := ?b actor - unat ?x)) (t_To t) + unat ?x)"
    using assms(4) by (auto simp: transfer_spec_def Let_def split: if_splits)
  obtain m' where m': "go_bind (SubBalance E S actor ?x) (\<lambda>_. AddBalance E S (t_To t) ?x True) m = (Ok (), m')"
    "readable E S m'"
    using move_total [OF assms(2,3,1) ok(3) fits] by blast
  have "balance_of E S m' a = bal a" if "is_address E a" for a
    using move_bal [OF assms(2,3) that m'(1)] bal by simp
  with ok m' show ?thesis by (auto simp: Transfer_Execute_Ok_iff)
qed

lemma Transfer_Execute_refuses:
  assumes "readable E S m" "is_address E actor" "is_address E (t_To t)"
    and "transfer_spec (balance_of E S m) actor t = Inl e"
  shows "\<exists>e' m'. Transfer_Execute E S t rules ts h actor aid m = (Error e', m') \<and> errors_Is e' e"
proof (cases "t_Value t = 0 \<or> 256 < length (t_Memo t)")
  case True
  then show ?thesis
    using assms(4) by (auto simp: transfer_spec_def Transfer_Execute_def MaxMemoSize_def)
next
  case False
  let ?x = "t_Value t" and ?b = "balance_of E S m"
  have e: "e = ErrInvalidBalance"
    and bad: "\<not> (unat ?x \<le> ?b actor \<and> (?b(actor := ?b actor - unat ?x)) (t_To t) + unat ?x < 2 ^ 64)"
    using assms(4) False by (auto simp: transfer_spec_def Let_def split: if_splits)
  have run: "Transfer_Execute E S t rules ts h actor aid =
      go_bind (go_bind (SubBalance E S actor ?x) (\<lambda>_. AddBalance E S (t_To t) ?x True)) (\<lambda>_. go_return [])"
    using False by (simp add: Transfer_Execute_def MaxMemoSize_def go_bind_assoc)
  obtain e' m' where "go_bind (SubBalance E S actor ?x) (\<lambda>_. AddBalance E S (t_To t) ?x True) m = (Error e', m')"
    "errors_Is e' ErrInvalidBalance"
    using move_total_fails [OF assms(2,3,1) bad] by blast
  then show ?thesis unfolding run e by (metis go_bind_run(2))
qed

end

text \<open>
  C6: a transfer refines its specification on the ledger, on every branch: on a state that
  accepts writes and whose balance records are readable it returns (it never panics), it
  succeeds exactly when the specification gives a new ledger and then the balances are that
  ledger, and otherwise it fails with the error of the specification.
\<close>

theorem transfer_refines_spec:
  assumes "total_bank S E" "readable E S m" "is_address E actor" "is_address E (t_To t)"
  shows "case transfer_spec (balance_of E S m) actor t of
      Inr bal \<Rightarrow> \<exists>m'. Transfer_Execute E S t rules ts h actor aid m = (Ok [], m') \<and> readable E S m'
        \<and> (\<forall>a. is_address E a \<longrightarrow> balance_of E S m' a = bal a)
    | Inl e \<Rightarrow> \<exists>e' m'. Transfer_Execute E S t rules ts h actor aid m = (Error e', m') \<and> errors_Is e' e"
proof (cases "transfer_spec (balance_of E S m) actor t")
  case (Inl e)
  from total_bank.Transfer_Execute_refuses [OF assms this] show ?thesis by (simp add: Inl)
next
  case (Inr bal)
  from total_bank.Transfer_Execute_pays [OF assms this] show ?thesis by (simp add: Inr)
qed

definition demo_transfer :: Transfer where
  "demo_transfer = \<lparr>t_To = bob, t_Value = 30, t_Memo = [1, 2]\<rparr>"

definition demo_rules :: Rules where
  "demo_rules = Genesis_Rules (Default ref) 0 1 (make_bytes 32) [alice]"

lemma demo_balance_of [simp]:
  "balance_of ref map_store demo_state alice = 100" "balance_of ref map_store demo_state bob = 5"
  by (simp_all add: ref_bank.balance_of_eq)

lemma demo_readable: "readable ref map_store demo_state" "no_zero_records ref map_store demo_state"
  by (auto simp: readable_def no_zero_records_def demo_state_def map_store_def innerGetBalance_def)

lemma demo_not_empty [simp]: "alice \<noteq> make_bytes 33" "bob \<noteq> make_bytes 33"
proof -
  have "hd (make_bytes 33) = 0" "hd alice = 1" "hd bob = 1" by (simp_all add: make_bytes_def alice_def bob_def)
  then show "alice \<noteq> make_bytes 33" "bob \<noteq> make_bytes 33" by (metis zero_neq_one)+
qed

theorem transfer_refines_spec_witness:
  "\<exists>m'. Transfer_Execute ref map_store demo_transfer demo_rules 0 0 alice [] demo_state = (Ok [], m')
     \<and> balance_of ref map_store m' alice = 70 \<and> balance_of ref map_store m' bob = 35"
  using transfer_refines_spec [OF ref_total.total_bank_axioms demo_readable(1), of alice demo_transfer demo_rules 0 0 "[]"]
  by (auto simp: demo_transfer_def transfer_spec_def)

text \<open>
  A successful transfer takes the amount from the actor and gives it to the recipient, changes
  no other balance, and neither creates nor destroys funds over any finite set of addresses with
  both parties, also when the actor pays itself.
\<close>

lemma transfer_conserves_funds:
  assumes "bank S E" "is_address E actor" "is_address E (t_To t)" "\<forall>a\<in>A. is_address E a"
    and "finite A" "actor \<in> A" "t_To t \<in> A"
    and "Transfer_Execute E S t rules ts h actor aid m = (Ok r, m')"
  shows "unat (t_Value t) \<le> balance_of E S m actor
    \<and> (\<Sum>a\<in>A. balance_of E S m' a) = (\<Sum>a\<in>A. balance_of E S m a)
    \<and> (actor \<noteq> t_To t \<longrightarrow> balance_of E S m' actor = balance_of E S m actor - unat (t_Value t)
        \<and> balance_of E S m' (t_To t) = balance_of E S m (t_To t) + unat (t_Value t))
    \<and> (\<forall>a\<in>A - {actor, t_To t}. balance_of E S m' a = balance_of E S m a)"
proof -
  have mv: "go_bind (SubBalance E S actor (t_Value t)) (\<lambda>_. AddBalance E S (t_To t) (t_Value t) True) m = (Ok (), m')"
    using assms(8) by (simp add: Transfer_Execute_Ok_iff)
  have bal: "balance_of E S m' a = ((balance_of E S m)(actor := balance_of E S m actor - unat (t_Value t),
      t_To t := ((balance_of E S m)(actor := balance_of E S m actor - unat (t_Value t))) (t_To t) + unat (t_Value t))) a"
    if "is_address E a" for a
    using bank.payment_bal [OF assms(1-3) that mv] .
  show ?thesis
    using bank.payment_funds [OF assms(1,2) mv] bank.payment_conserves [OF assms(1,5-7) _ mv] assms(2-4)
    by (auto simp: bal)
qed

lemma transfer_conserves_funds_example:
  "\<exists>m'. Transfer_Execute ref map_store demo_transfer demo_rules 0 0 alice [] demo_state = (Ok [], m')
     \<and> (\<Sum>a\<in>{alice, bob}. balance_of ref map_store m' a) = 105
     \<and> balance_of ref map_store m' alice = 70 \<and> balance_of ref map_store m' bob = 35"
proof -
  have "transfer_spec (balance_of ref map_store demo_state) alice demo_transfer
      = Inr ((balance_of ref map_store demo_state)(alice := 70, bob := 35))"
    by (simp add: demo_transfer_def transfer_spec_def)
  then obtain m' where "Transfer_Execute ref map_store demo_transfer demo_rules 0 0 alice [] demo_state = (Ok [], m')"
    using ref_total.Transfer_Execute_pays [OF demo_readable(1), of alice demo_transfer _ demo_rules 0 0 "[]"]
    by (simp add: demo_transfer_def) blast
  with transfer_conserves_funds [OF ref_bank.bank_axioms _ _ _ _ _ _ this, of "{alice, bob}"] show ?thesis
    by (simp add: demo_transfer_def)
qed

lemma Transfer_Execute_funded:
  assumes "total_bank S E" "readable E S m" "is_address E actor" "is_address E (t_To t)"
    and "finite A" "actor \<in> A" "t_To t \<in> A" "(\<Sum>a\<in>A. balance_of E S m a) < 2 ^ 64"
    and "t_Value t \<noteq> 0" "length (t_Memo t) \<le> 256"
  shows "(\<exists>m'. Transfer_Execute E S t rules ts h actor aid m = (Ok [], m')) =
    (unat (t_Value t) \<le> balance_of E S m actor)"
proof
  assume "\<exists>m'. Transfer_Execute E S t rules ts h actor aid m = (Ok [], m')"
  then obtain m' where "go_bind (SubBalance E S actor (t_Value t)) (\<lambda>_. AddBalance E S (t_To t) (t_Value t) True) m = (Ok (), m')"
    by (auto simp: Transfer_Execute_Ok_iff)
  with bank.payment_funds [OF total_bank.axioms(1) [OF assms(1)] assms(3)]
  show "unat (t_Value t) \<le> balance_of E S m actor" .
next
  let ?b = "balance_of E S m" and ?x = "unat (t_Value t)"
  assume le: "?x \<le> ?b actor"
  have "(?b(actor := ?b actor - ?x)) (t_To t) + ?x \<le> (\<Sum>a\<in>{actor, t_To t}. ?b a)"
    using le by (cases "actor = t_To t") auto
  also have "\<dots> \<le> (\<Sum>a\<in>A. ?b a)"
    using assms(5-7) by (intro sum_mono2) auto
  finally have "(?b(actor := ?b actor - ?x)) (t_To t) + ?x < 2 ^ 64" using assms(8) by simp
  then obtain bal where "transfer_spec ?b actor t = Inr bal"
    using le assms(9,10) by (auto simp: transfer_spec_def not_less [symmetric])
  from total_bank.Transfer_Execute_pays [OF assms(1-4) this]
  show "\<exists>m'. Transfer_Execute E S t rules ts h actor aid m = (Ok [], m')" by blast
qed

text \<open>
  When the funds of some finite set of addresses with both parties together fit in 64 bits (as
  they do from genesis on), a transfer with a non-zero amount and a memo of at most 256 bytes
  succeeds exactly when the actor has the funds: the recipient's balance cannot overflow.
\<close>

lemma transfer_succeeds_iff_funded:
  assumes "total_bank S E" "readable E S m" "is_address E actor" "is_address E (t_To t)"
    and "finite A" "actor \<in> A" "t_To t \<in> A" "(\<Sum>a\<in>A. balance_of E S m a) < 2 ^ 64"
    and "t_Value t \<noteq> 0" "length (t_Memo t) \<le> 256"
  shows "(\<exists>m'. Transfer_Execute E S t rules ts h actor aid m = (Ok [], m')) =
    (unat (t_Value t) \<le> balance_of E S m actor)"
  using assms by (rule Transfer_Execute_funded)

lemma transfer_succeeds_iff_funded_example:
  "(\<exists>m'. Transfer_Execute ref map_store demo_transfer demo_rules 0 0 alice [] demo_state = (Ok [], m'))
   \<and> \<not> (\<exists>m'. Transfer_Execute ref map_store (demo_transfer\<lparr>t_Value := 101\<rparr>) demo_rules 0 0 alice [] demo_state = (Ok [], m'))"
  using transfer_succeeds_iff_funded [OF ref_total.total_bank_axioms demo_readable(1), of alice _ "{alice, bob}" demo_rules 0 0 "[]"]
  by (simp add: demo_transfer_def)

text \<open>
  No transfer, successful or not, leaves a balance record that holds zero: the record of an
  account that is emptied is removed.
\<close>

lemma transfer_leaves_no_zero_record:
  assumes "bank S E" "is_address E actor" "is_address E (t_To t)" "no_zero_records E S m"
    and "Transfer_Execute E S t rules ts h actor aid m = (r, m')"
  shows "no_zero_records E S m'"
proof (cases "t_Value t = 0 \<or> MaxMemoSize < length (t_Memo t)")
  case True
  then show ?thesis using assms(4,5) by (auto simp: Transfer_Execute_def split: if_splits)
next
  case False
  obtain r1 m1 where s: "SubBalance E S actor (t_Value t) m = (r1, m1)" by fastforce
  have nz: "no_zero_records E S m1"
    using bank.no_zero_SubBalance [OF assms(1,2) s assms(4)] .
  obtain r2 m2 where a: "AddBalance E S (t_To t) (t_Value t) True m1 = (r2, m2)" by fastforce
  have "no_zero_records E S m2"
    using bank.no_zero_AddBalance [OF assms(1,3) a nz] False by simp
  then show ?thesis
    using assms(5) False s a nz
    by (cases r1; cases r2) (auto simp: Transfer_Execute_def go_bind_def go_return_def)
qed

lemma transfer_leaves_no_zero_record_example:
  "no_zero_records ref map_store
     (snd (Transfer_Execute ref map_store (demo_transfer\<lparr>t_Value := 100\<rparr>) demo_rules 0 0 alice [] demo_state))"
  by (rule transfer_leaves_no_zero_record [OF ref_bank.bank_axioms, of alice "demo_transfer\<lparr>t_Value := 100\<rparr>"])
    (auto simp: demo_readable demo_transfer_def intro: prod.collapse [symmetric])

text \<open>
  The memo limit and the non-zero amount are enforced at both ends: bytes that encode a zero
  amount or a memo of more than 256 bytes are refused by the unmarshaller, and such a transfer
  is refused by \<open>Execute\<close> with its own error before any write.
\<close>

lemma transfer_invalid_refused:
  assumes "packer E left enc_u64 enc_int enc_bytes"
    and "is_address E (t_To t)" "t_To t \<noteq> make_bytes (AddressLen E)" "length (t_Memo t) < 2 ^ 31"
    and "t_Value t = 0 \<or> 256 < length (t_Memo t)"
    and "packer_Err E p = None" "left p = t_To t @ enc_u64 (t_Value t) @ enc_bytes (t_Memo t)"
  shows "snd (fst (UnmarshalTransfer E p)) \<noteq> None
    \<and> Transfer_Execute E S t rules ts h actor aid m =
       (Error (if t_Value t = 0 then ErrOutputValueZero else ErrOutputMemoTooLarge), m)"
proof -
  obtain p1 where p1: "UnpackAddress E p = (t_To t, p1)" "packer_Err E p1 = None"
    "left p1 = enc_u64 (t_Value t) @ enc_bytes (t_Memo t)"
    using packer.unpack_address [OF assms(1,6,7,2,3)] by blast
  have "packer_Err E (snd (UnpackBytes E 256 False (snd (UnpackUint64 E True p1)))) \<noteq> None"
  proof (cases "t_Value t = 0")
    case True
    then obtain p2 e where "UnpackUint64 E True p1 = (0, p2)" "packer_Err E p2 = Some e"
      using packer.unpack_u64_zero [OF assms(1) p1(2)] p1(3) by auto
    then show ?thesis using packer.error_stays [OF assms(1)] by simp
  next
    case False
    then obtain p2 where "UnpackUint64 E True p1 = (t_Value t, p2)" "packer_Err E p2 = None" "left p2 = enc_bytes (t_Memo t)"
      using packer.unpack_u64 [OF assms(1) p1(2,3), of True] by auto
    moreover have "256 < int (length (t_Memo t))" using False assms(5) by simp
    ultimately show ?thesis
      using packer.unpack_bytes_long [OF assms(1), of p2 "t_Memo t" "[]" 256 False] assms(4) by auto
  qed
  then show ?thesis
    using assms(5) p1(1)
    by (auto simp: UnmarshalTransfer_def MaxMemoSize_def Transfer_Execute_def go_error_def split: prod.splits)
qed

lemma transfer_invalid_refused_example:
  "snd (fst (UnmarshalTransfer ref (NewReader ref (bob @ be64 0 @ rp_enc_bytes [1, 2]) 1000))) \<noteq> None
   \<and> Transfer_Execute ref map_store (demo_transfer\<lparr>t_Value := 0\<rparr>) demo_rules 0 0 alice [] demo_state
      = (Error ErrOutputValueZero, demo_state)"
  using transfer_invalid_refused [OF ref_packer.packer_axioms, of "demo_transfer\<lparr>t_Value := 0\<rparr>"
      "NewReader ref (bob @ be64 0 @ rp_enc_bytes [1, 2]) 1000" map_store demo_rules 0 0 alice "[]" demo_state]
  by (simp add: demo_transfer_def r_reader_def rp_enc_bytes_def)

end
