(* ===== verification/Seq_Auction.thy ===== *)
theory Seq_Auction
  imports Seq_Sha256 Seq_Transfer
begin

text \<open>
  \<open>src/actions/auction.go\<close>: the bid for the right to build the blocks of the next epoch. A
  whitelisted actor submits a bid the builder signed; the price moves from the builder to the
  fund address and the bid is stored under the epoch.
\<close>

section \<open>Definitions\<close>

record AuctionInfo =
  ai_EpochNumber :: u64
  ai_BidPrice :: u64
  ai_BuilderSEQAddress :: Address

definition HashAuctionInfo :: "AuctionInfo \<Rightarrow> err + bytes" where
  "HashAuctionInfo info =
     (let msg = be64 (ai_EpochNumber info);
          msg = msg @ be64 (ai_BidPrice info);
          msg = msg @ ai_BuilderSEQAddress info in
      Inr (sha256_Sum256 msg))"

definition AuctionInfo_Marshal :: "('p, 'x) codec_scheme \<Rightarrow> AuctionInfo \<Rightarrow> 'p \<Rightarrow> 'p" where
  "AuctionInfo_Marshal E info p =
     (let p = PackUint64 E (ai_EpochNumber info) p;
          p = PackUint64 E (ai_BidPrice info) p in
      PackAddress E (ai_BuilderSEQAddress info) p)"

definition UnmarshalAuctionInfo :: "('p, 'x) codec_scheme \<Rightarrow> 'p \<Rightarrow> AuctionInfo returned \<times> 'p" where
  "UnmarshalAuctionInfo E p =
     (case UnpackUint64 E True p of (epoch, p) \<Rightarrow>
      case UnpackUint64 E True p of (bid, p) \<Rightarrow>
      case UnpackAddress E p of (addr, p) \<Rightarrow>
      (case packer_Err E p of
         Some e \<Rightarrow> ((None, Some e), p)
       | None \<Rightarrow> ((Some \<lparr>ai_EpochNumber = epoch, ai_BidPrice = bid, ai_BuilderSEQAddress = addr\<rparr>, None), p)))"

record Auction =
  au_AuctionInfo :: AuctionInfo
  au_BuilderPublicKey :: bytes
  au_BuilderSignature :: bytes

definition Auction_GetTypeID :: u8 where "Auction_GetTypeID = AuctionID"

definition Auction_StateKeys :: "('p, 'x) hactions_scheme \<Rightarrow> Auction \<Rightarrow> Address \<Rightarrow> ID \<Rightarrow> Keys res" where
  "Auction_StateKeys E a actor aid =
     res_bind (BalanceKey E (ai_BuilderSEQAddress (au_AuctionInfo a))) (\<lambda>k1.
     res_bind (BalanceKey E (ArcadiaFundAddress E)) (\<lambda>k2.
     Ok [k1 \<mapsto> {Read, Write}, k2 \<mapsto> All,
         ArcadiaBidKey E (ai_EpochNumber (au_AuctionInfo a)) \<mapsto> {Write, Allocate}]))"

definition Auction_StateKeysMaxChunks :: "('p, 'x) hactions_scheme \<Rightarrow> u16 list" where
  "Auction_StateKeysMaxChunks E = [BalanceChunks, BalanceChunks, EpochExitsChunks E]"

definition Auction_Execute ::
    "('p, 'pk, 'sg, 'sk, 'x) crypto_scheme \<Rightarrow> 'm Mutable \<Rightarrow> Auction \<Rightarrow> Rules \<Rightarrow> i64 \<Rightarrow> u64 \<Rightarrow> Address \<Rightarrow> ID
      \<Rightarrow> ('m, bytes list) go" where
  "Auction_Execute E S a rules ts hght actor aid =
     (let info = au_AuctionInfo a in
     go_bind (go_lift (isWhiteListed rules actor)) (\<lambda>listed.
     go_bind (go_guard listed ErrNotWhiteListed) (\<lambda>_.
     go_bind (go_lift (Epoch hght (GetEpochLength rules))) (\<lambda>epoch.
     go_bind (go_guard (\<not> ai_EpochNumber info \<noteq> epoch + 1)
       (Errorf ''epoch number is not valid, expected: %d, actual: %d'' [FU (epoch + 1), FU (ai_EpochNumber info)])) (\<lambda>_.
     go_bind (go_wrap ''failed to parse public key'' []
       (go_lift (of_sum (bls_PublicKeyFromBytes E (au_BuilderPublicKey a))))) (\<lambda>pubkey.
     go_bind (case HashAuctionInfo info of
         Inl e \<Rightarrow> go_error (Errorf ''unable to hash auction info'' [])
       | Inr digest \<Rightarrow> go_return digest) (\<lambda>digest.
     go_bind (go_wrap ''failed to parse signature'' []
       (go_lift (of_sum (bls_SignatureFromBytes E (au_BuilderSignature a))))) (\<lambda>sig.
     go_bind (go_guard (bls_Verify E digest pubkey sig) ErrInvalidBidderSignature) (\<lambda>_.
     let builderSEQAddress = CreateAddress E BLSID (ToID E (au_BuilderPublicKey a)) in
     go_bind (go_guard (\<not> builderSEQAddress \<noteq> ai_BuilderSEQAddress info) ErrParsedBuilderSEQAddressMismatch) (\<lambda>_.
     go_bind (SubBalance E S builderSEQAddress (ai_BidPrice info)) (\<lambda>_.
     go_bind (AddBalance E S (ArcadiaFundAddress E) (ai_BidPrice info) True) (\<lambda>_.
     go_bind (StoreArcadiaBidInfo E S (ai_EpochNumber info) (ai_BidPrice info)
       (au_BuilderPublicKey a) (au_BuilderSignature a)) (\<lambda>_.
     go_return [])))))))))))))"

definition Auction_ComputeUnits :: u64 where "Auction_ComputeUnits = AuctionComputeUnits"

definition Auction_Size :: "'x sdk_scheme \<Rightarrow> int" where
  "Auction_Size E = 2 * int (Uint64Len E) + int (bls_PublicKeyLen E) + int (bls_SignatureLen E) + int (AddressLen E)"

definition Auction_Marshal :: "('p, 'x) codec_scheme \<Rightarrow> Auction \<Rightarrow> 'p \<Rightarrow> 'p" where
  "Auction_Marshal E a p =
     (let p = AuctionInfo_Marshal E (au_AuctionInfo a) p;
          p = PackBytes E (au_BuilderPublicKey a) p in
      PackBytes E (au_BuilderSignature a) p)"

definition UnmarshalAuction :: "('p, 'x) codec_scheme \<Rightarrow> 'p \<Rightarrow> Auction returned \<times> 'p" where
  "UnmarshalAuction E p =
     (case UnmarshalAuctionInfo E p of (r, p) \<Rightarrow>
      (case r of
         (Some info, None) \<Rightarrow>
           (case UnpackBytes E 48 True p of (pk, p) \<Rightarrow>
            case UnpackBytes E 96 True p of (sig, p) \<Rightarrow>
            ((Some \<lparr>au_AuctionInfo = info, au_BuilderPublicKey = pk, au_BuilderSignature = sig\<rparr>, packer_Err E p), p))
       | (_, e) \<Rightarrow> ((None, e), p)))"

definition Auction_ValidRange :: "i64 \<times> i64" where "Auction_ValidRange = (-1, -1)"

definition Auction_NMTNamespace :: bytes where "Auction_NMTNamespace = DefaultNMTNamespace"

definition Auction_UseFeeMarket :: bool where "Auction_UseFeeMarket = False"

section \<open>Lemmas\<close>

text \<open>What a bid has to satisfy before any funds move.\<close>

definition bid_authorised ::
    "('p, 'pk, 'sg, 'sk, 'x) crypto_scheme \<Rightarrow> Auction \<Rightarrow> Rules \<Rightarrow> u64 \<Rightarrow> Address \<Rightarrow> bool" where
  "bid_authorised E a rules hght actor \<longleftrightarrow>
     actor \<in> set (r_parsedWhiteListedAddress rules)
     \<and> ai_EpochNumber (au_AuctionInfo a) = hght div GetEpochLength rules + 1
     \<and> (\<exists>pk sg. bls_PublicKeyFromBytes E (au_BuilderPublicKey a) = Inr pk
          \<and> bls_SignatureFromBytes E (au_BuilderSignature a) = Inr sg
          \<and> bls_Verify E (sha256_Sum256 (be64 (ai_EpochNumber (au_AuctionInfo a))
               @ be64 (ai_BidPrice (au_AuctionInfo a)) @ ai_BuilderSEQAddress (au_AuctionInfo a))) pk sg)
     \<and> ai_BuilderSEQAddress (au_AuctionInfo a) = CreateAddress E BLSID (ToID E (au_BuilderPublicKey a))"

text \<open>The writing part of \<open>Execute\<close>.\<close>

definition settle_bid ::
    "('p, 'pk, 'sg, 'sk, 'x) crypto_scheme \<Rightarrow> 'm Mutable \<Rightarrow> Auction \<Rightarrow> ('m, unit) go" where
  "settle_bid E S a =
     go_bind (go_bind (SubBalance E S (ai_BuilderSEQAddress (au_AuctionInfo a)) (ai_BidPrice (au_AuctionInfo a)))
       (\<lambda>_. AddBalance E S (ArcadiaFundAddress E) (ai_BidPrice (au_AuctionInfo a)) True)) (\<lambda>_.
     StoreArcadiaBidInfo E S (ai_EpochNumber (au_AuctionInfo a)) (ai_BidPrice (au_AuctionInfo a))
       (au_BuilderPublicKey a) (au_BuilderSignature a))"

lemma Auction_Execute_authorised:
  assumes "GetEpochLength rules \<noteq> 0" "bid_authorised E a rules hght actor"
  shows "Auction_Execute E S a rules ts hght actor aid = go_bind (settle_bid E S a) (\<lambda>_. go_return [])"
  using assms
  by (auto simp: Auction_Execute_def bid_authorised_def settle_bid_def Let_def Epoch_def HashAuctionInfo_def
      go_bind_assoc)

text \<open>The errors of the checks, which come before any write.\<close>

lemma Auction_Execute_unauthorised:
  assumes "GetEpochLength rules \<noteq> 0" "\<not> bid_authorised E a rules hght actor"
  shows "\<exists>e. Auction_Execute E S a rules ts hght actor aid m = (Error e, m)"
proof -
  let ?i = "au_AuctionInfo a"
  let ?d = "sha256_Sum256 (be64 (ai_EpochNumber ?i) @ be64 (ai_BidPrice ?i) @ ai_BuilderSEQAddress ?i)"
  have "actor \<notin> set (r_parsedWhiteListedAddress rules)
    \<or> ai_EpochNumber ?i \<noteq> hght div GetEpochLength rules + 1
    \<or> (\<exists>e. bls_PublicKeyFromBytes E (au_BuilderPublicKey a) = Inl e)
    \<or> (\<exists>e. bls_SignatureFromBytes E (au_BuilderSignature a) = Inl e)
    \<or> (\<exists>pk sg. bls_PublicKeyFromBytes E (au_BuilderPublicKey a) = Inr pk
        \<and> bls_SignatureFromBytes E (au_BuilderSignature a) = Inr sg \<and> \<not> bls_Verify E ?d pk sg)
    \<or> CreateAddress E BLSID (ToID E (au_BuilderPublicKey a)) \<noteq> ai_BuilderSEQAddress ?i"
    using assms(2) unfolding bid_authorised_def
    by (cases "bls_PublicKeyFromBytes E (au_BuilderPublicKey a)"; cases "bls_SignatureFromBytes E (au_BuilderSignature a)") auto
  then show ?thesis
    using assms(1)
    by (cases "bls_PublicKeyFromBytes E (au_BuilderPublicKey a)"; cases "bls_SignatureFromBytes E (au_BuilderSignature a)")
      (auto simp: Auction_Execute_def Let_def Epoch_def HashAuctionInfo_def go_guard_def)
qed

lemma Auction_Execute_Ok_iff:
  "Auction_Execute E S a rules ts hght actor aid m = (Ok r, m') \<longleftrightarrow>
     GetEpochLength rules \<noteq> 0 \<and> bid_authorised E a rules hght actor \<and> r = [] \<and> settle_bid E S a m = (Ok (), m')"
proof (cases "GetEpochLength rules = 0")
  case True
  then show ?thesis by (auto simp: Auction_Execute_def Let_def Epoch_def go_bind_Ok_iff)
next
  case False
  then show ?thesis
    using Auction_Execute_authorised [OF False, of E a hght actor S ts aid]
      Auction_Execute_unauthorised [OF False, of E a hght actor S ts aid m]
    by (cases "bid_authorised E a rules hght actor") (auto simp: go_bind_Ok_iff)
qed

context kv_store
begin

lemma StoreArcadiaBidInfo_writes [writes]:
  "ArcadiaBidKey E e \<in> K \<Longrightarrow> writes_only S K (StoreArcadiaBidInfo E S e b pk sg)"
  unfolding StoreArcadiaBidInfo_def Let_def by (intro writes; assumption)

lemma Auction_Execute_writes [writes]:
  assumes "\<And>k. BalanceKey E (ai_BuilderSEQAddress (au_AuctionInfo a)) = Ok k \<Longrightarrow> k \<in> K"
    and "\<And>k. BalanceKey E (ArcadiaFundAddress E) = Ok k \<Longrightarrow> k \<in> K"
    and "ArcadiaBidKey E (ai_EpochNumber (au_AuctionInfo a)) \<in> K"
  shows "writes_only S K (Auction_Execute E S a rules ts hght actor aid)"
proof -
  have settle: "writes_only S K (go_bind (settle_bid E S a) (\<lambda>_. go_return []))"
    unfolding settle_bid_def by (intro writes assms)
  have "changes_only S m (snd (Auction_Execute E S a rules ts hght actor aid m)) K" for m
  proof (cases "GetEpochLength rules = 0")
    case True
    then show ?thesis
      by (cases "actor \<in> set (r_parsedWhiteListedAddress rules)")
        (simp_all add: Auction_Execute_def Let_def Epoch_def go_bind_def go_defs)
  next
    case False
    then show ?thesis
      using settle Auction_Execute_authorised [OF False, of E a hght actor S ts aid]
        Auction_Execute_unauthorised [OF False, of E a hght actor S ts aid m]
      by (cases "bid_authorised E a rules hght actor") (auto simp: writes_only_def)
  qed
  then show ?thesis by (simp add: writes_only_def)
qed

end

context packer
begin

lemma Auction_packs:
  "packs E (Auction_Marshal E a)
     (enc_u64 (ai_EpochNumber (au_AuctionInfo a)) @ enc_u64 (ai_BidPrice (au_AuctionInfo a))
      @ ai_BuilderSEQAddress (au_AuctionInfo a) @ enc_bytes (au_BuilderPublicKey a) @ enc_bytes (au_BuilderSignature a))"
  unfolding Auction_Marshal_def AuctionInfo_Marshal_def Let_def append_assoc [symmetric]
  by (intro packs_comp packs_basic)

lemma AuctionInfo_unpacks:
  assumes "ai_EpochNumber i \<noteq> 0" "ai_BidPrice i \<noteq> 0" "length (ai_BuilderSEQAddress i) = AddressLen E"
    and "ai_BuilderSEQAddress i \<noteq> make_bytes (AddressLen E)"
  shows "unpacks E left (UnmarshalAuctionInfo E) (Some i, None)
    (enc_u64 (ai_EpochNumber i) @ enc_u64 (ai_BidPrice i) @ ai_BuilderSEQAddress i @ [])"
  unfolding UnmarshalAuctionInfo_def using assms
  by (intro unpacks_steps unpacks_return) simp_all

lemma Auction_unpacks:
  assumes "ai_EpochNumber (au_AuctionInfo a) \<noteq> 0" "ai_BidPrice (au_AuctionInfo a) \<noteq> 0"
    and "length (ai_BuilderSEQAddress (au_AuctionInfo a)) = AddressLen E"
    and "ai_BuilderSEQAddress (au_AuctionInfo a) \<noteq> make_bytes (AddressLen E)"
    and "au_BuilderPublicKey a \<noteq> []" "length (au_BuilderPublicKey a) \<le> 48"
    and "au_BuilderSignature a \<noteq> []" "length (au_BuilderSignature a) \<le> 96"
  shows "unpacks E left (UnmarshalAuction E) (Some a, None)
    ((enc_u64 (ai_EpochNumber (au_AuctionInfo a)) @ enc_u64 (ai_BidPrice (au_AuctionInfo a))
      @ ai_BuilderSEQAddress (au_AuctionInfo a) @ []) @ enc_bytes (au_BuilderPublicKey a) @ enc_bytes (au_BuilderSignature a) @ [])"
  unfolding UnmarshalAuction_def
proof (rule unpacks_bind [OF AuctionInfo_unpacks [OF assms(1-4)]], simp only: prod.case option.case)
  show "unpacks E left (\<lambda>p. case UnpackBytes E 48 True p of (pk, p) \<Rightarrow>
            case UnpackBytes E 96 True p of (sig, p) \<Rightarrow>
            ((Some \<lparr>au_AuctionInfo = au_AuctionInfo a, au_BuilderPublicKey = pk, au_BuilderSignature = sig\<rparr>, packer_Err E p), p))
     (Some a, None) (enc_bytes (au_BuilderPublicKey a) @ enc_bytes (au_BuilderSignature a) @ [])"
    using assms(5-8) by (intro unpacks_steps unpacks_return) simp_all
qed

end

section \<open>Properties\<close>

text \<open>
  What the auction relies on besides the ledger and the rollup state: keys and signatures that
  parse have their length, and the SDK's constructors give addresses.
\<close>

locale auctions = total_bank S E + rollups S E
  for S :: "'m Mutable" and E :: "('p, 'pk, 'sg, 'sk, 'x) crypto_scheme" +
  assumes public_key_length: "bls_PublicKeyFromBytes E b = Inr pk \<Longrightarrow> length b = 48"
    and signature_length: "bls_SignatureFromBytes E b = Inr sg \<Longrightarrow> length b = 96"
    and fund_is_address: "is_address E (ArcadiaFundAddress E)"
    and created_is_address: "is_address E (CreateAddress E t (ToID E b))"
begin

lemma authorised_lengths:
  assumes "bid_authorised E a rules hght actor"
  shows "length (au_BuilderPublicKey a) = 48" "length (au_BuilderSignature a) = 96"
    "is_address E (ai_BuilderSEQAddress (au_AuctionInfo a))"
  using assms by (auto simp: bid_authorised_def created_is_address dest: public_key_length signature_length)

lemma StoreArcadiaBidInfo_bal:
  assumes "StoreArcadiaBidInfo E S e b pk sg m = (r, m')" "is_address E c"
  shows "balance_of E S m' c = balance_of E S m c"
proof -
  have "changes_only S m m' {ArcadiaBidKey E e}"
    by (rule writes_only_run [OF StoreArcadiaBidInfo_writes assms(1)]) simp
  then show ?thesis
    unfolding changes_only_def balance_of_eq [OF assms(2)] balance_key_def
    by (metis not_balance_prefix(4) singletonD)
qed

lemma settle_bid_Ok:
  assumes "bid_authorised E a rules hght actor" "settle_bid E S a m = (Ok u, m')"
  obtains m1 where "go_bind (SubBalance E S (ai_BuilderSEQAddress (au_AuctionInfo a)) (ai_BidPrice (au_AuctionInfo a)))
       (\<lambda>_. AddBalance E S (ArcadiaFundAddress E) (ai_BidPrice (au_AuctionInfo a)) True) m = (Ok (), m1)"
    "\<And>c. is_address E c \<Longrightarrow> balance_of E S m' c = balance_of E S m1 c"
    "GetValue S m' (ArcadiaBidKey E (ai_EpochNumber (au_AuctionInfo a))) =
       Inr (be64 (ai_BidPrice (au_AuctionInfo a)) @ au_BuilderPublicKey a @ au_BuilderSignature a)"
proof -
  obtain m1 where m1: "go_bind (SubBalance E S (ai_BuilderSEQAddress (au_AuctionInfo a)) (ai_BidPrice (au_AuctionInfo a)))
       (\<lambda>_. AddBalance E S (ArcadiaFundAddress E) (ai_BidPrice (au_AuctionInfo a)) True) m = (Ok (), m1)"
    and st: "StoreArcadiaBidInfo E S (ai_EpochNumber (au_AuctionInfo a)) (ai_BidPrice (au_AuctionInfo a))
       (au_BuilderPublicKey a) (au_BuilderSignature a) m1 = (Ok u, m')"
    using assms(2) unfolding settle_bid_def by (auto simp: go_bind_Ok_iff)
  from st have "GetValue S m' (ArcadiaBidKey E (ai_EpochNumber (au_AuctionInfo a))) =
       Inr (be64 (ai_BidPrice (au_AuctionInfo a)) @ au_BuilderPublicKey a @ au_BuilderSignature a)"
    by (simp add: StoreArcadiaBidInfo_eq authorised_lengths [OF assms(1)] go_insert_own)
  with m1 StoreArcadiaBidInfo_bal [OF st] show thesis by (intro that)
qed

text \<open>Exactly the funded bids settle.\<close>

lemma settle_bid_total:
  fixes a m
  defines "b \<equiv> ai_BuilderSEQAddress (au_AuctionInfo a)" and "x \<equiv> unat (ai_BidPrice (au_AuctionInfo a))"
  assumes "bid_authorised E a rules hght actor" "readable E S m"
  shows "(\<exists>m'. settle_bid E S a m = (Ok (), m')) \<longleftrightarrow> x \<le> balance_of E S m b
      \<and> ((balance_of E S m)(b := balance_of E S m b - x)) (ArcadiaFundAddress E) + x < 2 ^ 64"
    and "(\<nexists>m'. settle_bid E S a m = (Ok (), m')) \<Longrightarrow>
      \<exists>e m'. settle_bid E S a m = (Error e, m') \<and> errors_Is e ErrInvalidBalance"
proof -
  have addr: "is_address E b" unfolding b_def using assms(3) by (rule authorised_lengths)
  let ?pay = "go_bind (SubBalance E S b (ai_BidPrice (au_AuctionInfo a)))
       (\<lambda>_. AddBalance E S (ArcadiaFundAddress E) (ai_BidPrice (au_AuctionInfo a)) True)"
  have store: "\<exists>m'. StoreArcadiaBidInfo E S e p (au_BuilderPublicKey a) (au_BuilderSignature a) m1 = (Ok (), m')" for e p m1
    using go_insert_accepted by (simp add: StoreArcadiaBidInfo_eq authorised_lengths [OF assms(3)])
  have iff: "(\<exists>m'. settle_bid E S a m = (Ok (), m')) \<longleftrightarrow> (\<exists>m1. ?pay m = (Ok (), m1))"
    using store unfolding settle_bid_def b_def by (auto simp: go_bind_Ok_iff)
  let ?ok = "x \<le> balance_of E S m b \<and> ((balance_of E S m)(b := balance_of E S m b - x)) (ArcadiaFundAddress E) + x < 2 ^ 64"
  have ok: "?ok \<Longrightarrow> \<exists>m1. ?pay m = (Ok (), m1)"
    using move_total [OF addr fund_is_address assms(4)] unfolding x_def by blast
  have bad: "\<not> ?ok \<Longrightarrow> \<exists>e m1. ?pay m = (Error e, m1) \<and> errors_Is e ErrInvalidBalance"
    using move_total_fails [OF addr fund_is_address assms(4)] unfolding x_def by blast
  show 1: "(\<exists>m'. settle_bid E S a m = (Ok (), m')) \<longleftrightarrow> ?ok"
    using iff ok bad by (metis prod.inject res.distinct(1))
  assume "\<nexists>m'. settle_bid E S a m = (Ok (), m')"
  then obtain e m1 where "?pay m = (Error e, m1)" "errors_Is e ErrInvalidBalance" using 1 bad by blast
  then show "\<exists>e m'. settle_bid E S a m = (Error e, m') \<and> errors_Is e ErrInvalidBalance"
    unfolding settle_bid_def b_def by (auto simp: go_bind_run)
qed

end

interpretation ref_auctions: auctions map_store ref
proof (unfold_locales, goal_cases)
  case (1 b pk) then show ?case by (simp split: if_splits)
next
  case (2 b sg) then show ?case by (simp split: if_splits)
next
  case 3 show ?case by (simp add: ArcadiaFundAddress_def)
next
  case (4 t b) show ?case by (simp add: pad_def)
qed

text \<open>
  C7: an auction that succeeds was submitted by a whitelisted actor in the epoch before the one
  it bids for, the builder's signature of exactly this epoch, price and address verifies under
  the builder's key, and the address is the one of that key; then the price has moved from the
  builder to the fund address, no funds were created or destroyed over any finite set of
  addresses with both, and price, key and signature read back from the state under the epoch.
\<close>

theorem auction_success:
  assumes "auctions S E" "Auction_Execute E S a rules ts hght actor aid m = (Ok r, m')"
    and "finite A" "\<forall>c\<in>A. is_address E c" "ArcadiaFundAddress E \<in> A" "ai_BuilderSEQAddress (au_AuctionInfo a) \<in> A"
  shows "GetEpochLength rules \<noteq> 0 \<and> bid_authorised E a rules hght actor
    \<and> unat (ai_BidPrice (au_AuctionInfo a)) \<le> balance_of E S m (ai_BuilderSEQAddress (au_AuctionInfo a))
    \<and> (ai_BuilderSEQAddress (au_AuctionInfo a) \<noteq> ArcadiaFundAddress E \<longrightarrow>
        balance_of E S m' (ai_BuilderSEQAddress (au_AuctionInfo a))
          = balance_of E S m (ai_BuilderSEQAddress (au_AuctionInfo a)) - unat (ai_BidPrice (au_AuctionInfo a))
        \<and> balance_of E S m' (ArcadiaFundAddress E)
          = balance_of E S m (ArcadiaFundAddress E) + unat (ai_BidPrice (au_AuctionInfo a)))
    \<and> (\<Sum>c\<in>A. balance_of E S m' c) = (\<Sum>c\<in>A. balance_of E S m c)
    \<and> GetArcadiaBidValue E S (ai_EpochNumber (au_AuctionInfo a)) m' = (Ok (ai_BidPrice (au_AuctionInfo a)), m')
    \<and> GetArcadiaBuilderInfoAndSignature E S (ai_EpochNumber (au_AuctionInfo a)) m'
        = (Ok (au_BuilderPublicKey a, au_BuilderSignature a), m')"
proof -
  let ?b = "ai_BuilderSEQAddress (au_AuctionInfo a)" and ?x = "ai_BidPrice (au_AuctionInfo a)"
    and ?f = "ArcadiaFundAddress E"
  have tb: "total_bank S E" using assms(1) by (rule auctions.axioms(1))
  have bank: "bank S E" using tb by (rule total_bank.axioms(1))
  have ok: "GetEpochLength rules \<noteq> 0" "bid_authorised E a rules hght actor" "settle_bid E S a m = (Ok (), m')"
    using assms(2) by (auto simp: Auction_Execute_Ok_iff)
  note len = auctions.authorised_lengths [OF assms(1) ok(2)]
  obtain m1 where pay: "go_bind (SubBalance E S ?b ?x) (\<lambda>_. AddBalance E S ?f ?x True) m = (Ok (), m1)"
    and bal: "\<And>c. is_address E c \<Longrightarrow> balance_of E S m' c = balance_of E S m1 c"
    and bid: "GetValue S m' (ArcadiaBidKey E (ai_EpochNumber (au_AuctionInfo a)))
        = Inr (be64 ?x @ au_BuilderPublicKey a @ au_BuilderSignature a)"
    using auctions.settle_bid_Ok [OF assms(1) ok(2,3)] by blast
  have f: "is_address E ?f" using assms(1) by (rule auctions.fund_is_address)
  have moved: "?b \<noteq> ?f \<longrightarrow> balance_of E S m' ?b = balance_of E S m ?b - unat ?x
      \<and> balance_of E S m' ?f = balance_of E S m ?f + unat ?x"
    using bank.payment_bal [OF bank len(3) f len(3) pay] bank.payment_bal [OF bank len(3) f f pay]
    by (simp add: bal [OF f] bal [OF len(3)])
  have "(\<Sum>c\<in>A. balance_of E S m1 c) = (\<Sum>c\<in>A. balance_of E S m c)"
    using bank.payment_conserves [OF bank assms(3,6,5) _ pay] assms(4) by simp
  then have "(\<Sum>c\<in>A. balance_of E S m' c) = (\<Sum>c\<in>A. balance_of E S m c)"
    using assms(4) bal by (metis (no_types, lifting) sum.cong)
  then show ?thesis
    using ok moved bank.payment_funds [OF bank len(3) pay] len
    by (simp add: GetArcadiaBidValue_def GetArcadiaBuilderInfoAndSignature_def go_bind_def go_get_def
        bid go_lift_def go_return_def slice_def slice_from_def)
qed

text \<open>
  C30: on a state that accepts writes and with a non-zero epoch length an auction never panics, and
  it succeeds exactly when the bid is authorised, the builder has the funds and the fund address
  can hold them; an unauthorised bid is refused before any write, an unfunded one with
  \<open>ErrInvalidBalance\<close>.
\<close>

theorem auction_accepts_iff:
  assumes "auctions S E" "readable E S m" "GetEpochLength rules \<noteq> 0"
  shows "(\<exists>m'. Auction_Execute E S a rules ts hght actor aid m = (Ok [], m')) =
      (bid_authorised E a rules hght actor
       \<and> unat (ai_BidPrice (au_AuctionInfo a)) \<le> balance_of E S m (ai_BuilderSEQAddress (au_AuctionInfo a))
       \<and> ((balance_of E S m)(ai_BuilderSEQAddress (au_AuctionInfo a) :=
            balance_of E S m (ai_BuilderSEQAddress (au_AuctionInfo a)) - unat (ai_BidPrice (au_AuctionInfo a))))
           (ArcadiaFundAddress E) + unat (ai_BidPrice (au_AuctionInfo a)) < 2 ^ 64)
    \<and> (\<not> bid_authorised E a rules hght actor \<longrightarrow> (\<exists>e. Auction_Execute E S a rules ts hght actor aid m = (Error e, m)))
    \<and> (bid_authorised E a rules hght actor \<longrightarrow> (\<nexists>m'. Auction_Execute E S a rules ts hght actor aid m = (Ok [], m')) \<longrightarrow>
         (\<exists>e m'. Auction_Execute E S a rules ts hght actor aid m = (Error e, m') \<and> errors_Is e ErrInvalidBalance))"
proof (cases "bid_authorised E a rules hght actor")
  case True
  note settle = auctions.settle_bid_total [OF assms(1) True assms(2)]
  have run: "Auction_Execute E S a rules ts hght actor aid m = go_bind (settle_bid E S a) (\<lambda>_. go_return []) m"
    using Auction_Execute_authorised [OF assms(3) True] by metis
  have iff: "(\<exists>m'. Auction_Execute E S a rules ts hght actor aid m = (Ok [], m')) = (\<exists>m'. settle_bid E S a m = (Ok (), m'))"
    by (simp add: run go_bind_Ok_iff)
  have "\<exists>e m'. Auction_Execute E S a rules ts hght actor aid m = (Error e, m') \<and> errors_Is e ErrInvalidBalance"
    if "\<nexists>m'. settle_bid E S a m = (Ok (), m')"
    using settle(2) [OF that] run by (metis go_bind_run(2))
  then show ?thesis using True iff settle(1) by blast
next
  case False
  with Auction_Execute_unauthorised [OF assms(3) this, of S ts aid m] show ?thesis by auto
qed

definition demo_key :: bytes where "demo_key = replicate 48 5"

definition demo_builder :: Address where "demo_builder = CreateAddress ref BLSID (ToID ref demo_key)"

definition demo_bid :: AuctionInfo where
  "demo_bid = \<lparr>ai_EpochNumber = 3, ai_BidPrice = 40, ai_BuilderSEQAddress = demo_builder\<rparr>"

definition demo_auction :: Auction where
  "demo_auction = \<lparr>au_AuctionInfo = demo_bid, au_BuilderPublicKey = demo_key,
     au_BuilderSignature = pad 96 (demo_key @ sha256_Sum256 (be64 3 @ be64 40 @ demo_builder))\<rparr>"

definition demo_auction_state :: kv where
  "demo_auction_state = [balance_key demo_builder \<mapsto> be64 60]"

lemma demo_builder_eq: "demo_builder = 1 # replicate 32 5"
  by (simp add: demo_builder_def BLSID_def demo_key_def pad_def take_append)

lemma demo_builder_length: "length demo_builder = 33"
  by (simp add: demo_builder_eq)

lemma demo_fund: "length (ArcadiaFundAddress ref) = 33" "ArcadiaFundAddress ref \<noteq> demo_builder"
proof -
  have "hd (ArcadiaFundAddress ref) = 0"
    by (simp add: ArcadiaFundAddress_def make_bytes_def hd_conv_nth)
  then show "ArcadiaFundAddress ref \<noteq> demo_builder" by (auto simp: demo_builder_eq)
qed (simp add: ArcadiaFundAddress_def)

lemma demo_bid_authorised: "bid_authorised ref demo_auction demo_rules 13 alice"
  by (simp add: bid_authorised_def demo_auction_def demo_bid_def demo_rules_def Genesis_Rules_def GetEpochLength_def
      Default_def demo_key_def demo_builder_def pad_def)

lemma demo_auction_balances:
  "readable ref map_store demo_auction_state"
  "balance_of ref map_store demo_auction_state demo_builder = 60"
  "balance_of ref map_store demo_auction_state (ArcadiaFundAddress ref) = 0"
proof -
  have get: "GetValue map_store demo_auction_state k = (if k = balance_key demo_builder then Inr (be64 60) else Inl ErrNotFound)" for k
    by (simp add: demo_auction_state_def map_store_def)
  show "readable ref map_store demo_auction_state"
    by (auto simp: readable_def get)
  show "balance_of ref map_store demo_auction_state demo_builder = 60"
    "balance_of ref map_store demo_auction_state (ArcadiaFundAddress ref) = 0"
    using demo_fund by (simp_all add: ref_bank.balance_of_eq get demo_builder_length)
qed

theorem auction_accepts_iff_witness:
  "(\<exists>m'. Auction_Execute ref map_store demo_auction demo_rules 0 13 alice [] demo_auction_state = (Ok [], m'))
   \<and> (\<exists>e. Auction_Execute ref map_store demo_auction demo_rules 0 13 bob [] demo_auction_state = (Error e, demo_auction_state))"
proof -
  have L: "GetEpochLength demo_rules \<noteq> 0"
    by (simp add: demo_rules_def Genesis_Rules_def GetEpochLength_def Default_def)
  have "\<not> bid_authorised ref demo_auction demo_rules 13 bob"
    by (simp add: bid_authorised_def demo_rules_def Genesis_Rules_def)
  with auction_accepts_iff [OF ref_auctions.auctions_axioms demo_auction_balances(1) L, of demo_auction 0 13 _ "[]"]
    demo_bid_authorised demo_auction_balances demo_fund
  show ?thesis by (auto simp: demo_auction_def demo_bid_def)
qed

theorem auction_success_witness:
  "\<exists>m'. Auction_Execute ref map_store demo_auction demo_rules 0 13 alice [] demo_auction_state = (Ok [], m')
     \<and> balance_of ref map_store m' demo_builder = 20 \<and> balance_of ref map_store m' (ArcadiaFundAddress ref) = 40
     \<and> GetArcadiaBidValue ref map_store 3 m' = (Ok 40, m')"
proof -
  have L: "GetEpochLength demo_rules \<noteq> 0"
    by (simp add: demo_rules_def Genesis_Rules_def GetEpochLength_def Default_def)
  have b: "ai_BuilderSEQAddress (au_AuctionInfo demo_auction) = demo_builder"
    "ai_BidPrice (au_AuctionInfo demo_auction) = 40" "ai_EpochNumber (au_AuctionInfo demo_auction) = 3"
    by (simp_all add: demo_auction_def demo_bid_def)
  obtain m' where m': "settle_bid ref map_store demo_auction demo_auction_state = (Ok (), m')"
    using ref_auctions.settle_bid_total(1) [OF demo_bid_authorised demo_auction_balances(1)] demo_auction_balances demo_fund
    by (auto simp: b)
  then have "Auction_Execute ref map_store demo_auction demo_rules 0 13 alice [] demo_auction_state = (Ok [], m')"
    using L demo_bid_authorised by (simp add: Auction_Execute_Ok_iff)
  with auction_success [OF ref_auctions.auctions_axioms this, of "{demo_builder, ArcadiaFundAddress ref}"]
  show ?thesis
    using demo_fund by (simp add: b demo_auction_balances demo_builder_length)
qed

end
