(* ===== verification/Seq_Rollup_Register.thy ===== *)
theory Seq_Rollup_Register
  imports Seq_Transfer
begin

text \<open>
  \<open>src/actions/rollup_register.go\<close>: registering a rollup, updating its info and setting its exit
  epoch. The abstract view of the state is the list of registered namespaces with their infos;
  \<open>info_recorded\<close> is the info an operation of the code records, \<open>registration_spec\<close> the one the comments
  allow. Shown: \<open>Execute\<close> refines the specification, save for a create that replaces the epochs of a
  registered rollup.
\<close>

section \<open>Definitions\<close>

definition CreateRollup :: i64 where "CreateRollup = 0"
definition ExitRollup :: i64 where "ExitRollup = 1"
definition UpdateRollup :: i64 where "UpdateRollup = 2"

record RollupRegistration =
  rr_Info :: RollupInfo
  rr_Namespace :: bytes
  rr_OpCode :: i64

definition RollupRegistration_GetTypeID :: "('p, 'x) hactions_scheme \<Rightarrow> u8" where
  "RollupRegistration_GetTypeID E = RollupRegisterID E"

definition RollupRegistration_StateKeys ::
    "('p, 'x) hactions_scheme \<Rightarrow> RollupRegistration \<Rightarrow> Address \<Rightarrow> ID \<Rightarrow> Keys res" where
  "RollupRegistration_StateKeys E r actor aid =
     Ok [RollupInfoKey E (rr_Namespace r) \<mapsto> All, RollupRegistryKey E \<mapsto> All]"

definition RollupRegistration_StateKeysMaxChunks :: "('p, 'x) hactions_scheme \<Rightarrow> u16 list" where
  "RollupRegistration_StateKeysMaxChunks E = [RollupInfoChunks E, RollupRegistryChunks E]"

text \<open>
  The three cases of the switch. Each returns the namespaces to store and the action, whose
  \<open>Info\<close> the code overwrites in place before it stores it.
\<close>

definition create_rollup ::
    "('p, 'x) hactions_scheme \<Rightarrow> 'm Mutable \<Rightarrow> RollupRegistration \<Rightarrow> Rules \<Rightarrow> u64 \<Rightarrow> Address \<Rightarrow> bytes list
      \<Rightarrow> ('m, bytes list \<times> RollupRegistration) go" where
  "create_rollup E S r rules hght actor namespaces =
     go_bind (if \<not> contains namespaces (rr_Namespace r) then go_return (namespaces @ [rr_Namespace r])
       else go_bind (go_wrap ''authorization failed'' []
         (authorizationChecks E S actor namespaces (rr_Namespace r))) (\<lambda>_. go_return namespaces)) (\<lambda>namespaces.
     go_bind (go_lift (Epoch hght (GetEpochLength rules))) (\<lambda>epoch.
     go_bind (go_guard (\<not> (ri_StartEpoch (rr_Info r) < epoch + 2 \<or> ri_ExitEpoch (rr_Info r) \<noteq> 0))
       (Errorf ''epoch number is not valid, minimum: %d, actual: %d, exit: %d''
         [FU (epoch + 2), FU (ri_StartEpoch (rr_Info r)), FU (ri_ExitEpoch (rr_Info r))])) (\<lambda>_.
     go_bind (go_guard (\<not> ri_ExitEpoch (rr_Info r) \<noteq> 0) (Errorf ''exit epoch not 0'' [])) (\<lambda>_.
     go_bind (go_wrap ''unable to set rollup info(CREATE)'' []
       (SetRollupInfo E S (rr_Namespace r) (rr_Info r))) (\<lambda>_.
     go_return (namespaces, r))))))"

definition update_rollup ::
    "('p, 'x) hactions_scheme \<Rightarrow> 'm Mutable \<Rightarrow> RollupRegistration \<Rightarrow> Address \<Rightarrow> bytes list
      \<Rightarrow> ('m, bytes list \<times> RollupRegistration) go" where
  "update_rollup E S r actor namespaces =
     go_bind (go_wrap ''authorization failed(UPDATE)'' []
       (authorizationChecks E S actor namespaces (rr_Namespace r))) (\<lambda>_.
     go_bind (go_wrap ''unable to get existing rollup info(UPDATE)'' []
       (GetRollupInfo E S (rr_Namespace r))) (\<lambda>p.
     go_bind (go_deref p) (\<lambda>rollupInfoExists.
     let r = r\<lparr>rr_Info := (rr_Info r)\<lparr>ri_ExitEpoch := ri_ExitEpoch rollupInfoExists\<rparr>\<rparr>;
         r = r\<lparr>rr_Info := (rr_Info r)\<lparr>ri_StartEpoch := ri_StartEpoch rollupInfoExists\<rparr>\<rparr> in
     go_bind (go_wrap ''unable to set rollup info(UPDATE)'' []
       (SetRollupInfo E S (rr_Namespace r) (rr_Info r))) (\<lambda>_.
     go_return (namespaces, r)))))"

definition exit_rollup ::
    "('p, 'x) hactions_scheme \<Rightarrow> 'm Mutable \<Rightarrow> RollupRegistration \<Rightarrow> Rules \<Rightarrow> u64 \<Rightarrow> Address \<Rightarrow> bytes list
      \<Rightarrow> ('m, bytes list \<times> RollupRegistration) go" where
  "exit_rollup E S r rules hght actor namespaces =
     go_bind (go_wrap ''unable to set rollup info(EXIT)'' []
       (authorizationChecks E S actor namespaces (rr_Namespace r))) (\<lambda>_.
     go_bind (go_wrap ''unable to get existing rollup info(UPDATE)'' []
       (GetRollupInfo E S (rr_Namespace r))) (\<lambda>p.
     go_bind (go_deref p) (\<lambda>rollupInfoExists.
     go_bind (go_lift (Epoch hght (GetEpochLength rules))) (\<lambda>epoch.
     go_bind (go_guard (\<not> (ri_ExitEpoch (rr_Info r) < ri_StartEpoch rollupInfoExists
         \<or> ri_ExitEpoch (rr_Info r) < epoch + 2))
       (Errorf ''(EXIT)epoch number is not valid, minimum: %d, actual: %d, start: %d''
         [FU (epoch + 2), FU (ri_ExitEpoch (rr_Info r)), FU (ri_StartEpoch rollupInfoExists)])) (\<lambda>_.
     let r = r\<lparr>rr_Info := (rr_Info r)\<lparr>ri_StartEpoch := ri_StartEpoch rollupInfoExists\<rparr>\<rparr> in
     go_bind (go_wrap ''unable to set rollup info(EXIT)'' []
       (SetRollupInfo E S (rr_Namespace r) (rr_Info r))) (\<lambda>_.
     go_return (namespaces, r)))))))"

text \<open>The result carries the action as the call leaves it: the controller reads its \<open>Info\<close> when
  the block is accepted.\<close>

definition RollupRegistration_Execute ::
    "('p, 'x) hactions_scheme \<Rightarrow> 'm Mutable \<Rightarrow> RollupRegistration \<Rightarrow> Rules \<Rightarrow> i64 \<Rightarrow> u64 \<Rightarrow> Address \<Rightarrow> ID
      \<Rightarrow> ('m, bytes list \<times> RollupRegistration) go" where
  "RollupRegistration_Execute E S r rules ts hght actor aid =
     go_bind (go_guard (rr_Namespace r = ri_Namespace (rr_Info r))
       (Errorf ''namespace is not equal to what's in the meta, expected: %s, actual: %s''
         [FHex (rr_Namespace r), FHex (ri_Namespace (rr_Info r))])) (\<lambda>_.
     go_bind (go_guard (\<not> length (rr_Namespace r) > MaxNamespaceLen E)
       (Errorf ''namespace length is too long, maximum: %d, actual: %d''
         [FI (int (MaxNamespaceLen E)), FI (int (length (rr_Namespace r)))])) (\<lambda>_.
     go_bind (go_wrap ''unable to get namespaces'' [] (GetRollupRegistry E S)) (\<lambda>namespaces.
     go_bind (if rr_OpCode r = CreateRollup then create_rollup E S r rules hght actor namespaces
       else if rr_OpCode r = UpdateRollup then update_rollup E S r actor namespaces
       else if rr_OpCode r = ExitRollup then exit_rollup E S r rules hght actor namespaces
       else go_error (Errorf ''op code(%d) not supported'' [FI (sint (rr_OpCode r))])) (\<lambda>(namespaces, r).
     go_bind (SetRollupRegistry E S namespaces) (\<lambda>_.
     go_return ([], r))))))"

definition RollupRegistration_ComputeUnits :: "('p, 'x) hactions_scheme \<Rightarrow> u64" where
  "RollupRegistration_ComputeUnits E = RollupRegisterComputeUnits E"

definition RollupRegistration_Size :: "('p, 'x) hactions_scheme \<Rightarrow> RollupRegistration \<Rightarrow> int" where
  "RollupRegistration_Size E r =
     RollupInfo_Size E (rr_Info r) + int (length (rr_Namespace r)) + int (Uint64Len E) + int (IntLen E)"

definition RollupRegistration_Marshal :: "('p, 'x) hactions_scheme \<Rightarrow> RollupRegistration \<Rightarrow> 'p \<Rightarrow> 'p" where
  "RollupRegistration_Marshal E r p =
     (let p = RollupInfo_Marshal E (rr_Info r) p;
          p = PackBytes E (rr_Namespace r) p in
      PackInt E (rr_OpCode r) p)"

text \<open>The last two reads are not followed by a look at the packer's error.\<close>

definition UnmarshalRollupRegister ::
    "('p, 'x) hactions_scheme \<Rightarrow> 'p \<Rightarrow> RollupRegistration returned \<times> 'p" where
  "UnmarshalRollupRegister E p =
     (case UnmarshalRollupInfo E p of (r, p) \<Rightarrow>
      (case r of
         Inl e \<Rightarrow> ((None, Some e), p)
       | Inr info \<Rightarrow>
           (case UnpackBytes E (-1) False p of (ns, p) \<Rightarrow>
            case UnpackInt E False p of (opcode, p) \<Rightarrow>
            ((Some \<lparr>rr_Info = info, rr_Namespace = ns, rr_OpCode = opcode\<rparr>, None), p))))"

definition RollupRegistration_ValidRange :: "i64 \<times> i64" where "RollupRegistration_ValidRange = (-1, -1)"

definition RollupRegistration_NMTNamespace :: bytes where
  "RollupRegistration_NMTNamespace = DefaultNMTNamespace"

definition RollupRegistration_UseFeeMarket :: bool where "RollupRegistration_UseFeeMarket = False"

section \<open>The invariant and the specification\<close>

text \<open>
  The registry is well formed: it is readable, no namespace is in it twice, and every namespace
  in it has an info that names it and whose exit epoch, when set, is not before its start.
\<close>

definition info_ok :: "bytes \<Rightarrow> RollupInfo \<Rightarrow> bool" where
  "info_ok ns i \<longleftrightarrow> ri_Namespace i = ns \<and> (ri_ExitEpoch i = 0 \<or> ri_StartEpoch i \<le> ri_ExitEpoch i)"

definition registry_ok :: "('p, 'x) hactions_scheme \<Rightarrow> 'm Mutable \<Rightarrow> 'm \<Rightarrow> bool" where
  "registry_ok E S m \<longleftrightarrow> (\<exists>nss. registry_of E S m = Ok nss \<and> distinct nss
     \<and> (\<forall>ns\<in>set nss. length ns \<le> MaxNamespaceLen E \<and> (\<exists>i. info_of E S m ns = Ok (Some i) \<and> info_ok ns i)))"

text \<open>The registered rollups, as a map.\<close>

definition rollups_of :: "('p, 'x) hactions_scheme \<Rightarrow> 'm Mutable \<Rightarrow> 'm \<Rightarrow> bytes \<Rightarrow> RollupInfo option" where
  "rollups_of E S m ns = (case registry_of E S m of
       Ok nss \<Rightarrow> if ns \<in> set nss then (case info_of E S m ns of Ok i \<Rightarrow> i | _ \<Rightarrow> None) else None
     | _ \<Rightarrow> None)"

text \<open>The info that an operation of the code records for its namespace, given the current epoch and
  the info registered so far; \<open>None\<close> when the code refuses.\<close>

definition info_recorded ::
    "nat \<Rightarrow> u64 \<Rightarrow> Address \<Rightarrow> RollupRegistration \<Rightarrow> RollupInfo option \<Rightarrow> RollupInfo option" where
  "info_recorded maxlen epoch actor r old =
     (let i = rr_Info r in
      if rr_Namespace r \<noteq> ri_Namespace i \<or> maxlen < length (rr_Namespace r) then None
      else case old of
        None \<Rightarrow>
          if rr_OpCode r = 0 \<and> epoch + 2 \<le> ri_StartEpoch i \<and> ri_ExitEpoch i = 0 then Some i else None
      | Some j \<Rightarrow>
          if ri_AuthoritySEQAddress j \<noteq> actor then None
          else if rr_OpCode r = 0 then
            (if epoch + 2 \<le> ri_StartEpoch i \<and> ri_ExitEpoch i = 0 then Some i else None)
          else if rr_OpCode r = 2 then
            Some (i\<lparr>ri_ExitEpoch := ri_ExitEpoch j, ri_StartEpoch := ri_StartEpoch j\<rparr>)
          else if rr_OpCode r = 1 then
            (if ri_StartEpoch j \<le> ri_ExitEpoch i \<and> epoch + 2 \<le> ri_ExitEpoch i
             then Some (i\<lparr>ri_StartEpoch := ri_StartEpoch j\<rparr>) else None)
          else None)"

text \<open>
  The specification, as the comments of \<open>rollup_register.go\<close> have it: for a registered namespace only
  an exit changes the exit epoch and no operation changes the start epoch. A create for a registered
  namespace that asks for other epochs is therefore refused.
\<close>

definition other_epochs :: "RollupRegistration \<Rightarrow> RollupInfo option \<Rightarrow> bool" where
  "other_epochs r old = (case old of None \<Rightarrow> False
     | Some j \<Rightarrow> ri_StartEpoch (rr_Info r) \<noteq> ri_StartEpoch j \<or> ri_ExitEpoch (rr_Info r) \<noteq> ri_ExitEpoch j)"

definition registration_spec ::
    "nat \<Rightarrow> u64 \<Rightarrow> Address \<Rightarrow> RollupRegistration \<Rightarrow> RollupInfo option \<Rightarrow> RollupInfo option" where
  "registration_spec maxlen epoch actor r old =
     (if rr_OpCode r = CreateRollup \<and> other_epochs r old then None else info_recorded maxlen epoch actor r old)"

text \<open>What the specification says of the epochs of a registered namespace.\<close>

lemma registration_spec_epochs:
  assumes "registration_spec maxlen epoch actor r (Some j) = Some new"
  shows "ri_StartEpoch new = ri_StartEpoch j" "ri_ExitEpoch new \<noteq> ri_ExitEpoch j \<Longrightarrow> rr_OpCode r = ExitRollup"
  using assms by (auto simp: registration_spec_def info_recorded_def other_epochs_def Let_def
      CreateRollup_def ExitRollup_def split: if_splits)

definition register :: "bytes list \<Rightarrow> bytes \<Rightarrow> bytes list" where
  "register nss ns = (if ns \<in> set nss then nss else nss @ [ns])"

section \<open>Lemmas\<close>

lemma authorizationChecks_run:
  "ns \<notin> set nss \<Longrightarrow> authorizationChecks E S actor nss ns m = (Error ErrNameSpaceNotRegistered, m)"
  "ns \<in> set nss \<Longrightarrow> info_of E S m ns = Ok (Some i) \<Longrightarrow> authorizationChecks E S actor nss ns m =
     (if ri_AuthoritySEQAddress i = actor then (Ok (), m) else (Error ErrNotAuthorized, m))"
  by (simp_all add: authorizationChecks_def go_bind_def getters_run go_defs)

text \<open>The two writes at the end of every successful operation.\<close>

definition record_rollup ::
    "('p, 'x) hactions_scheme \<Rightarrow> 'm Mutable \<Rightarrow> string \<Rightarrow> RollupRegistration \<Rightarrow> bytes list \<Rightarrow> RollupInfo
      \<Rightarrow> ('m, bytes list \<times> RollupRegistration) go" where
  "record_rollup E S w r nss new =
     go_bind (go_wrap w [] (SetRollupInfo E S (rr_Namespace r) new)) (\<lambda>_.
     go_bind (SetRollupRegistry E S nss) (\<lambda>_. go_return ([], r\<lparr>rr_Info := new\<rparr>)))"

lemma record_rollup_not_Panic [simp]: "record_rollup E S w r nss new m \<noteq> (Panic p, m')"
proof -
  obtain r1 m1 where 1: "SetRollupInfo E S (rr_Namespace r) new m = (r1, m1)" by fastforce
  obtain r2 m2 where 2: "SetRollupRegistry E S nss m1 = (r2, m2)" by fastforce
  show ?thesis
    using 1 2 by (cases r1; cases r2) (simp_all add: record_rollup_def go_bind_def go_wrap_def go_return_def)
qed

lemma record_rollup_accepted:
  assumes "kv_total S"
    and enc: "packer_Err E (RollupInfo_Marshal E new (NewWriter E (RollupInfo_Size E new) (NetworkSizeLimit E))) = None"
    and "PackNamespaces E nss = Inr packed"
  shows "\<exists>m'. record_rollup E S w r nss new m = (Ok ([], r\<lparr>rr_Info := new\<rparr>), m')"
proof -
  obtain m1 where m1: "SetRollupInfo E S (rr_Namespace r) new m = (Ok (), m1)"
    using kv_total.go_insert_accepted [OF assms(1)] enc by (simp add: SetRollupInfo_def Let_def) blast
  obtain m2 where "SetRollupRegistry E S nss m1 = (Ok (), m2)"
    using kv_total.go_insert_accepted [OF assms(1)] assms(3) by (simp add: SetRollupRegistry_def) blast
  with m1 show ?thesis by (simp add: record_rollup_def go_bind_def go_wrap_def go_return_def)
qed

text \<open>The info registered for the namespace of the action.\<close>

definition old_info :: "bytes list \<Rightarrow> bytes \<Rightarrow> RollupInfo \<Rightarrow> RollupInfo option" where
  "old_info nss ns j = (if ns \<in> set nss then Some j else None)"

lemmas opcodes = CreateRollup_def ExitRollup_def UpdateRollup_def

lemma Execute_refuses:
  assumes "GetEpochLength rules \<noteq> 0" "registry_of E S m = Ok nss"
    and "rr_Namespace r \<in> set nss \<Longrightarrow> info_of E S m (rr_Namespace r) = Ok (Some j)"
    and "info_recorded (MaxNamespaceLen E) (hght div GetEpochLength rules) actor r (old_info nss (rr_Namespace r) j) = None"
  shows "\<exists>e. RollupRegistration_Execute E S r rules ts hght actor aid m = (Error e, m)"
proof (cases "rr_Namespace r = ri_Namespace (rr_Info r) \<and> length (rr_Namespace r) \<le> MaxNamespaceLen E")
  case False
  then show ?thesis by (auto simp: RollupRegistration_Execute_def go_guard_def)
next
  case True
  then show ?thesis
    using assms
    by (cases "rr_Namespace r \<in> set nss")
      (auto simp: RollupRegistration_Execute_def create_rollup_def update_rollup_def exit_rollup_def opcodes
        info_recorded_def old_info_def Let_def go_bind_def go_wrap_def getters_run authorizationChecks_run Epoch_def
        go_defs not_less split: if_splits)
qed

lemma Execute_records:
  assumes "GetEpochLength rules \<noteq> 0" "registry_of E S m = Ok nss"
    and "rr_Namespace r \<in> set nss \<Longrightarrow> info_of E S m (rr_Namespace r) = Ok (Some j)"
    and "info_recorded (MaxNamespaceLen E) (hght div GetEpochLength rules) actor r (old_info nss (rr_Namespace r) j) = Some new"
  shows "\<exists>w. RollupRegistration_Execute E S r rules ts hght actor aid m = record_rollup E S w r (register nss (rr_Namespace r)) new m"
proof -
  have 1: "rr_Namespace r = ri_Namespace (rr_Info r)" "length (rr_Namespace r) \<le> MaxNamespaceLen E"
    using assms(4) by (auto simp: info_recorded_def Let_def split: if_splits)
  show ?thesis
    using assms 1
    by (cases "rr_Namespace r \<in> set nss")
      (auto simp: RollupRegistration_Execute_def create_rollup_def update_rollup_def exit_rollup_def opcodes register_def
        info_recorded_def old_info_def record_rollup_def Let_def go_bind_def go_wrap_def getters_run authorizationChecks_run Epoch_def
        go_defs not_less split: if_splits prod.splits res.splits)
qed

lemma info_recorded_ok:
  assumes "info_recorded n epoch actor r old = Some new" "\<And>j. old = Some j \<Longrightarrow> info_ok (rr_Namespace r) j"
  shows "info_ok (rr_Namespace r) new" "length (rr_Namespace r) \<le> n"
    "old = Some j \<Longrightarrow> ri_AuthoritySEQAddress j = actor"
  using assms by (auto simp: info_recorded_def info_ok_def Let_def split: if_splits option.splits)

context rollups
begin

lemma setters_refused:
  assumes "\<nexists>u. res = Ok u"
  shows "SetRollupInfo E S ns i m = (res, m') \<Longrightarrow> GetValue S m' k = GetValue S m k"
    "SetRollupRegistry E S nss m = (res, m') \<Longrightarrow> GetValue S m' k = GetValue S m k"
    "SetEpochExits E S e x m = (res, m') \<Longrightarrow> GetValue S m' k = GetValue S m k"
  using assms
  by (cases res; auto simp: SetRollupInfo_def SetRollupRegistry_def SetEpochExits_def setEpochExits_def Let_def
      intro: go_insert_refused split: option.splits sum.splits)+

text \<open>
  After the two writes the info of the namespace is the new one or the old one, no other info
  changed, and the registry is the new one when the call succeeded, else the old one.
\<close>

lemma record_rollup_views:
  assumes "record_rollup E S w r nss new m = (res, m')" "length (rr_Namespace r) \<le> MaxNamespaceLen E"
  shows "info_of E S m' (rr_Namespace r) = Ok (Some new) \<or> info_of E S m' (rr_Namespace r) = info_of E S m (rr_Namespace r)"
    and "length ns' \<le> MaxNamespaceLen E \<Longrightarrow> ns' \<noteq> rr_Namespace r \<Longrightarrow> info_of E S m' ns' = info_of E S m ns'"
    and "registry_of E S m' = registry_of E S m \<or> (\<exists>x. res = Ok x) \<and> registry_of E S m' = Ok nss"
    and "res = Ok x \<Longrightarrow> x = ([], r\<lparr>rr_Info := new\<rparr>) \<and> info_of E S m' (rr_Namespace r) = Ok (Some new)
        \<and> registry_of E S m' = Ok nss"
    and "exits_of E S m' e = exits_of E S m e"
proof -
  let ?ns = "rr_Namespace r"
  obtain r1 m1 where 1: "SetRollupInfo E S ?ns new m = (r1, m1)" by fastforce
  obtain r2 m2 where 2: "SetRollupRegistry E S nss m1 = (r2, m2)" by fastforce
  have out: "m' = (if r1 = Ok () then m2 else m1)" "res = Ok x \<Longrightarrow> r1 = Ok () \<and> r2 = Ok () \<and> x = ([], r\<lparr>rr_Info := new\<rparr>)"
    "r1 = Ok () \<Longrightarrow> r2 = Ok () \<Longrightarrow> \<exists>x. res = Ok x" for x
    using assms(1) 1 2 by (cases r1; cases r2; auto simp: record_rollup_def go_bind_def go_wrap_def go_return_def)+
  have old1: "r1 \<noteq> Ok () \<Longrightarrow> GetValue S m1 k = GetValue S m k" for k
    by (rule setters_refused(1) [OF _ 1]) (auto simp: unit_eq)
  have old2: "r2 \<noteq> Ok () \<Longrightarrow> GetValue S m2 k = GetValue S m1 k" for k
    by (rule setters_refused(2) [OF _ 2]) (auto simp: unit_eq)
  have info1: "r1 = Ok () \<Longrightarrow> info_of E S m1 ?ns = Ok (Some new)"
    using SetRollupInfo_reads 1 by blast
  have reg2: "r2 = Ok () \<Longrightarrow> registry_of E S m2 = Ok nss"
    using SetRollupRegistry_reads 2 by blast
  note other = SetRollupInfo_other [OF 1] SetRollupRegistry_other [OF 2]
  show "info_of E S m' ?ns = Ok (Some new) \<or> info_of E S m' ?ns = info_of E S m ?ns"
    using out(1) info1 other(4) old1 views_cong(2) by metis
  show "length ns' \<le> MaxNamespaceLen E \<Longrightarrow> ns' \<noteq> ?ns \<Longrightarrow> info_of E S m' ns' = info_of E S m ns'"
    using out(1) other(1,4) assms(2) by simp
  show "registry_of E S m' = registry_of E S m \<or> (\<exists>x. res = Ok x) \<and> registry_of E S m' = Ok nss"
    using out(1,3) reg2 old2 other(2) views_cong(1) [of S m2 E m1] by (cases "r2 = Ok ()") auto
  show "res = Ok x \<Longrightarrow> x = ([], r\<lparr>rr_Info := new\<rparr>) \<and> info_of E S m' ?ns = Ok (Some new) \<and> registry_of E S m' = Ok nss"
    using out(1,2) info1 reg2 other(4) by simp
  show "exits_of E S m' e = exits_of E S m e"
    using out(1) other(3,5) by simp
qed

end

text \<open>Every execution either fails without a change or is the recording of the specified info.\<close>

lemma Execute_cases:
  assumes "registry_ok E S m" "registry_of E S m = Ok nss" "GetEpochLength rules \<noteq> 0"
  obtains (refused) e where
      "info_recorded (MaxNamespaceLen E) (hght div GetEpochLength rules) actor r (rollups_of E S m (rr_Namespace r)) = None"
      "RollupRegistration_Execute E S r rules ts hght actor aid m = (Error e, m)"
  | (recorded) new w where
      "info_recorded (MaxNamespaceLen E) (hght div GetEpochLength rules) actor r (rollups_of E S m (rr_Namespace r)) = Some new"
      "RollupRegistration_Execute E S r rules ts hght actor aid m = record_rollup E S w r (register nss (rr_Namespace r)) new m"
      "length (rr_Namespace r) \<le> MaxNamespaceLen E" "info_ok (rr_Namespace r) new"
proof -
  let ?ns = "rr_Namespace r"
  obtain j where j: "?ns \<in> set nss \<Longrightarrow> info_of E S m ?ns = Ok (Some j) \<and> info_ok ?ns j"
    using assms(1,2) unfolding registry_ok_def by (metis res.inject(1))
  have old: "rollups_of E S m ?ns = old_info nss ?ns j"
    using j by (simp add: rollups_of_def old_info_def assms(2))
  have i: "?ns \<in> set nss \<Longrightarrow> info_of E S m ?ns = Ok (Some j)" using j by blast
  have ok: "old_info nss ?ns j = Some k \<Longrightarrow> info_ok ?ns k" for k
    using j by (simp add: old_info_def split: if_splits)
  show thesis
  proof (cases "info_recorded (MaxNamespaceLen E) (hght div GetEpochLength rules) actor r (old_info nss ?ns j)")
    case None
    obtain e where "RollupRegistration_Execute E S r rules ts hght actor aid m = (Error e, m)"
      using Execute_refuses [OF assms(3,2) i None] by blast
    with None show thesis by (intro refused) (simp_all add: old)
  next
    case (Some new)
    obtain w where "RollupRegistration_Execute E S r rules ts hght actor aid m = record_rollup E S w r (register nss ?ns) new m"
      using Execute_records [OF assms(3,2) i Some] by blast
    with Some info_recorded_ok(1,2) [OF Some ok] show thesis
      by (intro recorded) (simp_all add: old)
  qed
qed

context rollups
begin

text \<open>What a recording leaves of the registered rollups.\<close>

lemma record_rollup_ok:
  assumes "registry_ok E S m" "registry_of E S m = Ok nss" "length (rr_Namespace r) \<le> MaxNamespaceLen E"
    and "info_ok (rr_Namespace r) new" "record_rollup E S w r (register nss (rr_Namespace r)) new m = (res, m')"
  shows "registry_ok E S m'"
proof -
  note v = record_rollup_views [OF assms(5,3)]
  have nss: "distinct nss" "\<And>ns. ns \<in> set nss \<Longrightarrow> length ns \<le> MaxNamespaceLen E \<and> (\<exists>i. info_of E S m ns = Ok (Some i) \<and> info_ok ns i)"
    using assms(1,2) unfolding registry_ok_def by auto
  have info: "\<exists>i. info_of E S m' ns = Ok (Some i) \<and> info_ok ns i" if "ns \<in> set nss" for ns
    using v(1,2) nss(2) [OF that] assms(4) by metis
  consider "registry_of E S m' = Ok nss" | x where "res = Ok x" "registry_of E S m' = Ok (register nss (rr_Namespace r))"
    using v(3) assms(2) by auto
  then show ?thesis
  proof cases
    case 1
    then show ?thesis using nss info by (auto simp: registry_ok_def)
  next
    case 2
    then have "info_of E S m' (rr_Namespace r) = Ok (Some new)" using v(4) by blast
    then have "ns \<in> set (register nss (rr_Namespace r)) \<Longrightarrow>
        length ns \<le> MaxNamespaceLen E \<and> (\<exists>i. info_of E S m' ns = Ok (Some i) \<and> info_ok ns i)" for ns
      using nss(2) info assms(3,4) by (auto simp: register_def split: if_splits)
    moreover have "distinct (register nss (rr_Namespace r))" using nss(1) by (simp add: register_def)
    ultimately show ?thesis using 2(2) by (auto simp: registry_ok_def)
  qed
qed

lemma record_rollup_rollups:
  assumes "registry_ok E S m" "registry_of E S m = Ok nss" "length (rr_Namespace r) \<le> MaxNamespaceLen E"
    and "record_rollup E S w r (register nss (rr_Namespace r)) new m = (Ok x, m')"
  shows "rollups_of E S m' = (rollups_of E S m)(rr_Namespace r \<mapsto> new)"
proof
  fix ns
  note v = record_rollup_views [OF assms(4,3)]
  have "ns \<in> set nss \<Longrightarrow> length ns \<le> MaxNamespaceLen E"
    using assms(1,2) unfolding registry_ok_def by auto
  then show "rollups_of E S m' ns = ((rollups_of E S m)(rr_Namespace r \<mapsto> new)) ns"
    using v(2) [of ns] v(4) [OF refl] assms(2) by (auto simp: rollups_of_def register_def)
qed

end

context rollups
begin

lemma RollupRegistration_Execute_writes [writes]:
  assumes "RollupInfoKey E (rr_Namespace r) \<in> K" "RollupRegistryKey E \<in> K"
  shows "writes_only S K (RollupRegistration_Execute E S r rules ts hght actor aid)"
proof -
  have reads: "writes_only S K (GetRollupRegistry E S)" "writes_only S K (GetRollupInfo E S ns)"
    "writes_only S K (authorizationChecks E S actor nss ns)" for nss ns
    by (auto intro!: writes_only_reads)
  have "writes_only S K (create_rollup E S r rules hght actor nss)" for nss
    unfolding create_rollup_def by (intro writes reads assms)
  moreover have "writes_only S K (update_rollup E S r actor nss)" for nss
    unfolding update_rollup_def Let_def by (intro writes reads) (simp add: assms)
  moreover have "writes_only S K (exit_rollup E S r rules hght actor nss)" for nss
    unfolding exit_rollup_def Let_def by (intro writes reads) (simp add: assms)
  ultimately show ?thesis
    unfolding RollupRegistration_Execute_def by (intro writes reads assms)
qed

end

context rollup_packer
begin

lemma RollupRegistration_packs:
  "packs E (RollupRegistration_Marshal E r) (enc_info (rr_Info r) @ enc_bytes (rr_Namespace r) @ enc_int (rr_OpCode r))"
  unfolding RollupRegistration_Marshal_def Let_def append_assoc [symmetric]
  by (intro packs_comp packs_basic pack_info)

lemma RollupRegistration_unpacks:
  assumes "length (enc_info (rr_Info r)) < 2 ^ 31" "length (rr_Namespace r) < 2 ^ 31" "unat (rr_OpCode r) < 2 ^ 31"
  shows "unpacks E left (UnmarshalRollupRegister E) (Some r, None)
    (enc_info (rr_Info r) @ enc_bytes (rr_Namespace r) @ enc_int (rr_OpCode r) @ [])"
  unfolding UnmarshalRollupRegister_def
proof (rule unpacks_bind [OF unpack_info [OF assms(1)]], simp only: sum.case)
  show "unpacks E left (\<lambda>p. case UnpackBytes E (-1) False p of (ns, p) \<Rightarrow>
            case UnpackInt E False p of (opcode, p) \<Rightarrow>
            ((Some \<lparr>rr_Info = rr_Info r, rr_Namespace = ns, rr_OpCode = opcode\<rparr>, None), p))
     (Some r, None) (enc_bytes (rr_Namespace r) @ enc_int (rr_OpCode r) @ [])"
    using assms(2,3) by (intro unpacks_steps unpacks_return) simp_all
qed

end

section \<open>A registered rollup, for the witnesses\<close>

definition demo_ns :: bytes where "demo_ns = [1, 2, 3]"

definition demo_info :: RollupInfo where
  "demo_info = \<lparr>ri_FeeRecipient = alice, ri_Namespace = demo_ns, ri_AuthoritySEQAddress = alice,
     ri_SequencerPublicKey = [4], ri_StartEpoch = 4, ri_ExitEpoch = 0\<rparr>"

definition demo_registration :: RollupRegistration where
  "demo_registration = \<lparr>rr_Info = demo_info, rr_Namespace = demo_ns, rr_OpCode = 0\<rparr>"

definition demo_rollup_state :: kv where
  "demo_rollup_state = [RollupInfoKey ref demo_ns \<mapsto> r_enc_info demo_info,
     RollupRegistryKey ref \<mapsto> r_enc_list rp_enc_bytes [demo_ns]]"

lemma demo_epoch_length: "GetEpochLength demo_rules = 6"
  by (simp add: demo_rules_def Genesis_Rules_def GetEpochLength_def Default_def)

lemma demo_info_length: "length (r_enc_info demo_info) = 102"
  by (simp add: r_enc_info_def demo_info_def demo_ns_def rp_enc_bytes_def)

lemma demo_packed: "PackNamespaces ref [demo_ns] = Inr (r_enc_list rp_enc_bytes [demo_ns])"
  by (simp add: PackNamespaces_def r_PackNamespaces_def Let_def r_enc_list_def rp_enc_bytes_def demo_ns_def)

lemma empty_registry: "registry_of ref map_store Map.empty = Ok []" "registry_ok ref map_store Map.empty"
  by (simp_all add: registry_ok_def views_eq innerGetRegistry_def map_store_def)

lemma demo_rollup_views:
  "registry_of ref map_store demo_rollup_state = Ok [demo_ns]"
  "info_of ref map_store demo_rollup_state demo_ns = Ok (Some demo_info)"
  "rollups_of ref map_store demo_rollup_state demo_ns = Some demo_info"
  "registry_ok ref map_store demo_rollup_state"
proof -
  have get: "GetValue map_store demo_rollup_state (RollupRegistryKey ref) = Inr (r_enc_list rp_enc_bytes [demo_ns])"
    "GetValue map_store demo_rollup_state (RollupInfoKey ref demo_ns) = Inr (r_enc_info demo_info)"
    by (simp_all add: demo_rollup_state_def map_store_def)
  have "UnpackNamespaces ref (r_enc_list rp_enc_bytes [demo_ns]) = Inr [demo_ns]"
    using ref_codec.namespaces_roundtrip [of "[demo_ns]"] demo_packed by (simp add: PackNamespaces_def UnpackNamespaces_def)
  then show reg: "registry_of ref map_store demo_rollup_state = Ok [demo_ns]"
    by (simp only: views_eq get innerGetRegistry_def sum.case res_bind.simps prod.case)
  have "UnmarshalRollupInfo ref (NewReader ref (r_enc_info demo_info) (NetworkSizeLimit ref))
      = (Inr demo_info, (r_reader (r_enc_info demo_info) r_limit)\<lparr>rp_in := []\<rparr>)"
    using r_UnmarshalRollupInfo_eq [of demo_info "r_reader (r_enc_info demo_info) r_limit" "[]"]
    by (simp add: demo_info_length r_reader_def)
  then show info: "info_of ref map_store demo_rollup_state demo_ns = Ok (Some demo_info)"
    by (simp only: views_eq get innerGetRollupInfo_def sum.case res_bind.simps prod.case fst_conv)
  show "rollups_of ref map_store demo_rollup_state demo_ns = Some demo_info"
    by (simp add: rollups_of_def reg info)
  show "registry_ok ref map_store demo_rollup_state"
    using reg info by (simp add: registry_ok_def info_ok_def demo_info_def) (simp add: demo_ns_def)
qed

section \<open>Without an epoch length\<close>

text \<open>Only creating and exiting compute the current epoch; with an epoch length of zero they never succeed.\<close>

definition epoch_opcode :: "RollupRegistration \<Rightarrow> bool" where
  "epoch_opcode r \<longleftrightarrow> rr_OpCode r = CreateRollup \<or> rr_OpCode r = ExitRollup"

lemma Execute_epoch_free:
  "\<not> epoch_opcode r \<Longrightarrow> RollupRegistration_Execute E S r rules ts hght actor aid = RollupRegistration_Execute E S r rules' ts hght actor aid"
  by (cases "rr_OpCode r = UpdateRollup") (simp_all add: RollupRegistration_Execute_def epoch_opcode_def)

lemma Execute_zero_epoch:
  assumes "epoch_opcode r" "GetEpochLength rules = 0"
  shows "RollupRegistration_Execute E S r rules ts hght actor aid m \<noteq> (Ok x, m')"
  using assms
  by (auto simp: RollupRegistration_Execute_def create_rollup_def exit_rollup_def epoch_opcode_def opcodes go_bind_Ok_iff Epoch_def)

section \<open>Properties\<close>

text \<open>What the code does on the branch of the specification and beside it.\<close>

lemma Execute_outcome:
  assumes "rollups S E" "kv_total S" "registry_ok E S m" "registry_of E S m = Ok nss" "GetEpochLength rules \<noteq> 0"
    and "PackNamespaces E (register nss (rr_Namespace r)) = Inr packed"
  shows "case info_recorded (MaxNamespaceLen E) (hght div GetEpochLength rules) actor r (rollups_of E S m (rr_Namespace r)) of
      None \<Rightarrow> \<exists>e. RollupRegistration_Execute E S r rules ts hght actor aid m = (Error e, m)
    | Some new \<Rightarrow> packer_Err E (RollupInfo_Marshal E new (NewWriter E (RollupInfo_Size E new) (NetworkSizeLimit E))) = None \<longrightarrow>
        (\<exists>m'. RollupRegistration_Execute E S r rules ts hght actor aid m = (Ok ([], r\<lparr>rr_Info := new\<rparr>), m')
          \<and> rollups_of E S m' = (rollups_of E S m)(rr_Namespace r \<mapsto> new))"
  using assms(3-5)
proof (cases rule: Execute_cases [where r = r and hght = hght and actor = actor and ts = ts and aid = aid])
  case (refused e)
  then show ?thesis by simp
next
  case (recorded new w)
  show ?thesis
    using record_rollup_accepted [OF assms(2) _ assms(6), of new w r m]
      rollups.record_rollup_rollups [OF assms(1,3,4) recorded(3)] recorded(1,2) by auto
qed

text \<open>
  C8: a registration refines its specification, unless it is a create for a registered namespace that
  asks for other epochs than the registered ones: on a well-formed registry and a state that accepts
  writes, with a non-zero epoch length, it returns without a panic; it fails without any write exactly
  when the specification refuses, and otherwise (the info and the list of namespaces being encodable)
  it succeeds, the registered rollups become the old ones with the specified info for this namespace,
  and the action is left with that info. The excluded case, in which the code departs from its
  comment, is \<open>create_overwrites_epochs\<close> below.
\<close>

theorem registration_refines_spec:
  assumes "rollups S E" "kv_total S" "registry_ok E S m" "registry_of E S m = Ok nss" "GetEpochLength rules \<noteq> 0"
    and "PackNamespaces E (register nss (rr_Namespace r)) = Inr packed"
    and "\<not> (rr_OpCode r = CreateRollup \<and> other_epochs r (rollups_of E S m (rr_Namespace r)))"
  shows "case registration_spec (MaxNamespaceLen E) (hght div GetEpochLength rules) actor r (rollups_of E S m (rr_Namespace r)) of
      None \<Rightarrow> \<exists>e. RollupRegistration_Execute E S r rules ts hght actor aid m = (Error e, m)
    | Some new \<Rightarrow> packer_Err E (RollupInfo_Marshal E new (NewWriter E (RollupInfo_Size E new) (NetworkSizeLimit E))) = None \<longrightarrow>
        (\<exists>m'. RollupRegistration_Execute E S r rules ts hght actor aid m = (Ok ([], r\<lparr>rr_Info := new\<rparr>), m')
          \<and> rollups_of E S m' = (rollups_of E S m)(rr_Namespace r \<mapsto> new))"
  using Execute_outcome [OF assms(1-6)] assms(7) unfolding registration_spec_def by (simp only: if_False)

text \<open>
  Where the code departs from the comment: a create by the authority for its registered namespace
  that asks for a later start epoch is not refused; it replaces the start epoch and takes a
  registered exit epoch back.
\<close>

lemma create_overwrites_epochs:
  assumes "rollups S E" "kv_total S" "registry_ok E S m" "registry_of E S m = Ok nss" "GetEpochLength rules \<noteq> 0"
    and "PackNamespaces E (register nss (rr_Namespace r)) = Inr packed"
    and "rollups_of E S m (rr_Namespace r) = Some j" "ri_AuthoritySEQAddress j = actor" "rr_OpCode r = CreateRollup"
    and "ri_Namespace (rr_Info r) = rr_Namespace r" "length (rr_Namespace r) \<le> MaxNamespaceLen E"
    and "hght div GetEpochLength rules + 2 \<le> ri_StartEpoch (rr_Info r)" "ri_ExitEpoch (rr_Info r) = 0"
    and "other_epochs r (Some j)"
    and "packer_Err E (RollupInfo_Marshal E (rr_Info r) (NewWriter E (RollupInfo_Size E (rr_Info r)) (NetworkSizeLimit E))) = None"
  shows "registration_spec (MaxNamespaceLen E) (hght div GetEpochLength rules) actor r (rollups_of E S m (rr_Namespace r)) = None
    \<and> (\<exists>m'. RollupRegistration_Execute E S r rules ts hght actor aid m = (Ok ([], r), m')
          \<and> rollups_of E S m' (rr_Namespace r) = Some (rr_Info r))"
proof -
  have "info_recorded (MaxNamespaceLen E) (hght div GetEpochLength rules) actor r (rollups_of E S m (rr_Namespace r)) = Some (rr_Info r)"
    using assms(7-13) by (simp add: info_recorded_def CreateRollup_def)
  moreover have "r\<lparr>rr_Info := rr_Info r\<rparr> = r" by simp
  ultimately show ?thesis
    using Execute_outcome [OF assms(1-6), where hght = hght and actor = actor and ts = ts and aid = aid] assms(7,9,14,15) by (auto simp: registration_spec_def)
qed

lemma RollupRegistration_keeps:
  assumes "rollups S E" "registry_ok E S m" "GetEpochLength rules \<noteq> 0"
    and "RollupRegistration_Execute E S r rules ts hght actor aid m = (res, m')"
  shows "registry_ok E S m' \<and> \<not> is_panic res"
proof -
  obtain nss where nss: "registry_of E S m = Ok nss" using assms(2) by (auto simp: registry_ok_def)
  show ?thesis
    using assms(2) nss assms(3)
  proof (cases rule: Execute_cases [where r = r and hght = hght and actor = actor and ts = ts and aid = aid])
    case (refused e)
    then show ?thesis using assms(2,4) by simp
  next
    case (recorded new w)
    then have run: "record_rollup E S w r (register nss (rr_Namespace r)) new m = (res, m')" using assms(4) by simp
    have "\<not> is_panic res"
      using run by (cases res) simp_all
    then show ?thesis
      using rollups.record_rollup_ok [OF assms(1,2) nss recorded(3,4) run] by simp
  qed
qed

text \<open>
  No registration breaks the registry, whatever it returns and also when a write is refused
  half-way: the namespaces stay distinct, every registered namespace keeps an info that names it,
  with an exit epoch that is not before its start epoch. And it never panics: in particular the
  code never dereferences a missing info.
\<close>

lemma registration_keeps_registry_ok:
  assumes "rollups S E" "registry_ok E S m" "GetEpochLength rules \<noteq> 0"
    and "RollupRegistration_Execute E S r rules ts hght actor aid m = (res, m')"
  shows "registry_ok E S m' \<and> \<not> is_panic res"
  using assms by (rule RollupRegistration_keeps)

lemma RollupRegistration_authority:
  assumes "rollups S E" "registry_ok E S m" "GetEpochLength rules \<noteq> 0" "rollups_of E S m ns = Some j"
    and "RollupRegistration_Execute E S r rules ts hght actor aid m = (res, m')"
  shows "rollups_of E S m' ns \<noteq> None
    \<and> (rollups_of E S m' ns \<noteq> Some j \<longrightarrow> ns = rr_Namespace r \<and> actor = ri_AuthoritySEQAddress j)"
proof -
  obtain nss where nss: "registry_of E S m = Ok nss" using assms(2) by (auto simp: registry_ok_def)
  have mem: "ns \<in> set nss" "length ns \<le> MaxNamespaceLen E"
    using assms(2,4) nss by (auto simp: rollups_of_def registry_ok_def split: if_splits)
  show ?thesis
    using assms(2) nss assms(3)
  proof (cases rule: Execute_cases [where r = r and hght = hght and actor = actor and ts = ts and aid = aid])
    case (refused e)
    then show ?thesis using assms(4,5) by simp
  next
    case (recorded new w)
    then have run: "record_rollup E S w r (register nss (rr_Namespace r)) new m = (res, m')" using assms(5) by simp
    note v = rollups.record_rollup_views [OF assms(1) run recorded(3)]
    have reg: "\<exists>l. registry_of E S m' = Ok l \<and> ns \<in> set l"
      using v(3) nss mem(1) by (auto simp: register_def)
    have "info_of E S m ns = Ok (Some j)"
      using assms(4) nss mem(1) by (simp add: rollups_of_def split: res.splits)
    then have info: "info_of E S m' ns = Ok (Some j) \<or> ns = rr_Namespace r \<and> info_of E S m' ns = Ok (Some new)"
      using v(1) v(2) [OF mem(2)] by metis
    have "ns = rr_Namespace r \<Longrightarrow> ri_AuthoritySEQAddress j = actor"
      using recorded(1) assms(4) by (auto simp: info_recorded_def Let_def split: if_splits)
    then show ?thesis using reg info by (auto simp: rollups_of_def)
  qed
qed

text \<open>
  C31: a registered rollup never disappears, and only its authority changes it: if an execution,
  successful or not, leaves another info for a registered namespace, then it was the namespace of
  the action and the actor is the authority recorded before.
\<close>

theorem registration_authority_only:
  assumes "rollups S E" "registry_ok E S m" "GetEpochLength rules \<noteq> 0" "rollups_of E S m ns = Some j"
    and "RollupRegistration_Execute E S r rules ts hght actor aid m = (res, m')"
  shows "rollups_of E S m' ns \<noteq> None
    \<and> (rollups_of E S m' ns \<noteq> Some j \<longrightarrow> ns = rr_Namespace r \<and> actor = ri_AuthoritySEQAddress j)"
  using assms by (rule RollupRegistration_authority)

theorem registration_refines_spec_witness:
  "\<exists>m'. RollupRegistration_Execute ref map_store demo_registration demo_rules 0 13 alice [] Map.empty
      = (Ok ([], demo_registration), m') \<and> rollups_of ref map_store m' demo_ns = Some demo_info"
proof -
  have pk: "PackNamespaces ref (register [] (rr_Namespace demo_registration)) = Inr (r_enc_list rp_enc_bytes [demo_ns])"
    using demo_packed by (simp add: register_def demo_registration_def)
  have new: "rollups_of ref map_store Map.empty (rr_Namespace demo_registration) = None"
    by (simp add: rollups_of_def empty_registry)
  have sp: "registration_spec (MaxNamespaceLen ref) (13 div GetEpochLength demo_rules) alice demo_registration
      (rollups_of ref map_store Map.empty (rr_Namespace demo_registration)) = Some demo_info"
    unfolding new by (simp add: registration_spec_def info_recorded_def other_epochs_def demo_registration_def demo_epoch_length)
      (simp add: demo_info_def demo_ns_def)
  have epochs: "\<not> (rr_OpCode demo_registration = CreateRollup
      \<and> other_epochs demo_registration (rollups_of ref map_store Map.empty (rr_Namespace demo_registration)))"
    by (simp add: new other_epochs_def)
  have L: "GetEpochLength demo_rules \<noteq> 0" by (simp add: demo_epoch_length)
  have enc: "packer_Err ref (RollupInfo_Marshal ref demo_info (NewWriter ref (RollupInfo_Size ref demo_info) (NetworkSizeLimit ref))) = None"
    by (simp add: rp_write_def r_writer_def demo_info_length)
  have "demo_registration\<lparr>rr_Info := demo_info\<rparr> = demo_registration" "rr_Namespace demo_registration = demo_ns"
    by (simp_all add: demo_registration_def)
  then show ?thesis
    using registration_refines_spec [OF ref_rollups.rollups_axioms map_kv.kv_total_axioms empty_registry(2,1) L pk epochs,
        where hght = 13 and actor = alice and ts = 0 and aid = "[]", unfolded sp] enc by auto
qed

lemma create_overwrites_epochs_example:
  "\<exists>m'. RollupRegistration_Execute ref map_store (demo_registration\<lparr>rr_Info := demo_info\<lparr>ri_StartEpoch := 9\<rparr>\<rparr>) demo_rules 0 13 alice [] demo_rollup_state
      = (Ok ([], demo_registration\<lparr>rr_Info := demo_info\<lparr>ri_StartEpoch := 9\<rparr>\<rparr>), m')
     \<and> rollups_of ref map_store m' demo_ns = Some (demo_info\<lparr>ri_StartEpoch := 9\<rparr>)"
proof -
  let ?i = "demo_info\<lparr>ri_StartEpoch := 9\<rparr>"
  let ?r = "demo_registration\<lparr>rr_Info := ?i\<rparr>"
  have r: "rr_Namespace ?r = demo_ns" "rr_Info ?r = ?i" "rr_OpCode ?r = CreateRollup"
    by (simp_all add: demo_registration_def CreateRollup_def)
  have L: "GetEpochLength demo_rules \<noteq> 0" by (simp add: demo_epoch_length)
  have pk: "PackNamespaces ref (register [demo_ns] (rr_Namespace ?r)) = Inr (r_enc_list rp_enc_bytes [demo_ns])"
    using demo_packed by (simp add: register_def r)
  have "length (r_enc_info ?i) = 102"
    by (simp add: r_enc_info_def demo_info_def demo_ns_def rp_enc_bytes_def)
  then have enc: "packer_Err ref (RollupInfo_Marshal ref ?i (NewWriter ref (RollupInfo_Size ref ?i) (NetworkSizeLimit ref))) = None"
    by (simp add: rp_write_def r_writer_def)
  have i: "ri_AuthoritySEQAddress demo_info = alice" "ri_Namespace ?i = demo_ns" "ri_StartEpoch ?i = 9" "ri_ExitEpoch ?i = 0"
    "length demo_ns \<le> MaxNamespaceLen ref" "other_epochs ?r (Some demo_info)"
    by (simp_all add: demo_info_def demo_registration_def demo_ns_def other_epochs_def)
  show ?thesis
    using create_overwrites_epochs [OF ref_rollups.rollups_axioms map_kv.kv_total_axioms demo_rollup_views(4,1) L pk, unfolded r,
        OF demo_rollup_views(3) i(1) refl i(2,5) _ i(4,6) enc, of 13 0 "[]"] by (simp add: demo_epoch_length i(3) r(2))
qed

lemma registration_keeps_registry_ok_example:
  "registry_ok ref map_store (snd (RollupRegistration_Execute ref map_store
     (demo_registration\<lparr>rr_OpCode := 2\<rparr>) demo_rules 0 13 alice [] demo_rollup_state))"
proof -
  obtain res m' where run: "RollupRegistration_Execute ref map_store
     (demo_registration\<lparr>rr_OpCode := 2\<rparr>) demo_rules 0 13 alice [] demo_rollup_state = (res, m')" by fastforce
  have L: "GetEpochLength demo_rules \<noteq> 0" by (simp add: demo_epoch_length)
  show ?thesis
    using registration_keeps_registry_ok [OF ref_rollups.rollups_axioms demo_rollup_views(4) L run] by (simp add: run)
qed

theorem registration_authority_only_witness:
  "rollups_of ref map_store (snd (RollupRegistration_Execute ref map_store
     (demo_registration\<lparr>rr_OpCode := 2\<rparr>) demo_rules 0 13 bob [] demo_rollup_state)) demo_ns = Some demo_info"
proof -
  obtain res m' where run: "RollupRegistration_Execute ref map_store
     (demo_registration\<lparr>rr_OpCode := 2\<rparr>) demo_rules 0 13 bob [] demo_rollup_state = (res, m')" by fastforce
  have L: "GetEpochLength demo_rules \<noteq> 0" by (simp add: demo_epoch_length)
  show ?thesis
    using registration_authority_only [OF ref_rollups.rollups_axioms demo_rollup_views(4) L demo_rollup_views(3) run]
    by (auto simp: run demo_info_def)
qed

end
