(* ===== verification/Seq_Epoch_Exit.thy ===== *)
theory Seq_Epoch_Exit
  imports Seq_Rollup_Register
begin

text \<open>
  \<open>src/actions/epoch_exit.go\<close>: a registered rollup leaves an epoch out, or takes that back. The
  abstract view of the state is, for every epoch, the list of its exits. Shown: a timely exit refines the
  specification; the code accepts late ones as well.
\<close>

section \<open>Definitions\<close>

definition CreateExit :: i64 where "CreateExit = 0"
definition DeleteExit :: i64 where "DeleteExit = 1"

record EpochExit =
  ee_Info :: EpochInfo
  ee_Epoch :: u64
  ee_OpCode :: i64

definition EpochExit_GetTypeID :: "('p, 'x) hactions_scheme \<Rightarrow> u8" where
  "EpochExit_GetTypeID E = EpochExitID E"

definition EpochExit_StateKeys :: "('p, 'x) hactions_scheme \<Rightarrow> EpochExit \<Rightarrow> Address \<Rightarrow> ID \<Rightarrow> Keys res" where
  "EpochExit_StateKeys E e actor aid =
     Ok [EpochExitsKey E (ee_Epoch e) \<mapsto> All, RollupInfoKey E (ei_Namespace (ee_Info e)) \<mapsto> {Read},
         RollupRegistryKey E \<mapsto> {Read}]"

definition EpochExit_StateKeysMaxChunks :: "('p, 'x) hactions_scheme \<Rightarrow> u16 list" where
  "EpochExit_StateKeysMaxChunks E = [EpochExitsChunks E, RollupInfoChunks E, RollupRegistryChunks E]"

text \<open>The two loops over the exits: is there one with the namespace, and at which index.\<close>

fun exit_exists :: "bytes \<Rightarrow> EpochInfo list \<Rightarrow> bool" where
  "exit_exists ns [] = False"
| "exit_exists ns (es # rest) = (if ns = ei_Namespace es then True else exit_exists ns rest)"

fun exit_index :: "bytes \<Rightarrow> nat \<Rightarrow> EpochInfo list \<Rightarrow> int" where
  "exit_index ns i [] = -1"
| "exit_index ns i (es # rest) = (if ns = ei_Namespace es then int i else exit_index ns (Suc i) rest)"

text \<open>\<open>slices.Delete(s, i, j)\<close>.\<close>

definition slices_Delete :: "'a list \<Rightarrow> nat \<Rightarrow> nat \<Rightarrow> 'a list res" where
  "slices_Delete s i j = (if i \<le> j \<and> j \<le> length s then Ok (take i s @ drop j s) else Panic IndexOutOfRange)"

text \<open>The two cases of the switch.\<close>

definition create_exit ::
    "('p, 'x) hactions_scheme \<Rightarrow> 'm Mutable \<Rightarrow> EpochExit \<Rightarrow> EpochExitInfo option \<Rightarrow> bool \<Rightarrow> ('m, bytes list) go" where
  "create_exit E S e epochExits exists =
     go_bind (if exists then
         go_bind (go_deref epochExits) (\<lambda>x.
         go_guard (\<not> exit_exists (ei_Namespace (ee_Info e)) (Exits x))
           (Errorf ''exit already exists, namespace: %s, epoch: %d'' [FHex (ei_Namespace (ee_Info e)), FU (ee_Epoch e)]))
       else go_return ()) (\<lambda>_.
     go_bind (go_deref (if \<not> exists then Some \<lparr>Exits = []\<rparr> else epochExits)) (\<lambda>x.
     go_bind (SetEpochExits E S (ee_Epoch e) \<lparr>Exits = Exits x @ [ee_Info e]\<rparr>) (\<lambda>_.
     go_return [])))"

definition delete_exit ::
    "('p, 'x) hactions_scheme \<Rightarrow> 'm Mutable \<Rightarrow> EpochExit \<Rightarrow> EpochExitInfo option \<Rightarrow> bool \<Rightarrow> ('m, bytes list) go" where
  "delete_exit E S e epochExits exists =
     go_bind (if exists then
         go_bind (go_deref epochExits) (\<lambda>x. go_return (exit_index (ei_Namespace (ee_Info e)) 0 (Exits x)))
       else go_return (-1)) (\<lambda>idx.
     go_bind (go_guard (idx \<noteq> -1)
       (Errorf ''exit not found, namespace: %s, epoch: %d'' [FHex (ei_Namespace (ee_Info e)), FU (ee_Epoch e)])) (\<lambda>_.
     go_bind (go_deref epochExits) (\<lambda>x.
     go_bind (go_lift (slices_Delete (Exits x) (nat idx) (nat (idx + 1)))) (\<lambda>xs.
     go_bind (SetEpochExits E S (ee_Epoch e) \<lparr>Exits = xs\<rparr>) (\<lambda>_.
     go_return [])))))"

definition EpochExit_Execute ::
    "('p, 'x) hactions_scheme \<Rightarrow> 'm Mutable \<Rightarrow> EpochExit \<Rightarrow> Rules \<Rightarrow> i64 \<Rightarrow> u64 \<Rightarrow> Address \<Rightarrow> ID \<Rightarrow> ('m, bytes list) go" where
  "EpochExit_Execute E S e rules ts hght actor aid =
     go_bind (go_guard (\<not> ee_Epoch e \<noteq> ei_Epoch (ee_Info e))
       (Errorf ''epoch is not equal to what's in the meta, expected: %d, actual: %d''
         [FU (ee_Epoch e), FU (ei_Epoch (ee_Info e))])) (\<lambda>_.
     go_bind (GetRollupRegistry E S) (\<lambda>nss.
     go_bind (go_guard (contains nss (ei_Namespace (ee_Info e)))
       (Errorf ''namespace is not registered, namespace: %s'' [FHex (ei_Namespace (ee_Info e))])) (\<lambda>_.
     go_bind (GetRollupInfo E S (ei_Namespace (ee_Info e))) (\<lambda>p.
     go_bind (go_deref p) (\<lambda>rollupInfo.
     go_bind (go_guard (\<not> ri_AuthoritySEQAddress rollupInfo \<noteq> actor) ErrNotAuthorized) (\<lambda>_.
     go_bind (GetEpochExits E S (ee_Epoch e)) (\<lambda>(epochExits, exists).
     if ee_OpCode e = CreateExit then create_exit E S e epochExits exists
     else if ee_OpCode e = DeleteExit then delete_exit E S e epochExits exists
     else go_error (Errorf ''op code(%d) not supported'' [FI (sint (ee_OpCode e))]))))))))"

definition EpochExit_ComputeUnits :: u64 where "EpochExit_ComputeUnits = EpochExitComputeUnits"

definition EpochExit_Size :: "('p, 'x) hactions_scheme \<Rightarrow> EpochExit \<Rightarrow> int" where
  "EpochExit_Size E e = EpochInfo_Size E (ee_Info e) + int (Uint64Len E) + int (IntLen E)"

definition EpochExit_Marshal :: "('p, 'x) hactions_scheme \<Rightarrow> EpochExit \<Rightarrow> 'p \<Rightarrow> 'p" where
  "EpochExit_Marshal E e p =
     (let p = EpochInfo_Marshal E (ee_Info e) p;
          p = PackUint64 E (ee_Epoch e) p in
      PackInt E (ee_OpCode e) p)"

text \<open>The last two reads are not followed by a look at the packer's error.\<close>

definition UnmarshalEpochExit :: "('p, 'x) hactions_scheme \<Rightarrow> 'p \<Rightarrow> EpochExit returned \<times> 'p" where
  "UnmarshalEpochExit E p =
     (case UnmarshalEpochInfo E p of (r, p) \<Rightarrow>
      (case r of
         Inl e \<Rightarrow> ((None, Some e), p)
       | Inr info \<Rightarrow>
           (case UnpackUint64 E True p of (epoch, p) \<Rightarrow>
            case UnpackInt E False p of (opcode, p) \<Rightarrow>
            ((Some \<lparr>ee_Info = info, ee_Epoch = epoch, ee_OpCode = opcode\<rparr>, None), p))))"

definition EpochExit_ValidRange :: "i64 \<times> i64" where "EpochExit_ValidRange = (-1, -1)"

definition EpochExit_NMTNamespace :: bytes where "EpochExit_NMTNamespace = DefaultNMTNamespace"

definition EpochExit_UseFeeMarket :: bool where "EpochExit_UseFeeMarket = False"

section \<open>The invariant and the specification\<close>

text \<open>The exits of an epoch; no record is no exits.\<close>

definition exit_list :: "('p, 'x) hactions_scheme \<Rightarrow> 'm Mutable \<Rightarrow> 'm \<Rightarrow> u64 \<Rightarrow> EpochInfo list" where
  "exit_list E S m e = (case exits_of E S m e of Ok (Some x, _) \<Rightarrow> Exits x | _ \<Rightarrow> [])"

text \<open>Every record is readable, no rollup is in it twice, and its entries are of that epoch and of
  registered rollups.\<close>

definition exits_ok :: "('p, 'x) hactions_scheme \<Rightarrow> 'm Mutable \<Rightarrow> 'm \<Rightarrow> bool" where
  "exits_ok E S m \<longleftrightarrow> (\<forall>e. (\<exists>x. exits_of E S m e = Ok x) \<and> distinct (map ei_Namespace (exit_list E S m e))
     \<and> (\<forall>y\<in>set (exit_list E S m e). ei_Epoch y = e \<and> rollups_of E S m (ei_Namespace y) \<noteq> None))"

text \<open>The exits an operation of the code leaves, given the rollup's registered info and the exits so
  far; \<open>None\<close> when the code refuses.\<close>

definition exits_left :: "Address \<Rightarrow> EpochExit \<Rightarrow> RollupInfo option \<Rightarrow> EpochInfo list \<Rightarrow> EpochInfo list option" where
  "exits_left actor e old xs =
     (if ee_Epoch e \<noteq> ei_Epoch (ee_Info e) then None
      else case old of
        None \<Rightarrow> None
      | Some j \<Rightarrow>
          if ri_AuthoritySEQAddress j \<noteq> actor then None
          else if ee_OpCode e = 0 then
            (if ei_Namespace (ee_Info e) \<in> ei_Namespace ` set xs then None else Some (xs @ [ee_Info e]))
          else if ee_OpCode e = 1 then
            (if ei_Namespace (ee_Info e) \<in> ei_Namespace ` set xs
             then Some (filter (\<lambda>y. ei_Namespace y \<noteq> ei_Namespace (ee_Info e)) xs) else None)
          else None)"

text \<open>
  The specification, as \<open>arcadia.md\<close> has it: a rollup opts out for epoch \<open>K\<close>, or takes that back, before the
  end of epoch \<open>K - 2\<close>, when the list of participating rollups is final; \<open>epoch\<close> is the current one.
\<close>

definition timely :: "u64 \<Rightarrow> EpochExit \<Rightarrow> bool" where
  "timely epoch e \<longleftrightarrow> unat epoch + 2 \<le> unat (ee_Epoch e)"

definition exit_spec :: "u64 \<Rightarrow> Address \<Rightarrow> EpochExit \<Rightarrow> RollupInfo option \<Rightarrow> EpochInfo list \<Rightarrow> EpochInfo list option" where
  "exit_spec epoch actor e old xs = (if timely epoch e then exits_left actor e old xs else None)"

section \<open>Lemmas\<close>

lemma exit_exists_iff [simp]: "exit_exists ns xs \<longleftrightarrow> ns \<in> ei_Namespace ` set xs"
  by (induction xs) auto

lemma exit_index_none: "exit_index ns i xs = -1 \<longleftrightarrow> ns \<notin> ei_Namespace ` set xs"
  by (induction xs arbitrary: i) auto

lemma exit_index_delete:
  assumes "ns \<in> ei_Namespace ` set xs" "distinct (map ei_Namespace xs)"
  shows "\<exists>k. exit_index ns i xs = int (i + k) \<and> k < length xs
    \<and> take k xs @ drop (Suc k) xs = filter (\<lambda>y. ei_Namespace y \<noteq> ns) xs"
  using assms
proof (induction xs arbitrary: i)
  case (Cons x xs)
  show ?case
  proof (cases "ns = ei_Namespace x")
    case True
    then have "filter (\<lambda>y. ei_Namespace y \<noteq> ns) xs = xs"
      using Cons.prems(2) by (auto simp: filter_id_conv) (metis imageI)
    with True show ?thesis by (intro exI [of _ 0]) simp
  next
    case False
    then obtain k where "exit_index ns (Suc i) xs = int (Suc i + k)" "k < length xs"
      "take k xs @ drop (Suc k) xs = filter (\<lambda>y. ei_Namespace y \<noteq> ns) xs"
      using Cons.IH [of "Suc i"] Cons.prems by auto
    with False show ?thesis by (intro exI [of _ "Suc k"]) simp
  qed
qed simp

lemma slices_Delete_index:
  assumes "ns \<in> ei_Namespace ` set xs" "distinct (map ei_Namespace xs)"
  shows "slices_Delete xs (nat (exit_index ns 0 xs)) (nat (exit_index ns 0 xs + 1)) = Ok (filter (\<lambda>y. ei_Namespace y \<noteq> ns) xs)"
proof -
  obtain k where k: "exit_index ns 0 xs = int k" "k < length xs"
    "take k xs @ drop (Suc k) xs = filter (\<lambda>y. ei_Namespace y \<noteq> ns) xs"
    using exit_index_delete [OF assms, of 0] by auto
  then show ?thesis by (simp add: slices_Delete_def nat_add_distrib)
qed

lemma exits_of_list:
  assumes "exits_of E S m e = Ok (x, b)"
  shows "exit_list E S m e = (case x of None \<Rightarrow> [] | Some y \<Rightarrow> Exits y)" "b = (x \<noteq> None)"
  using assms exits_of_cases [OF assms] by (auto simp: exit_list_def split: option.splits)

lemma exit_list_cong: "exits_of E S m' e = exits_of E S m e \<Longrightarrow> exit_list E S m' e = exit_list E S m e"
  by (simp add: exit_list_def)

text \<open>The write at the end of every successful operation.\<close>

definition record_exits ::
    "('p, 'x) hactions_scheme \<Rightarrow> 'm Mutable \<Rightarrow> EpochExit \<Rightarrow> EpochInfo list \<Rightarrow> ('m, bytes list) go" where
  "record_exits E S e xs = go_bind (SetEpochExits E S (ee_Epoch e) \<lparr>Exits = xs\<rparr>) (\<lambda>_. go_return [])"

lemma create_exit_eq:
  assumes "exits_of E S m (ee_Epoch e) = Ok (x, b)"
  shows "create_exit E S e x b m =
    (if ei_Namespace (ee_Info e) \<in> ei_Namespace ` set (exit_list E S m (ee_Epoch e))
     then (Error (Errorf ''exit already exists, namespace: %s, epoch: %d'' [FHex (ei_Namespace (ee_Info e)), FU (ee_Epoch e)]), m)
     else record_exits E S e (exit_list E S m (ee_Epoch e) @ [ee_Info e]) m)"
  using exits_of_list [OF assms]
  by (cases x) (auto simp: create_exit_def record_exits_def)

lemma delete_exit_eq:
  assumes "exits_of E S m (ee_Epoch e) = Ok (x, b)" "distinct (map ei_Namespace (exit_list E S m (ee_Epoch e)))"
  shows "delete_exit E S e x b m =
    (if ei_Namespace (ee_Info e) \<in> ei_Namespace ` set (exit_list E S m (ee_Epoch e))
     then record_exits E S e (filter (\<lambda>y. ei_Namespace y \<noteq> ei_Namespace (ee_Info e)) (exit_list E S m (ee_Epoch e))) m
     else (Error (Errorf ''exit not found, namespace: %s, epoch: %d'' [FHex (ei_Namespace (ee_Info e)), FU (ee_Epoch e)]), m))"
proof (cases "ei_Namespace (ee_Info e) \<in> ei_Namespace ` set (exit_list E S m (ee_Epoch e))")
  case True
  then obtain y where y: "x = Some y" "b" "exit_list E S m (ee_Epoch e) = Exits y"
    using exits_of_list [OF assms(1)] by (cases x) auto
  have "exit_index (ei_Namespace (ee_Info e)) 0 (Exits y) \<noteq> -1"
    using True y(3) by (simp add: exit_index_none)
  with True y assms(2) show ?thesis
    by (simp add: delete_exit_def record_exits_def slices_Delete_index)
next
  case False
  then have "b \<Longrightarrow> exit_index (ei_Namespace (ee_Info e)) 0 (Exits (the x)) = -1"
    using exits_of_list [OF assms(1)] by (auto simp: exit_index_none)
  then show ?thesis
    using False exits_of_list [OF assms(1)] by (cases x) (auto simp: delete_exit_def)
qed

text \<open>Every execution either fails without a change or is the recording of the specified exits.\<close>

text \<open>The checks of an execution for a registered namespace, and that for another one.\<close>

lemma EpochExit_Execute_run:
  assumes "registry_of E S m = Ok nss" "ei_Namespace (ee_Info e) \<in> set nss" "info_of E S m (ei_Namespace (ee_Info e)) = Ok (Some i)"
    and "exits_of E S m (ee_Epoch e) = Ok (x, b)"
  shows "EpochExit_Execute E S e rules ts hght actor aid m =
     (if ee_Epoch e \<noteq> ei_Epoch (ee_Info e)
      then (Error (Errorf ''epoch is not equal to what's in the meta, expected: %d, actual: %d''
       [FU (ee_Epoch e), FU (ei_Epoch (ee_Info e))]), m)
      else if ri_AuthoritySEQAddress i \<noteq> actor then (Error ErrNotAuthorized, m)
      else if ee_OpCode e = 0 then create_exit E S e x b m
      else if ee_OpCode e = 1 then delete_exit E S e x b m
      else (Error (Errorf ''op code(%d) not supported'' [FI (sint (ee_OpCode e))]), m))"
proof -
  have "ee_Epoch e = ei_Epoch (ee_Info e) \<Longrightarrow> exits_of E S m (ei_Epoch (ee_Info e)) = Ok (x, b)"
    using assms(4) by simp
  then show ?thesis
    using assms by (simp add: EpochExit_Execute_def CreateExit_def DeleteExit_def go_bind_def getters_run go_defs)
qed

lemma EpochExit_Execute_unregistered:
  assumes "registry_of E S m = Ok nss" "ei_Namespace (ee_Info e) \<notin> set nss"
  shows "exits_left actor e (rollups_of E S m (ei_Namespace (ee_Info e))) xs = None"
    and "\<exists>err. EpochExit_Execute E S e rules ts hght actor aid m = (Error err, m)"
  using assms by (simp_all add: exits_left_def rollups_of_def EpochExit_Execute_def go_bind_def getters_run go_defs)

lemma EpochExit_Execute_cases:
  assumes "registry_ok E S m" "exits_ok E S m"
  obtains (refused) err where
      "exits_left actor e (rollups_of E S m (ei_Namespace (ee_Info e))) (exit_list E S m (ee_Epoch e)) = None"
      "EpochExit_Execute E S e rules ts hght actor aid m = (Error err, m)"
  | (recorded) xs where
      "exits_left actor e (rollups_of E S m (ei_Namespace (ee_Info e))) (exit_list E S m (ee_Epoch e)) = Some xs"
      "EpochExit_Execute E S e rules ts hght actor aid m = record_exits E S e xs m"
proof -
  let ?ns = "ei_Namespace (ee_Info e)"
  obtain nss where nss: "registry_of E S m = Ok nss" "\<And>ns. ns \<in> set nss \<Longrightarrow> \<exists>i. info_of E S m ns = Ok (Some i)"
    using assms(1) unfolding registry_ok_def by blast
  obtain x b where x: "exits_of E S m (ee_Epoch e) = Ok (x, b)"
    using assms(2) unfolding exits_ok_def by (metis surj_pair)
  have dist: "distinct (map ei_Namespace (exit_list E S m (ee_Epoch e)))"
    using assms(2) by (simp add: exits_ok_def)
  show thesis
  proof (cases "?ns \<in> set nss")
    case False
    then show thesis using refused EpochExit_Execute_unregistered [OF nss(1) False] by blast
  next
    case True
    then obtain i where i: "info_of E S m ?ns = Ok (Some i)" using nss(2) by blast
    note run = EpochExit_Execute_run [OF nss(1) True i x]
    have spec: "exits_left actor e (rollups_of E S m ?ns) xs = exits_left actor e (Some i) xs" for xs
      using True by (simp add: rollups_of_def nss(1) i)
    show thesis
    proof (cases "exits_left actor e (rollups_of E S m ?ns) (exit_list E S m (ee_Epoch e))")
      case None
      then have "\<exists>err. EpochExit_Execute E S e rules ts hght actor aid m = (Error err, m)"
        unfolding run spec create_exit_eq [OF x] delete_exit_eq [OF x dist]
        by (simp add: exits_left_def split: if_splits)
      with None show thesis using refused by blast
    next
      case (Some xs)
      then have "EpochExit_Execute E S e rules ts hght actor aid m = record_exits E S e xs m"
        unfolding run spec create_exit_eq [OF x] delete_exit_eq [OF x dist]
        by (simp add: exits_left_def split: if_splits)
      with Some show thesis by (rule recorded)
    qed
  qed
qed

lemma exits_left_Some:
  assumes "exits_left actor e old xs = Some ys"
  shows "\<exists>j. old = Some j \<and> ri_AuthoritySEQAddress j = actor" "ei_Epoch (ee_Info e) = ee_Epoch e"
    "distinct (map ei_Namespace xs) \<Longrightarrow> distinct (map ei_Namespace ys)"
    "set ys \<subseteq> insert (ee_Info e) (set xs)"
    "filter (\<lambda>y. ei_Namespace y \<noteq> ei_Namespace (ee_Info e)) ys = filter (\<lambda>y. ei_Namespace y \<noteq> ei_Namespace (ee_Info e)) xs"
  using assms by (auto simp: exits_left_def distinct_map_filter split: if_splits option.splits)

context rollups
begin

lemma record_exits_views:
  assumes "record_exits E S e xs m = (res, m')"
  shows "rollups_of E S m' = rollups_of E S m" "registry_ok E S m' = registry_ok E S m"
    "e' \<noteq> ee_Epoch e \<Longrightarrow> exits_of E S m' e' = exits_of E S m e'"
    "res = Ok u \<Longrightarrow> u = [] \<and> exits_of E S m' (ee_Epoch e) = Ok (Some \<lparr>Exits = xs\<rparr>, True)"
    "\<nexists>u. res = Ok u \<Longrightarrow> exits_of E S m' (ee_Epoch e) = exits_of E S m (ee_Epoch e)"
    "\<not> is_panic res"
proof -
  obtain r1 m1 where 1: "SetEpochExits E S (ee_Epoch e) \<lparr>Exits = xs\<rparr> m = (r1, m1)" by fastforce
  have m': "m' = m1" "res = Ok u \<Longrightarrow> u = [] \<and> r1 = Ok ()" "r1 = Ok () \<Longrightarrow> \<exists>u. res = Ok u" "\<not> is_panic res" for u
    using assms 1 by (cases r1; auto simp: record_exits_def go_bind_def go_return_def)+
  note other = SetEpochExits_other [OF 1]
  show "rollups_of E S m' = rollups_of E S m" "registry_ok E S m' = registry_ok E S m"
    by (simp_all add: fun_eq_iff rollups_of_def registry_ok_def m'(1) other split: res.splits)
  show "e' \<noteq> ee_Epoch e \<Longrightarrow> exits_of E S m' e' = exits_of E S m e'" by (simp add: m'(1) other)
  show "res = Ok u \<Longrightarrow> u = [] \<and> exits_of E S m' (ee_Epoch e) = Ok (Some \<lparr>Exits = xs\<rparr>, True)"
    using m'(1,2) SetEpochExits_reads 1 by simp
  show "\<nexists>u. res = Ok u \<Longrightarrow> exits_of E S m' (ee_Epoch e) = exits_of E S m (ee_Epoch e)"
    using m'(1,3) setters_refused(3) [OF _ 1] by (intro views_cong(3)) (metis old.unit.exhaust)
  show "\<not> is_panic res" by (rule m')
qed

lemma EpochExit_Execute_writes [writes]:
  assumes "EpochExitsKey E (ee_Epoch e) \<in> K"
  shows "writes_only S K (EpochExit_Execute E S e rules ts hght actor aid)"
proof -
  have reads: "writes_only S K (GetRollupRegistry E S)" "writes_only S K (GetRollupInfo E S ns)"
    "writes_only S K (GetEpochExits E S x)" for ns x
    by (auto intro!: writes_only_reads)
  have "writes_only S K (create_exit E S e x b)" "writes_only S K (delete_exit E S e x b)" for x b
    unfolding create_exit_def delete_exit_def by (intro writes assms)+
  then show ?thesis
    unfolding EpochExit_Execute_def by (intro writes reads)
qed

end

context rollup_packer
begin

lemma EpochExit_packs:
  "packs E (EpochExit_Marshal E e) (enc_epoch (ee_Info e) @ enc_u64 (ee_Epoch e) @ enc_int (ee_OpCode e))"
  unfolding EpochExit_Marshal_def Let_def append_assoc [symmetric]
  by (intro packs_comp packs_basic pack_epoch)

lemma EpochExit_unpacks:
  assumes "length (enc_epoch (ee_Info e)) < 2 ^ 31" "ee_Epoch e \<noteq> 0" "unat (ee_OpCode e) < 2 ^ 31"
  shows "unpacks E left (UnmarshalEpochExit E) (Some e, None)
    (enc_epoch (ee_Info e) @ enc_u64 (ee_Epoch e) @ enc_int (ee_OpCode e) @ [])"
  unfolding UnmarshalEpochExit_def
proof (rule unpacks_bind [OF unpack_epoch [OF assms(1)]], simp only: sum.case)
  show "unpacks E left (\<lambda>p. case UnpackUint64 E True p of (epoch, p) \<Rightarrow>
            case UnpackInt E False p of (opcode, p) \<Rightarrow>
            ((Some \<lparr>ee_Info = ee_Info e, ee_Epoch = epoch, ee_OpCode = opcode\<rparr>, None), p))
     (Some e, None) (enc_u64 (ee_Epoch e) @ enc_int (ee_OpCode e) @ [])"
    using assms(2,3) by (intro unpacks_steps unpacks_return) simp_all
qed

end

context rollups
begin

lemma record_exits_ok:
  assumes "exits_ok E S m" "record_exits E S e xs m = (res, m')"
    and "exits_left actor e (rollups_of E S m (ei_Namespace (ee_Info e))) (exit_list E S m (ee_Epoch e)) = Some xs"
  shows "exits_ok E S m'"
proof -
  note v = record_exits_views [OF assms(2)]
  note spec = exits_left_Some [OF assms(3)]
  have old: "\<exists>x. exits_of E S m ep = Ok x" "distinct (map ei_Namespace (exit_list E S m ep))"
    "y \<in> set (exit_list E S m ep) \<Longrightarrow> ei_Epoch y = ep \<and> rollups_of E S m (ei_Namespace y) \<noteq> None" for ep y
    using assms(1) by (simp_all add: exits_ok_def)
  consider u where "res = Ok u" | "\<nexists>u. res = Ok u" by blast
  then show ?thesis
  proof cases
    case 1
    have same: "ep \<noteq> ee_Epoch e \<Longrightarrow> exit_list E S m' ep = exit_list E S m ep" for ep
      using v(3) exit_list_cong by metis
    have read: "\<exists>x. exits_of E S m' ep = Ok x" for ep
      using v(3) [of ep] v(4) [OF 1] old(1) [of ep] by (cases "ep = ee_Epoch e") auto
    have new: "exit_list E S m' (ee_Epoch e) = xs" using v(4) [OF 1] by (simp add: exit_list_def)
    have entry: "ei_Epoch y = ep \<and> rollups_of E S m (ei_Namespace y) \<noteq> None" if "y \<in> set (exit_list E S m' ep)" for y ep
      using that same new spec(1,2,4) old(3) by (cases "ep = ee_Epoch e") auto
    have "distinct (map ei_Namespace (exit_list E S m' ep))" for ep
      using same new spec(3) [OF old(2)] old(2) by (cases "ep = ee_Epoch e") simp_all
    with read entry show ?thesis unfolding exits_ok_def v(1) by blast
  next
    case 2
    have "exits_of E S m' ep = exits_of E S m ep" for ep
      using v(3) [of ep] v(5) [OF 2] by (cases "ep = ee_Epoch e") simp_all
    then show ?thesis using assms(1) v(1) unfolding exits_ok_def exit_list_def by simp
  qed
qed

end

lemma EpochExit_Execute_total:
  assumes "rollups S E" "kv_total S" "registry_ok E S m" "exits_ok E S m"
    and spec: "exits_left actor e (rollups_of E S m (ei_Namespace (ee_Info e))) (exit_list E S m (ee_Epoch e)) = Some xs"
    and enc: "packer_Err E (EpochExitInfo_Marshal E \<lparr>Exits = xs\<rparr>
          (NewWriter E (sum_list (map (EpochInfo_Size E) xs)) (NetworkSizeLimit E))) = None"
  shows "\<exists>m'. EpochExit_Execute E S e rules ts hght actor aid m = (Ok [], m')
    \<and> exit_list E S m' = (exit_list E S m)(ee_Epoch e := xs) \<and> rollups_of E S m' = rollups_of E S m
    \<and> registry_ok E S m' \<and> exits_ok E S m'"
proof -
  have "EpochExit_Execute E S e rules ts hght actor aid m = record_exits E S e xs m"
    using assms(3,4) by (cases rule: EpochExit_Execute_cases [where e = e and actor = actor and rules = rules and ts = ts
        and hght = hght and aid = aid]) (use spec in auto)
  moreover obtain m' where "SetEpochExits E S (ee_Epoch e) \<lparr>Exits = xs\<rparr> m = (Ok (), m')"
    using kv_total.go_insert_accepted [OF assms(2)] enc by (simp add: SetEpochExits_def setEpochExits_def Let_def) blast
  then have run: "record_exits E S e xs m = (Ok [], m')" by (simp add: record_exits_def go_bind_def)
  note v = rollups.record_exits_views [OF assms(1) run]
  have "exit_list E S m' e' = ((exit_list E S m)(ee_Epoch e := xs)) e'" for e'
    using v(3) [of e'] v(4) by (auto simp: exit_list_def)
  ultimately show ?thesis
    using run v(1,2) assms(3) rollups.record_exits_ok [OF assms(1,4) run spec] by auto
qed

section \<open>Properties\<close>

text \<open>What the code does, timely or not.\<close>

lemma EpochExit_Execute_outcome:
  assumes "rollups S E" "kv_total S" "registry_ok E S m" "exits_ok E S m"
  shows "case exits_left actor e (rollups_of E S m (ei_Namespace (ee_Info e))) (exit_list E S m (ee_Epoch e)) of
      None \<Rightarrow> \<exists>err. EpochExit_Execute E S e rules ts hght actor aid m = (Error err, m)
    | Some xs \<Rightarrow> packer_Err E (EpochExitInfo_Marshal E \<lparr>Exits = xs\<rparr>
          (NewWriter E (sum_list (map (EpochInfo_Size E) xs)) (NetworkSizeLimit E))) = None \<longrightarrow>
        (\<exists>m'. EpochExit_Execute E S e rules ts hght actor aid m = (Ok [], m')
          \<and> exit_list E S m' = (exit_list E S m)(ee_Epoch e := xs) \<and> rollups_of E S m' = rollups_of E S m)"
  using assms(3,4)
proof (cases rule: EpochExit_Execute_cases [where e = e and actor = actor and rules = rules and ts = ts and hght = hght and aid = aid])
  case (refused err)
  then show ?thesis by simp
next
  case (recorded xs)
  show ?thesis
    using EpochExit_Execute_total [OF assms recorded(1), of rules ts hght aid] unfolding recorded(1) option.case by blast
qed

text \<open>
  C9: a timely epoch exit, one for an epoch at least two after the current one, refines its specification:
  on a well-formed registry and well-formed exits, and a state that accepts writes, it returns without a
  panic; it fails without any write exactly when the specification refuses, and otherwise (the exits being
  encodable) it succeeds, the exits of the epoch are the specified ones and those of other epochs and all
  rollups are as before. Exits that are not timely, which the code accepts as well, are the subject of
  \<open>late_exit_accepted\<close> below.
\<close>

theorem epoch_exit_refines_spec:
  assumes "rollups S E" "kv_total S" "registry_ok E S m" "exits_ok E S m"
    and "Epoch hght (GetEpochLength rules) = Ok epoch" "timely epoch e"
  shows "case exit_spec epoch actor e (rollups_of E S m (ei_Namespace (ee_Info e))) (exit_list E S m (ee_Epoch e)) of
      None \<Rightarrow> \<exists>err. EpochExit_Execute E S e rules ts hght actor aid m = (Error err, m)
    | Some xs \<Rightarrow> packer_Err E (EpochExitInfo_Marshal E \<lparr>Exits = xs\<rparr>
          (NewWriter E (sum_list (map (EpochInfo_Size E) xs)) (NetworkSizeLimit E))) = None \<longrightarrow>
        (\<exists>m'. EpochExit_Execute E S e rules ts hght actor aid m = (Ok [], m')
          \<and> exit_list E S m' = (exit_list E S m)(ee_Epoch e := xs) \<and> rollups_of E S m' = rollups_of E S m)"
  using EpochExit_Execute_outcome [OF assms(1-4)] assms(6) by (simp add: exit_spec_def)

text \<open>
  Where the code departs from the document: it does not look at the height, so that the authority of a
  rollup also creates an exit for the current epoch, or for one that is over, which the specification
  refuses.
\<close>

lemma late_exit_accepted:
  assumes "rollups S E" "kv_total S" "registry_ok E S m" "exits_ok E S m"
    and "\<not> timely epoch e" "ee_OpCode e = 0" "ee_Epoch e = ei_Epoch (ee_Info e)"
    and "rollups_of E S m (ei_Namespace (ee_Info e)) = Some j" "ri_AuthoritySEQAddress j = actor"
    and "ei_Namespace (ee_Info e) \<notin> ei_Namespace ` set (exit_list E S m (ee_Epoch e))"
    and "packer_Err E (EpochExitInfo_Marshal E \<lparr>Exits = exit_list E S m (ee_Epoch e) @ [ee_Info e]\<rparr>
          (NewWriter E (sum_list (map (EpochInfo_Size E) (exit_list E S m (ee_Epoch e) @ [ee_Info e]))) (NetworkSizeLimit E))) = None"
  shows "exit_spec epoch actor e (rollups_of E S m (ei_Namespace (ee_Info e))) (exit_list E S m (ee_Epoch e)) = None
    \<and> (\<exists>m'. EpochExit_Execute E S e rules ts hght actor aid m = (Ok [], m')
          \<and> exit_list E S m' (ee_Epoch e) = exit_list E S m (ee_Epoch e) @ [ee_Info e])"
proof -
  have "exits_left actor e (rollups_of E S m (ei_Namespace (ee_Info e))) (exit_list E S m (ee_Epoch e))
      = Some (exit_list E S m (ee_Epoch e) @ [ee_Info e])"
    using assms(6-10) by (simp add: exits_left_def)
  then show ?thesis
    using EpochExit_Execute_outcome [OF assms(1-4), where actor = actor and e = e and rules = rules and ts = ts and hght = hght and aid = aid] assms(5,11)
    unfolding exit_spec_def by fastforce
qed

lemma EpochExit_keeps:
  assumes "rollups S E" "registry_ok E S m" "exits_ok E S m"
    and "EpochExit_Execute E S e rules ts hght actor aid m = (res, m')"
  shows "registry_ok E S m' \<and> exits_ok E S m' \<and> \<not> is_panic res"
  using assms(2,3)
proof (cases rule: EpochExit_Execute_cases [where e = e and actor = actor and rules = rules and ts = ts and hght = hght and aid = aid])
  case (refused err)
  then show ?thesis using assms(2-4) by simp
next
  case (recorded xs)
  then have run: "record_exits E S e xs m = (res, m')" using assms(4) by simp
  show ?thesis
    using rollups.record_exits_views(2,6) [OF assms(1) run] rollups.record_exits_ok [OF assms(1,3) run recorded(1)] assms(2)
    by simp
qed

text \<open>
  No epoch exit breaks the state, whatever it returns: it never panics, the registry stays
  well formed, and in every epoch every rollup is listed at most once, with that epoch, and is
  registered.
\<close>

lemma epoch_exit_keeps_invariants:
  assumes "rollups S E" "registry_ok E S m" "exits_ok E S m"
    and "EpochExit_Execute E S e rules ts hght actor aid m = (res, m')"
  shows "registry_ok E S m' \<and> exits_ok E S m' \<and> \<not> is_panic res"
  using assms by (rule EpochExit_keeps)

text \<open>
  C32: only the authority of a registered rollup changes its exits: if the exits of some epoch
  differ after an execution, successful or not, then it was the epoch of the action, the rollup
  of the action is registered with the actor as its authority, and the entries of all other
  rollups are as before, in the same order.
\<close>

theorem epoch_exit_authority_only:
  assumes "rollups S E" "registry_ok E S m" "exits_ok E S m"
    and "EpochExit_Execute E S e rules ts hght actor aid m = (res, m')"
    and "exit_list E S m' ep \<noteq> exit_list E S m ep"
  shows "ep = ee_Epoch e \<and> res = Ok []
    \<and> (\<exists>j. rollups_of E S m (ei_Namespace (ee_Info e)) = Some j \<and> ri_AuthoritySEQAddress j = actor)
    \<and> filter (\<lambda>y. ei_Namespace y \<noteq> ei_Namespace (ee_Info e)) (exit_list E S m' ep)
      = filter (\<lambda>y. ei_Namespace y \<noteq> ei_Namespace (ee_Info e)) (exit_list E S m ep)"
  using assms(2,3)
proof (cases rule: EpochExit_Execute_cases [where e = e and actor = actor and rules = rules and ts = ts and hght = hght and aid = aid])
  case (refused err)
  then show ?thesis using assms(4,5) by simp
next
  case (recorded xs)
  then have run: "record_exits E S e xs m = (res, m')" using assms(4) by simp
  note v = rollups.record_exits_views [OF assms(1) run]
  have ep: "ep = ee_Epoch e" using assms(5) v(3) exit_list_cong by metis
  have "\<exists>u. res = Ok u" using assms(5) v(5) exit_list_cong ep by metis
  then have "res = Ok []" "exit_list E S m' ep = xs" using v(4) ep by (auto simp: exit_list_def)
  then show ?thesis using ep exits_left_Some(1,5) [OF recorded(1)] by simp
qed

text \<open>
  An exit that is created and then deleted by its authority leaves the exits of every epoch
  as they were.
\<close>

lemma epoch_exit_create_delete:
  assumes "rollups S E" "registry_ok E S m" "exits_ok E S m" "ee_OpCode e = 0"
    and "EpochExit_Execute E S e rules ts hght actor aid m = (Ok u, m1)"
    and "EpochExit_Execute E S (e\<lparr>ee_OpCode := 1\<rparr>) rules' ts' hght' actor' aid' m1 = (Ok u', m2)"
  shows "exit_list E S m2 = exit_list E S m"
proof
  fix ep
  let ?d = "e\<lparr>ee_OpCode := 1\<rparr>" and ?ns = "ei_Namespace (ee_Info e)"
  have created: "\<exists>xs. exits_left actor e (rollups_of E S m ?ns) (exit_list E S m (ee_Epoch e)) = Some xs
      \<and> record_exits E S e xs m = (Ok u, m1)"
    using assms(2,3,5) by (cases rule: EpochExit_Execute_cases [where e = e and actor = actor and rules = rules and ts = ts
        and hght = hght and aid = aid]) auto
  then obtain xs where xs: "exits_left actor e (rollups_of E S m ?ns) (exit_list E S m (ee_Epoch e)) = Some xs"
    and run: "record_exits E S e xs m = (Ok u, m1)" by blast
  note v = rollups.record_exits_views [OF assms(1) run]
  have new: "xs = exit_list E S m (ee_Epoch e) @ [ee_Info e]" "?ns \<notin> ei_Namespace ` set (exit_list E S m (ee_Epoch e))"
    using xs assms(4) by (auto simp: exits_left_def split: if_splits option.splits)
  have l1: "exit_list E S m1 (ee_Epoch e) = xs" using v(4) by (auto simp: exit_list_def)
  have ok1: "registry_ok E S m1" "exits_ok E S m1"
    using v(2) assms(2) rollups.record_exits_ok [OF assms(1,3) run xs] by simp_all
  have "\<exists>ys. exits_left actor' ?d (rollups_of E S m1 ?ns) xs = Some ys \<and> record_exits E S ?d ys m1 = (Ok u', m2)"
    using ok1 assms(6) by (cases rule: EpochExit_Execute_cases [where e = ?d and actor = actor' and rules = rules'
        and ts = ts' and hght = hght' and aid = aid']) (auto simp: l1)
  then obtain ys where ys: "exits_left actor' ?d (rollups_of E S m1 ?ns) xs = Some ys" "record_exits E S ?d ys m1 = (Ok u', m2)"
    by blast
  note v2 = rollups.record_exits_views [OF assms(1) ys(2)]
  have "ys = filter (\<lambda>y. ei_Namespace y \<noteq> ?ns) xs"
    using ys(1) by (auto simp: exits_left_def split: if_splits option.splits)
  also have "\<dots> = exit_list E S m (ee_Epoch e)"
    using new by (auto simp: filter_id_conv) (metis imageI)
  finally have ys': "ys = exit_list E S m (ee_Epoch e)" .
  show "exit_list E S m2 ep = exit_list E S m ep"
  proof (cases "ep = ee_Epoch e")
    case True
    then show ?thesis using v2(4) ys' by (auto simp: exit_list_def)
  next
    case False
    then show ?thesis using v(3) [of ep] v2(3) [of ep] by (simp add: exit_list_def)
  qed
qed

definition demo_exit :: EpochExit where
  "demo_exit = \<lparr>ee_Info = \<lparr>ei_Epoch = 9, ei_Namespace = demo_ns\<rparr>, ee_Epoch = 9, ee_OpCode = 0\<rparr>"

lemma demo_no_exits: "exits_of ref map_store demo_rollup_state e = Ok (None, False)" "exit_list ref map_store demo_rollup_state e = []"
  "exits_ok ref map_store demo_rollup_state"
proof -
  have "GetValue map_store demo_rollup_state (EpochExitsKey ref e) = Inl ErrNotFound" for e
    by (simp add: demo_rollup_state_def map_store_def)
  then show e: "exits_of ref map_store demo_rollup_state e = Ok (None, False)" for e
    by (simp add: views_eq innerGetEpochExits_def del: ref_simps)
  show l: "exit_list ref map_store demo_rollup_state e = []" for e by (simp add: exit_list_def e)
  show "exits_ok ref map_store demo_rollup_state" by (auto simp: exits_ok_def e l)
qed

lemma demo_exits_left:
  "exits_left alice demo_exit (rollups_of ref map_store demo_rollup_state (ei_Namespace (ee_Info demo_exit)))
     (exit_list ref map_store demo_rollup_state (ee_Epoch demo_exit)) = Some [ee_Info demo_exit]"
proof -
  have ns: "ei_Namespace (ee_Info demo_exit) = demo_ns" by (simp add: demo_exit_def)
  show ?thesis unfolding ns demo_rollup_views(3) demo_no_exits(2)
    by (simp add: exits_left_def demo_exit_def demo_info_def)
qed

lemma demo_exit_encodable:
  "packer_Err ref (EpochExitInfo_Marshal ref \<lparr>Exits = [ee_Info demo_exit]\<rparr> (NewWriter ref n (NetworkSizeLimit ref))) = None"
  by (simp add: rp_write_def r_writer_def r_enc_list_def r_enc_epoch_def rp_enc_bytes_def demo_exit_def demo_ns_def)

lemmas demo_exit_run = EpochExit_Execute_total [OF ref_rollups.rollups_axioms map_kv.kv_total_axioms
    demo_rollup_views(4) demo_no_exits(3) demo_exits_left demo_exit_encodable]

lemma demo_exit_epoch: "ee_Epoch demo_exit = 9" "ei_Namespace (ee_Info demo_exit) = demo_ns"
  by (simp_all add: demo_exit_def)

theorem epoch_exit_refines_spec_witness:
  "\<exists>m'. EpochExit_Execute ref map_store demo_exit demo_rules 0 13 alice [] demo_rollup_state = (Ok [], m')
     \<and> exit_list ref map_store m' 9 = [ee_Info demo_exit]"
proof -
  have ep: "Epoch 13 (GetEpochLength demo_rules) = Ok 2" by (simp add: Epoch_def demo_epoch_length)
  have t: "timely 2 demo_exit" by (simp add: timely_def demo_exit_epoch)
  have "exit_spec 2 alice demo_exit (rollups_of ref map_store demo_rollup_state (ei_Namespace (ee_Info demo_exit)))
     (exit_list ref map_store demo_rollup_state (ee_Epoch demo_exit)) = Some [ee_Info demo_exit]"
    using t demo_exits_left by (simp add: exit_spec_def)
  then show ?thesis
    using epoch_exit_refines_spec [OF ref_rollups.rollups_axioms map_kv.kv_total_axioms demo_rollup_views(4) demo_no_exits(3) ep t,
        where actor = alice and ts = 0 and aid = "[]"]
      demo_exit_encodable demo_exit_epoch(1) by auto
qed

lemma late_exit_accepted_example:
  "\<exists>m'. EpochExit_Execute ref map_store demo_exit demo_rules 0 100 alice [] demo_rollup_state = (Ok [], m')
     \<and> exit_list ref map_store m' 9 = [ee_Info demo_exit]"
proof -
  have late: "\<not> timely 16 demo_exit" by (simp add: timely_def demo_exit_epoch)
  have e: "ee_OpCode demo_exit = 0" "ee_Epoch demo_exit = ei_Epoch (ee_Info demo_exit)"
    "ei_Namespace (ee_Info demo_exit) \<notin> ei_Namespace ` set (exit_list ref map_store demo_rollup_state (ee_Epoch demo_exit))"
    by (simp_all add: demo_exit_def demo_no_exits(2) [unfolded demo_exit_def])
  have j: "rollups_of ref map_store demo_rollup_state (ei_Namespace (ee_Info demo_exit)) = Some demo_info"
    "ri_AuthoritySEQAddress demo_info = alice"
    by (simp add: demo_exit_epoch(2) demo_rollup_views(3)) (simp add: demo_info_def)
  have enc: "packer_Err ref (EpochExitInfo_Marshal ref \<lparr>Exits = exit_list ref map_store demo_rollup_state (ee_Epoch demo_exit) @ [ee_Info demo_exit]\<rparr>
      (NewWriter ref (sum_list (map (EpochInfo_Size ref) (exit_list ref map_store demo_rollup_state (ee_Epoch demo_exit) @ [ee_Info demo_exit])))
        (NetworkSizeLimit ref))) = None"
    unfolding demo_no_exits(2) append_Nil by (rule demo_exit_encodable)
  show ?thesis
    using late_exit_accepted [OF ref_rollups.rollups_axioms map_kv.kv_total_axioms demo_rollup_views(4) demo_no_exits(3) late e(1,2) j e(3) enc,
        of demo_rules 0 100 "[]"] unfolding demo_no_exits(2) demo_exit_epoch(1) append_Nil by blast
qed

lemma epoch_exit_keeps_invariants_example:
  "exits_ok ref map_store (snd (EpochExit_Execute ref map_store demo_exit demo_rules 0 13 alice [] demo_rollup_state))"
proof -
  obtain res m' where run: "EpochExit_Execute ref map_store demo_exit demo_rules 0 13 alice [] demo_rollup_state = (res, m')"
    by fastforce
  show ?thesis
    using epoch_exit_keeps_invariants [OF ref_rollups.rollups_axioms demo_rollup_views(4) demo_no_exits(3) run] by (simp add: run)
qed

theorem epoch_exit_authority_only_witness:
  "\<exists>m'. EpochExit_Execute ref map_store demo_exit demo_rules 0 13 alice [] demo_rollup_state = (Ok [], m')
     \<and> exit_list ref map_store m' 9 \<noteq> exit_list ref map_store demo_rollup_state 9
     \<and> (\<exists>j. rollups_of ref map_store demo_rollup_state demo_ns = Some j \<and> ri_AuthoritySEQAddress j = alice)"
proof -
  obtain m1 where m1: "EpochExit_Execute ref map_store demo_exit demo_rules 0 13 alice [] demo_rollup_state = (Ok [], m1)"
    "exit_list ref map_store m1 9 = [ee_Info demo_exit]"
    using demo_exit_run [of demo_rules 0 13 "[]"] demo_exit_epoch by auto
  then have ne: "exit_list ref map_store m1 9 \<noteq> exit_list ref map_store demo_rollup_state 9"
    by (simp add: demo_no_exits(2))
  have "ei_Namespace (ee_Info demo_exit) = demo_ns" by (simp add: demo_exit_def)
  then show ?thesis
    using epoch_exit_authority_only [OF ref_rollups.rollups_axioms demo_rollup_views(4) demo_no_exits(3) m1(1) ne] m1(1) ne by auto
qed

lemma epoch_exit_create_delete_example:
  "\<exists>m1 m2. EpochExit_Execute ref map_store demo_exit demo_rules 0 13 alice [] demo_rollup_state = (Ok [], m1)
     \<and> EpochExit_Execute ref map_store (demo_exit\<lparr>ee_OpCode := 1\<rparr>) demo_rules 0 14 alice [] m1 = (Ok [], m2)
     \<and> exit_list ref map_store m2 = exit_list ref map_store demo_rollup_state"
proof -
  let ?d = "demo_exit\<lparr>ee_OpCode := 1\<rparr>"
  obtain m1 where m1: "EpochExit_Execute ref map_store demo_exit demo_rules 0 13 alice [] demo_rollup_state = (Ok [], m1)"
    and l1: "exit_list ref map_store m1 = (exit_list ref map_store demo_rollup_state)(9 := [ee_Info demo_exit])"
    and r1: "rollups_of ref map_store m1 = rollups_of ref map_store demo_rollup_state"
    and ok1: "registry_ok ref map_store m1" "exits_ok ref map_store m1"
    using demo_exit_run [of demo_rules 0 13 "[]"] demo_exit_epoch by auto
  have d: "ee_Epoch ?d = 9" "ei_Namespace (ee_Info ?d) = demo_ns" by (simp_all add: demo_exit_epoch)
  have spec: "exits_left alice ?d (rollups_of ref map_store m1 (ei_Namespace (ee_Info ?d))) (exit_list ref map_store m1 (ee_Epoch ?d)) = Some []"
    unfolding d l1 r1 demo_rollup_views(3) by (simp add: exits_left_def demo_exit_def demo_info_def)
  have enc: "packer_Err ref (EpochExitInfo_Marshal ref \<lparr>Exits = []\<rparr>
          (NewWriter ref (sum_list (map (EpochInfo_Size ref) [])) (NetworkSizeLimit ref))) = None"
    by (simp add: rp_write_def r_writer_def r_enc_list_def)
  obtain m2 where m2: "EpochExit_Execute ref map_store ?d demo_rules 0 14 alice [] m1 = (Ok [], m2)"
    using EpochExit_Execute_total [OF ref_rollups.rollups_axioms map_kv.kv_total_axioms ok1 spec enc] by blast
  have op: "ee_OpCode demo_exit = 0" by (simp add: demo_exit_def)
  from epoch_exit_create_delete [OF ref_rollups.rollups_axioms demo_rollup_views(4) demo_no_exits(3) op m1 m2] m1 m2
  show ?thesis by blast
qed

end
