(* ===== verification/Seq_Actions.thy ===== *)
theory Seq_Actions
  imports Seq_Auction Seq_Epoch_Exit
begin

text \<open>
  The actions together: the values of the interface \<open>chain.Action\<close>, the dispatch of its methods
  over the five action types, the registration of their parsers (\<open>src/registry/registry.go\<close>,
  \<open>src/consts/consts.go\<close>), and the state machine whose steps are executed actions and deducted
  fees, with the invariants of its reachable states.
\<close>

section \<open>The interface and its dispatch\<close>

datatype Action =
    ATransfer Transfer
  | ASequencerMsg SequencerMsg
  | AAuction Auction
  | ARollupRegistration RollupRegistration
  | AEpochExit EpochExit

fun Action_GetTypeID :: "('p, 'x) hactions_scheme \<Rightarrow> Action \<Rightarrow> u8" where
  "Action_GetTypeID E (ATransfer t) = Transfer_GetTypeID"
| "Action_GetTypeID E (ASequencerMsg s) = SequencerMsg_GetTypeID"
| "Action_GetTypeID E (AAuction a) = Auction_GetTypeID"
| "Action_GetTypeID E (ARollupRegistration r) = RollupRegistration_GetTypeID E"
| "Action_GetTypeID E (AEpochExit e) = EpochExit_GetTypeID E"

fun Action_StateKeys :: "('p, 'x) hactions_scheme \<Rightarrow> Action \<Rightarrow> Address \<Rightarrow> ID \<Rightarrow> Keys res" where
  "Action_StateKeys E (ATransfer t) actor aid = Transfer_StateKeys E t actor aid"
| "Action_StateKeys E (ASequencerMsg s) actor aid = SequencerMsg_StateKeys actor aid"
| "Action_StateKeys E (AAuction a) actor aid = Auction_StateKeys E a actor aid"
| "Action_StateKeys E (ARollupRegistration r) actor aid = RollupRegistration_StateKeys E r actor aid"
| "Action_StateKeys E (AEpochExit e) actor aid = EpochExit_StateKeys E e actor aid"

text \<open>The result carries the action as the call leaves it.\<close>

fun Action_Execute ::
    "('p, 'pk, 'sg, 'sk, 'x) crypto_scheme \<Rightarrow> 'm Mutable \<Rightarrow> Action \<Rightarrow> Rules \<Rightarrow> i64 \<Rightarrow> u64 \<Rightarrow> Address \<Rightarrow> ID
      \<Rightarrow> ('m, bytes list \<times> Action) go" where
  "Action_Execute E S (ATransfer t) rules ts h actor aid =
     go_bind (Transfer_Execute E S t rules ts h actor aid) (\<lambda>out. go_return (out, ATransfer t))"
| "Action_Execute E S (ASequencerMsg s) rules ts h actor aid =
     go_bind (SequencerMsg_Execute S s rules ts h actor aid) (\<lambda>out. go_return (out, ASequencerMsg s))"
| "Action_Execute E S (AAuction a) rules ts h actor aid =
     go_bind (Auction_Execute E S a rules ts h actor aid) (\<lambda>out. go_return (out, AAuction a))"
| "Action_Execute E S (ARollupRegistration r) rules ts h actor aid =
     go_bind (RollupRegistration_Execute E S r rules ts h actor aid) (\<lambda>(out, r). go_return (out, ARollupRegistration r))"
| "Action_Execute E S (AEpochExit e) rules ts h actor aid =
     go_bind (EpochExit_Execute E S e rules ts h actor aid) (\<lambda>out. go_return (out, AEpochExit e))"

fun Action_Marshal :: "('p, 'x) hactions_scheme \<Rightarrow> Action \<Rightarrow> 'p \<Rightarrow> 'p" where
  "Action_Marshal E (ATransfer t) = Transfer_Marshal E t"
| "Action_Marshal E (ASequencerMsg s) = SequencerMsg_Marshal E s"
| "Action_Marshal E (AAuction a) = Auction_Marshal E a"
| "Action_Marshal E (ARollupRegistration r) = RollupRegistration_Marshal E r"
| "Action_Marshal E (AEpochExit e) = EpochExit_Marshal E e"

fun Action_NMTNamespace :: "Action \<Rightarrow> bytes" where
  "Action_NMTNamespace (ATransfer t) = Transfer_NMTNamespace"
| "Action_NMTNamespace (ASequencerMsg s) = SequencerMsg_NMTNamespace s"
| "Action_NMTNamespace (AAuction a) = Auction_NMTNamespace"
| "Action_NMTNamespace (ARollupRegistration r) = RollupRegistration_NMTNamespace"
| "Action_NMTNamespace (AEpochExit e) = EpochExit_NMTNamespace"

section \<open>registry.go and consts.go\<close>

text \<open>\<open>consts.ID\<close>: the name of the VM, padded to the length of an ID.\<close>

definition consts_Name :: string where "consts_Name = ''seqvm''"

definition consts_ID :: "'x sdk_scheme \<Rightarrow> (bytes \<Rightarrow> err + ID) \<Rightarrow> ID res" where
  "consts_ID E toID =
     res_bind (copy_at 0 (map of_char consts_Name) (make_bytes (IDLen E))) (\<lambda>b.
     case toID b of Inl e \<Rightarrow> Panic ExplicitPanic | Inr vmID \<Rightarrow> Ok vmID)"

text \<open>The functions that are registered, by name.\<close>

datatype action_parser = PTransfer | PSequencerMsg | PRollupRegister | PEpochExit | PAuction

datatype auth_parser = PED25519 | PBLS

text \<open>\<open>codec.TypeParser\<close>: \<open>'t\<close> is a parser, \<open>Register\<close> returns an error or nil, \<open>Lookup\<close> finds the
  function for a type ID.\<close>

record ('f, 't) TypeParser =
  NewTypeParser :: 't
  Register :: "u8 \<Rightarrow> 'f \<Rightarrow> 't \<Rightarrow> err option \<times> 't"
  Lookup :: "'t \<Rightarrow> u8 \<Rightarrow> 'f option"

fun register_all :: "('f, 't) TypeParser \<Rightarrow> (u8 \<times> 'f) list \<Rightarrow> 't \<Rightarrow> err option list \<times> 't" where
  "register_all T [] t = ([], t)"
| "register_all T ((i, f) # rest) t =
     (let (e, t) = Register T i f t; (es, t) = register_all T rest t in (e # es, t))"

text \<open>\<open>init\<close>: all registrations run, then any error panics.\<close>

definition registry_init ::
    "('p, 'x) hactions_scheme \<Rightarrow> (action_parser, 't) TypeParser \<Rightarrow> (auth_parser, 'u) TypeParser \<Rightarrow> ('t \<times> 'u) res" where
  "registry_init E T U =
     (let (es, acts) = register_all T
            [(Transfer_GetTypeID, PTransfer), (SequencerMsg_GetTypeID, PSequencerMsg),
             (RollupRegistration_GetTypeID E, PRollupRegister), (EpochExit_GetTypeID E, PEpochExit),
             (Auction_GetTypeID, PAuction)] (NewTypeParser T);
          (es', auths) = register_all U [(Ed25519ID, PED25519), (BLSID, PBLS)] (NewTypeParser U) in
      if \<exists>e\<in>set (es @ es'). e \<noteq> None then Panic ExplicitPanic else Ok (acts, auths))"

text \<open>Running a registered parser.\<close>

fun run_parser :: "('p, 'x) hactions_scheme \<Rightarrow> action_parser \<Rightarrow> 'p \<Rightarrow> Action returned" where
  "run_parser E PTransfer p = map_prod (map_option ATransfer) id (fst (UnmarshalTransfer E p))"
| "run_parser E PSequencerMsg p = map_prod (map_option ASequencerMsg) id (fst (UnmarshalSequencerMsg E p))"
| "run_parser E PRollupRegister p = map_prod (map_option ARollupRegistration) id (fst (UnmarshalRollupRegister E p))"
| "run_parser E PEpochExit p = map_prod (map_option AEpochExit) id (fst (UnmarshalEpochExit E p))"
| "run_parser E PAuction p = map_prod (map_option AAuction) id (fst (UnmarshalAuction E p))"

text \<open>A type parser refuses an ID that is taken and finds what was registered.\<close>

locale type_parser =
  fixes T :: "('f, 't) TypeParser"
  assumes lookup_new: "Lookup T (NewTypeParser T) i = None"
    and register_fresh: "Lookup T t i = None \<Longrightarrow> \<exists>t'. Register T i f t = (None, t')"
    and register_taken: "Lookup T t i = Some g \<Longrightarrow> \<exists>e t'. Register T i f t = (Some e, t')"
    and lookup_register: "Register T i f t = (None, t') \<Longrightarrow> Lookup T t' j = (if j = i then Some f else Lookup T t j)"
begin

text \<open>Registering succeeds throughout exactly when no ID is used twice or taken.\<close>

lemma register_all_ok:
  "(\<forall>e\<in>set (fst (register_all T l t)). e = None) \<longleftrightarrow>
     distinct (map fst l) \<and> (\<forall>i\<in>set (map fst l). Lookup T t i = None)"
proof (induction l arbitrary: t)
  case (Cons x l)
  obtain i f where x: "x = (i, f)" by (cases x)
  obtain e t1 where r: "Register T i f t = (e, t1)" by (cases "Register T i f t")
  have run: "fst (register_all T (x # l) t) = e # fst (register_all T l t1)"
    by (simp add: x r split_def Let_def)
  have fresh: "e = None \<longleftrightarrow> Lookup T t i = None"
    using register_fresh [of t i f] register_taken [of t i _ f] r by (cases "Lookup T t i") auto
  show ?case
  proof (cases "e = None")
    case True
    then have "Lookup T t1 j = (if j = i then Some f else Lookup T t j)" for j
      using lookup_register r by blast
    then have "(\<forall>k\<in>set (map fst l). Lookup T t1 k = None) \<longleftrightarrow>
        i \<notin> set (map fst l) \<and> (\<forall>k\<in>set (map fst l). Lookup T t k = None)" by auto
    then show ?thesis
      unfolding run using True fresh Cons.IH [of t1] by (auto simp: x)
  next
    case False
    then have "Lookup T t i \<noteq> None" using fresh by simp
    with False show ?thesis unfolding run by (auto simp: x)
  qed
qed simp

lemma register_all_lookup:
  assumes "\<forall>e\<in>set (fst (register_all T l t)). e = None"
  shows "Lookup T (snd (register_all T l t)) j = (case map_of l j of Some f \<Rightarrow> Some f | None \<Rightarrow> Lookup T t j)"
  using assms
proof (induction l arbitrary: t)
  case (Cons x l)
  obtain i f where x: "x = (i, f)" by (cases x)
  obtain e t1 where r: "Register T i f t = (e, t1)" by (cases "Register T i f t")
  have run: "fst (register_all T (x # l) t) = e # fst (register_all T l t1)"
    "snd (register_all T (x # l) t) = snd (register_all T l t1)"
    by (simp_all add: x r split_def Let_def)
  have e: "e = None" and rest: "\<forall>e\<in>set (fst (register_all T l t1)). e = None"
    using Cons.prems unfolding run by simp_all
  have look: "Lookup T t1 k = (if k = i then Some f else Lookup T t k)" for k
    using lookup_register r e by blast
  have "map_of l i = None"
    using register_all_ok [of l t1] rest look by (auto simp: map_of_eq_None_iff)
  then show ?case
    using Cons.IH [OF rest] look unfolding run by (auto simp: x split: option.splits)
qed simp

end

text \<open>The type parser of the instance: a map.\<close>

definition map_parser :: "('f, u8 \<Rightarrow> 'f option) TypeParser" where
  "map_parser = \<lparr>NewTypeParser = Map.empty,
     Register = (\<lambda>i f t. if t i = None then (None, t(i \<mapsto> f)) else (Some (ErrExternal 11), t)),
     Lookup = (\<lambda>t i. t i)\<rparr>"

interpretation map_types: type_parser map_parser
  by unfold_locales (auto simp: map_parser_def split: if_splits)

section \<open>Reachable states\<close>

text \<open>
  The addresses inside an action; in Go they are fixed-size arrays, so they have their length by
  typing.
\<close>

fun action_addresses :: "Action \<Rightarrow> Address list" where
  "action_addresses (ATransfer t) = [t_To t]"
| "action_addresses (ASequencerMsg s) = [sm_FromAddress s]"
| "action_addresses (AAuction a) = [ai_BuilderSEQAddress (au_AuctionInfo a)]"
| "action_addresses (ARollupRegistration r) = []"
| "action_addresses (AEpochExit e) = []"

text \<open>
  A step of the chain on the state: an action that succeeds, an action that fails (the SDK then
  discards what it wrote), or the deduction of a fee from a sponsor.
\<close>

inductive vm_step ::
    "('p, 'pk, 'sg, 'sk, 'x) crypto_scheme \<Rightarrow> 'm Mutable \<Rightarrow> Rules \<Rightarrow> 'm \<Rightarrow> 'm \<Rightarrow> bool"
  for E S rules where
  executed: "Action_Execute E S a rules ts h actor aid m = (Ok r, m') \<Longrightarrow> is_address E actor \<Longrightarrow>
     (\<forall>x\<in>set (action_addresses a). is_address E x) \<Longrightarrow> vm_step E S rules m m'"
| failed: "Action_Execute E S a rules ts h actor aid m = (Error e, m') \<Longrightarrow> vm_step E S rules m m"
| fee: "Deduct E S sponsor x m = (Ok (), m') \<Longrightarrow> is_address E sponsor \<Longrightarrow> vm_step E S rules m m'"

inductive vm_reachable ::
    "('p, 'pk, 'sg, 'sk, 'x) crypto_scheme \<Rightarrow> 'm Mutable \<Rightarrow> Rules \<Rightarrow> 'm \<Rightarrow> 'm \<Rightarrow> bool"
  for E S rules m0 where
  start: "vm_reachable E S rules m0 m0"
| step: "vm_reachable E S rules m0 m \<Longrightarrow> vm_step E S rules m m' \<Longrightarrow> vm_reachable E S rules m0 m'"

text \<open>The actions whose execution divides by the epoch length.\<close>

fun computes_epoch :: "Action \<Rightarrow> bool" where
  "computes_epoch (AAuction b) = True"
| "computes_epoch (ARollupRegistration r) = epoch_opcode r"
| "computes_epoch a = False"

text \<open>The funds of all addresses together.\<close>

definition total_supply :: "'x sdk_scheme \<Rightarrow> 'm Mutable \<Rightarrow> 'm \<Rightarrow> nat" where
  "total_supply E S m = (\<Sum>a\<in>{a. is_address E a}. balance_of E S m a)"

definition state_ok :: "('p, 'x) hactions_scheme \<Rightarrow> 'm Mutable \<Rightarrow> 'm \<Rightarrow> bool" where
  "state_ok E S m \<longleftrightarrow> readable E S m \<and> registry_ok E S m \<and> exits_ok E S m"

text \<open>Funds and rollups live under different keys.\<close>

definition rollup_keys :: "('p, 'x) hactions_scheme \<Rightarrow> bytes set" where
  "rollup_keys E = {RollupRegistryKey E} \<union> range (RollupInfoKey E) \<union> range (EpochExitsKey E)"

lemma finite_addresses: "finite {a :: Address. is_address E a}"
  using finite_lists_length_eq [of "UNIV :: u8 set" "AddressLen E"] by simp

context auctions
begin

lemma rollup_views_frame:
  assumes "\<And>k. k \<in> rollup_keys E \<Longrightarrow> GetValue S m' k = GetValue S m k"
  shows "registry_ok E S m' = registry_ok E S m" "exits_ok E S m' = exits_ok E S m"
proof -
  have v: "registry_of E S m' = registry_of E S m" "info_of E S m' ns = info_of E S m ns"
    "exits_of E S m' e = exits_of E S m e" for ns e
    using assms by (auto intro!: views_cong simp: rollup_keys_def)
  have "rollups_of E S m' = rollups_of E S m"
    by (simp add: fun_eq_iff rollups_of_def v split: res.splits)
  then show "registry_ok E S m' = registry_ok E S m" "exits_ok E S m' = exits_ok E S m"
    by (simp_all add: registry_ok_def exits_ok_def exit_list_def v)
qed

lemma rollup_keys_not_balance: "k \<in> rollup_keys E \<Longrightarrow> k \<noteq> balance_key a"
  unfolding rollup_keys_def balance_key_def using not_balance_prefix by (elim UnE rangeE singletonE) metis+

lemma rollup_keys_not_bid: "k \<in> rollup_keys E \<Longrightarrow> k \<noteq> ArcadiaBidKey E e"
  unfolding rollup_keys_def using keys_disjoint by (elim UnE rangeE singletonE) metis+

lemma funds_frame:
  assumes "\<And>a. GetValue S m' (balance_key a) = GetValue S m (balance_key a)"
  shows "readable E S m' = readable E S m" "total_supply E S m' = total_supply E S m"
  using assms by (simp_all add: readable_def total_supply_def balance_of_eq)

lemma changes_rollups_only:
  assumes "changes_only S m m' (rollup_keys E)"
  shows "readable E S m' = readable E S m" "total_supply E S m' = total_supply E S m"
  using assms rollup_keys_not_balance unfolding changes_only_def by (metis funds_frame)+

text \<open>A payment keeps the supply and the readability of the records.\<close>

lemma payment_keeps:
  assumes "is_address E a" "is_address E b" "readable E S m"
    and "go_bind (SubBalance E S a x) (\<lambda>_. AddBalance E S b x True) m = (Ok u, m')"
  shows "readable E S m' \<and> total_supply E S m' = total_supply E S m \<and> changes_only S m m' {balance_key a, balance_key b}"
proof -
  obtain m1 where s: "SubBalance E S a x m = (Ok (), m1)" and d: "AddBalance E S b x True m1 = (Ok u, m')"
    using assms(4) by (auto simp: go_bind_Ok_iff)
  have r1: "readable E S m1"
    using SubBalance_total(1) [OF assms(1,3) sub_funds [OF assms(1) s]] s by auto
  have "readable E S m'"
    using AddBalance_total(1) [OF assms(2) r1 add_fits [OF assms(2) d]] d by auto
  moreover have "total_supply E S m' = total_supply E S m"
    unfolding total_supply_def
    by (rule payment_conserves [OF finite_addresses _ _ _ assms(4)]) (use assms(1,2) in auto)
  moreover have "changes_only S m m' {balance_key a, balance_key b}"
    using SubBalance_frame [OF assms(1) s] AddBalance_frame [OF assms(2) d] by (simp add: changes_only_def)
  ultimately show ?thesis by blast
qed

lemma Deduct_keeps:
  assumes "is_address E a" "state_ok E S m" "Deduct E S a x m = (Ok (), m')"
  shows "state_ok E S m'" "total_supply E S m = total_supply E S m' + unat x"
proof -
  have s: "SubBalance E S a x m = (Ok (), m')" using assms(3) by (simp add: Deduct_def)
  have le: "unat x \<le> balance_of E S m a" by (rule sub_funds [OF assms(1) s])
  have "readable E S m'"
    using SubBalance_total(1) [OF assms(1) _ le] s assms(2) by (auto simp: state_ok_def)
  then show "state_ok E S m'"
    using assms(2) rollup_views_frame [of m' m] SubBalance_frame [OF assms(1) s] rollup_keys_not_balance
    unfolding state_ok_def by metis
  have "(\<Sum>c\<in>{a. is_address E a}. balance_of E S m' c)
      = sum ((balance_of E S m)(a := balance_of E S m a - unat x)) {a. is_address E a}"
    using SubBalance_bal [OF assms(1) _ s] by (intro sum.cong) auto
  moreover have "sum ((balance_of E S m)(a := balance_of E S m a - unat x)) {a. is_address E a} + balance_of E S m a
      = total_supply E S m + (balance_of E S m a - unat x)"
    unfolding total_supply_def by (rule sum_update_le [OF finite_addresses]) (use assms(1) in simp)
  ultimately show "total_supply E S m = total_supply E S m' + unat x"
    using le unfolding total_supply_def by linarith
qed

lemma Transfer_keeps:
  assumes "is_address E actor" "is_address E (t_To t)" "state_ok E S m"
    and "Transfer_Execute E S t rules ts h actor aid m = (Ok r, m')"
  shows "state_ok E S m' \<and> total_supply E S m' = total_supply E S m"
proof -
  have "go_bind (SubBalance E S actor (t_Value t)) (\<lambda>_. AddBalance E S (t_To t) (t_Value t) True) m = (Ok (), m')"
    using assms(4) by (simp add: Transfer_Execute_Ok_iff)
  then have pay: "readable E S m' \<and> total_supply E S m' = total_supply E S m
      \<and> changes_only S m m' {balance_key actor, balance_key (t_To t)}"
    using payment_keeps [OF assms(1,2)] assms(3) unfolding state_ok_def by blast
  then have "GetValue S m' k = GetValue S m k" if "k \<in> rollup_keys E" for k
    using rollup_keys_not_balance [OF that] by (simp add: changes_only_def)
  from rollup_views_frame [OF this] show ?thesis
    using pay assms(3) by (simp add: state_ok_def)
qed

lemma Auction_keeps:
  assumes "state_ok E S m" "Auction_Execute E S a rules ts h actor aid m = (Ok r, m')"
  shows "state_ok E S m' \<and> total_supply E S m' = total_supply E S m"
proof -
  let ?b = "ai_BuilderSEQAddress (au_AuctionInfo a)" and ?x = "ai_BidPrice (au_AuctionInfo a)"
    and ?e = "ai_EpochNumber (au_AuctionInfo a)"
  have auth: "bid_authorised E a rules h actor" and settle: "settle_bid E S a m = (Ok (), m')"
    using assms(2) by (auto simp: Auction_Execute_Ok_iff)
  obtain m1 where p: "go_bind (SubBalance E S ?b ?x) (\<lambda>_. AddBalance E S (ArcadiaFundAddress E) ?x True) m = (Ok (), m1)"
    and st: "StoreArcadiaBidInfo E S ?e ?x (au_BuilderPublicKey a) (au_BuilderSignature a) m1 = (Ok (), m')"
    using settle unfolding settle_bid_def by (auto simp: go_bind_Ok_iff)
  have pay: "readable E S m1 \<and> total_supply E S m1 = total_supply E S m
      \<and> changes_only S m m1 {balance_key ?b, balance_key (ArcadiaFundAddress E)}"
    using payment_keeps [OF authorised_lengths(3) [OF auth] fund_is_address _ p] assms(1) by (simp add: state_ok_def)
  have bid: "changes_only S m1 m' {ArcadiaBidKey E ?e}"
    by (rule writes_only_run [OF StoreArcadiaBidInfo_writes st]) simp
  have "GetValue S m' (balance_key c) = GetValue S m1 (balance_key c)" for c
    using bid not_balance_prefix(4) unfolding changes_only_def balance_key_def by (metis singletonD)
  from funds_frame [OF this] pay have funds: "readable E S m'" "total_supply E S m' = total_supply E S m" by simp_all
  have "GetValue S m' k = GetValue S m k" if "k \<in> rollup_keys E" for k
    using pay bid rollup_keys_not_balance [OF that] rollup_keys_not_bid [OF that] by (simp add: changes_only_def)
  from rollup_views_frame [OF this] show ?thesis
    using funds assms(1) by (simp add: state_ok_def)
qed

lemma Registration_keeps_epochs:
  assumes "state_ok E S m" "GetEpochLength rules \<noteq> 0" "RollupRegistration_Execute E S r rules ts h actor aid m = (res, m')"
  shows "state_ok E S m' \<and> total_supply E S m' = total_supply E S m"
proof -
  have reg: "registry_ok E S m" and ex: "exits_ok E S m" and rd: "readable E S m" using assms(1) by (simp_all add: state_ok_def)
  have K: "changes_only S m m' {RollupInfoKey E (rr_Namespace r), RollupRegistryKey E}"
    by (rule writes_only_run [OF RollupRegistration_Execute_writes assms(3)]) simp_all
  then have "changes_only S m m' (rollup_keys E)"
    by (auto simp: changes_only_def rollup_keys_def)
  note funds = changes_rollups_only [OF this]
  have exits: "exits_of E S m' e = exits_of E S m e" for e
    using K keys_disjoint by (intro views_cong) (auto simp: changes_only_def, metis)
  have "rollups_of E S m' ns \<noteq> None" if "rollups_of E S m ns \<noteq> None" for ns
    using that RollupRegistration_authority [OF rollups_axioms reg assms(2) _ assms(3), of ns] by blast
  then have "exits_ok E S m'"
    using ex unfolding exits_ok_def exit_list_def exits by blast
  then show ?thesis
    using funds rd RollupRegistration_keeps [OF rollups_axioms reg assms(2,3)] by (simp add: state_ok_def)
qed

lemma Registration_keeps:
  assumes "state_ok E S m" "RollupRegistration_Execute E S r rules ts h actor aid m = (Ok x, m')"
  shows "state_ok E S m' \<and> total_supply E S m' = total_supply E S m"
proof (cases "GetEpochLength rules = 0")
  case True
  then have "\<not> epoch_opcode r" using Execute_zero_epoch assms(2) by metis
  from Execute_epoch_free [OF this] assms(2)
  have "RollupRegistration_Execute E S r demo_rules ts h actor aid m = (Ok x, m')" by metis
  then show ?thesis by (intro Registration_keeps_epochs [OF assms(1)]) (simp_all add: demo_epoch_length)
next
  case False
  then show ?thesis by (rule Registration_keeps_epochs [OF assms(1) _ assms(2)])
qed

lemma Exit_keeps:
  assumes "state_ok E S m" "EpochExit_Execute E S e rules ts h actor aid m = (res, m')"
  shows "state_ok E S m' \<and> total_supply E S m' = total_supply E S m"
proof -
  have "changes_only S m m' (rollup_keys E)"
    by (rule writes_only_run [OF EpochExit_Execute_writes assms(2)]) (simp add: rollup_keys_def)
  note funds = changes_rollups_only [OF this]
  show ?thesis
    using funds EpochExit_keeps [OF rollups_axioms _ _ assms(2)] assms(1) by (simp add: state_ok_def)
qed

lemma vm_step_keeps:
  assumes "vm_step E S rules m m'" "state_ok E S m"
  shows "state_ok E S m' \<and> total_supply E S m' \<le> total_supply E S m"
  using assms(1)
proof cases
  case (executed a ts h actor aid r)
  have "state_ok E S m' \<and> total_supply E S m' = total_supply E S m"
  proof (cases a)
    case (ATransfer t)
    with executed Transfer_keeps [OF _ _ assms(2)] show ?thesis by (auto simp: go_bind_Ok_iff)
  next
    case (ASequencerMsg s)
    with executed assms(2) show ?thesis by (auto simp: go_bind_Ok_iff SequencerMsg_Execute_def)
  next
    case (AAuction b)
    with executed Auction_keeps [OF assms(2)] show ?thesis by (auto simp: go_bind_Ok_iff)
  next
    case (ARollupRegistration b)
    with executed Registration_keeps [OF assms(2)] show ?thesis by (auto simp: go_bind_Ok_iff split: prod.splits)
  next
    case (AEpochExit b)
    with executed Exit_keeps [OF assms(2)] show ?thesis by (auto simp: go_bind_Ok_iff)
  qed
  then show ?thesis by simp
next
  case failed
  then show ?thesis using assms(2) by simp
next
  case (fee sponsor x)
  then show ?thesis using Deduct_keeps [OF fee(2) assms(2) fee(1)] by simp
qed

lemma vm_reachable_keeps:
  assumes "vm_reachable E S rules m0 m" "state_ok E S m0"
  shows "state_ok E S m \<and> total_supply E S m \<le> total_supply E S m0"
  using assms(1)
proof induction
  case (step m m')
  then show ?case using vm_step_keeps [OF step.hyps(2)] by auto
qed (simp add: assms(2))

lemma Execute_no_panic:
  assumes "state_ok E S m" "GetEpochLength rules \<noteq> 0 \<or> \<not> computes_epoch a" "is_address E actor" "\<forall>x\<in>set (action_addresses a). is_address E x"
  shows "\<not> is_panic (fst (Action_Execute E S a rules ts h actor aid m))"
proof -
  have bind: "is_panic (fst (go_bind f (\<lambda>x. go_return (g x)) m)) = is_panic (fst (f m))"
    for f :: "('m, 'v) go" and g :: "'v \<Rightarrow> 'w"
    by (cases "f m"; cases "fst (f m)") (auto simp: go_bind_def go_return_def)
  have rd: "readable E S m" and reg: "registry_ok E S m" and ex: "exits_ok E S m"
    using assms(1) by (simp_all add: state_ok_def)
  show ?thesis
  proof (cases a)
    case (ATransfer t)
    have "\<exists>r m'. Transfer_Execute E S t rules ts h actor aid m = (r, m') \<and> \<not> is_panic r"
      using Transfer_Execute_pays [OF rd assms(3), of t] Transfer_Execute_refuses [OF rd assms(3), of t] assms(4) ATransfer
      by (cases "transfer_spec (balance_of E S m) actor t") fastforce+
    then show ?thesis by (auto simp: ATransfer bind)
  next
    case (ASequencerMsg s)
    then show ?thesis by (simp add: SequencerMsg_Execute_def) (simp add: go_return_def)
  next
    case (AAuction b)
    then have L: "GetEpochLength rules \<noteq> 0" using assms(2) by simp
    have "\<not> is_panic (fst (Auction_Execute E S b rules ts h actor aid m))"
    proof (cases "bid_authorised E b rules h actor")
      case True
      have "\<exists>r m'. settle_bid E S b m = (r, m') \<and> \<not> is_panic r"
        using settle_bid_total(2) [OF True rd] by (metis is_panic.simps(2,3))
      then show ?thesis
        using Auction_Execute_authorised [OF L True, of S ts aid] by (auto simp: bind)
    next
      case False
      then show ?thesis using Auction_Execute_unauthorised [OF L False, of S ts aid m] by auto
    qed
    then show ?thesis by (simp add: AAuction bind)
  next
    case (ARollupRegistration r)
    have L: "GetEpochLength demo_rules \<noteq> 0" by (simp add: demo_epoch_length)
    obtain rules' where "GetEpochLength rules' \<noteq> 0"
      and run: "RollupRegistration_Execute E S r rules ts h actor aid = RollupRegistration_Execute E S r rules' ts h actor aid"
    proof (cases "epoch_opcode r")
      case True
      then show thesis using assms(2) ARollupRegistration by (intro that [OF _ refl]) simp
    next
      case False
      from that [OF L Execute_epoch_free [OF this]] show thesis .
    qed
    then show ?thesis
      using RollupRegistration_keeps [OF rollups_axioms reg _ prod.collapse [symmetric], of rules' r ts h actor aid]
      by (simp add: ARollupRegistration bind case_prod_beta')
  next
    case (AEpochExit e)
    then show ?thesis
      using EpochExit_keeps [OF rollups_axioms reg ex prod.collapse [symmetric], of e rules ts h actor aid] by (simp add: bind)
  qed
qed

end

text \<open>The state of a new chain: no key has a value.\<close>

definition empty_state :: "'m Mutable \<Rightarrow> 'm \<Rightarrow> bool" where
  "empty_state S m \<longleftrightarrow> (\<forall>k. GetValue S m k = Inl ErrNotFound)"

context auctions
begin

lemma empty_state_ok:
  assumes "empty_state S m"
  shows "state_ok E S m" "total_supply E S m = 0"
proof -
  have v: "registry_of E S m = Ok []" "exits_of E S m e = Ok (None, False)" for e
    using assms by (simp_all add: views_eq empty_state_def innerGetRegistry_def innerGetEpochExits_def)
  then show "state_ok E S m"
    using assms by (auto simp: state_ok_def readable_def registry_ok_def exits_ok_def exit_list_def empty_state_def)
  show "total_supply E S m = 0"
    using assms by (simp add: total_supply_def balance_of_eq empty_state_def)
qed

lemma SetBalance_keeps:
  assumes "is_address E a" "state_ok E S m" "SetBalance E S a x m = (Ok u, m')"
  shows "state_ok E S m'" "total_supply E S m' \<le> total_supply E S m + unat x"
proof -
  note v = SetBalance_Ok [OF assms(1,3)]
  have "readable E S m'"
    by (rule readable_frame [of m a]) (use assms(2) v in \<open>auto simp: state_ok_def\<close>)
  then show "state_ok E S m'"
    using assms(2) rollup_views_frame [of m' m] v rollup_keys_not_balance unfolding state_ok_def by metis
  have "total_supply E S m' = sum ((balance_of E S m)(a := unat x)) {a. is_address E a}"
    unfolding total_supply_def using SetBalance_bal [OF assms(1) _ assms(3)] by (intro sum.cong) auto
  moreover have "sum ((balance_of E S m)(a := unat x)) {a. is_address E a} + balance_of E S m a = total_supply E S m + unat x"
    unfolding total_supply_def by (rule sum_update_le [OF finite_addresses]) (use assms(1) in simp)
  ultimately show "total_supply E S m' \<le> total_supply E S m + unat x" by linarith
qed

lemma load_allocations_keeps:
  assumes "load_allocations E S sofar al m = (Ok u, m')" "state_ok E S m"
    and "\<And>h s pk. ParseAddressBech32 E h s = Inr pk \<Longrightarrow> is_address E pk"
  shows "state_ok E S m' \<and> total_supply E S m' \<le> total_supply E S m + supply_of al"
  using assms(1,2)
proof (induction al arbitrary: sofar m)
  case (Cons c al)
  obtain pk s' m1 where pk: "ParseAddressBech32 E HRP (ca_Address c) = Inr pk"
    and set: "SetBalance E S pk (ca_Balance c) m = (Ok (), m1)"
    and rest: "load_allocations E S s' al m1 = (Ok u, m')"
    using Cons.prems(1) by (auto simp: go_bind_Ok_iff)
  note k = SetBalance_keeps [OF assms(3) [OF pk] Cons.prems(2) set]
  show ?case
    using Cons.IH [OF rest k(1)] k(2) by (simp add: supply_of_def)
qed simp

end

text \<open>What the unmarshallers demand of the fields of an action.\<close>

fun action_valid :: "'x sdk_scheme \<Rightarrow> Action \<Rightarrow> bool" where
  "action_valid E (ATransfer t) = (is_address E (t_To t) \<and> t_To t \<noteq> make_bytes (AddressLen E) \<and> t_Value t \<noteq> 0
     \<and> length (t_Memo t) \<le> 256)"
| "action_valid E (ASequencerMsg s) = (is_address E (sm_FromAddress s) \<and> sm_FromAddress s \<noteq> make_bytes (AddressLen E)
     \<and> sm_Data s \<noteq> [] \<and> sm_ChainID s \<noteq> [] \<and> length (sm_Data s) < 2 ^ 31 \<and> length (sm_ChainID s) < 2 ^ 31
     \<and> unat (sm_RelayerID s) < 2 ^ 31)"
| "action_valid E (AAuction a) = (ai_EpochNumber (au_AuctionInfo a) \<noteq> 0 \<and> ai_BidPrice (au_AuctionInfo a) \<noteq> 0
     \<and> is_address E (ai_BuilderSEQAddress (au_AuctionInfo a)) \<and> ai_BuilderSEQAddress (au_AuctionInfo a) \<noteq> make_bytes (AddressLen E)
     \<and> au_BuilderPublicKey a \<noteq> [] \<and> length (au_BuilderPublicKey a) \<le> 48
     \<and> au_BuilderSignature a \<noteq> [] \<and> length (au_BuilderSignature a) \<le> 96)"
| "action_valid E (ARollupRegistration r) = (length (rr_Namespace r) < 2 ^ 31 \<and> unat (rr_OpCode r) < 2 ^ 31)"
| "action_valid E (AEpochExit e) = (ee_Epoch e \<noteq> 0 \<and> unat (ee_OpCode e) < 2 ^ 31)"

text \<open>The parser of each action type.\<close>

fun parser_of :: "Action \<Rightarrow> action_parser" where
  "parser_of (ATransfer t) = PTransfer"
| "parser_of (ASequencerMsg s) = PSequencerMsg"
| "parser_of (AAuction a) = PAuction"
| "parser_of (ARollupRegistration r) = PRollupRegister"
| "parser_of (AEpochExit e) = PEpochExit"

lemma registry_init_Ok:
  assumes "type_parser T" "type_parser U"
  shows "(\<exists>r. registry_init E T U = Ok r) \<longleftrightarrow> distinct [0, 1, RollupRegisterID E, EpochExitID E, 2]"
    and "registry_init E T U = Ok (acts, auths) \<Longrightarrow> Lookup T acts (Action_GetTypeID E a) = Some (parser_of a)"
proof -
  let ?l = "[(Transfer_GetTypeID, PTransfer), (SequencerMsg_GetTypeID, PSequencerMsg),
             (RollupRegistration_GetTypeID E, PRollupRegister), (EpochExit_GetTypeID E, PEpochExit),
             (Auction_GetTypeID, PAuction)]"
  let ?k = "[(Ed25519ID, PED25519), (BLSID, PBLS)]"
  let ?acts = "register_all T ?l (NewTypeParser T)" and ?auths = "register_all U ?k (NewTypeParser U)"
  note ids = Transfer_GetTypeID_def SequencerMsg_GetTypeID_def RollupRegistration_GetTypeID_def EpochExit_GetTypeID_def
    Auction_GetTypeID_def TransferID_def MsgID_def AuctionID_def
  have run: "registry_init E T U = (if (\<forall>e\<in>set (fst ?acts). e = None) \<and> (\<forall>e\<in>set (fst ?auths). e = None)
      then Ok (snd ?acts, snd ?auths) else Panic ExplicitPanic)"
    unfolding registry_init_def Let_def split_def by auto
  have ok: "(\<forall>e\<in>set (fst ?acts). e = None) \<longleftrightarrow> distinct [0, 1, RollupRegisterID E, EpochExitID E, 2]"
    unfolding type_parser.register_all_ok [OF assms(1)]
    by (simp add: ids type_parser.lookup_new [OF assms(1)])
  have "\<forall>e\<in>set (fst ?auths). e = None"
    unfolding type_parser.register_all_ok [OF assms(2)]
    by (simp add: type_parser.lookup_new [OF assms(2)] Ed25519ID_def BLSID_def)
  then show "(\<exists>r. registry_init E T U = Ok r) \<longleftrightarrow> distinct [0, 1, RollupRegisterID E, EpochExitID E, 2]"
    unfolding run ok by auto
  assume init: "registry_init E T U = Ok (acts, auths)"
  then have all: "\<forall>e\<in>set (fst ?acts). e = None" and acts: "acts = snd ?acts"
    unfolding run by (auto split: if_splits)
  have "distinct [0, 1, RollupRegisterID E, EpochExitID E, 2]" using all ok by blast
  then show "Lookup T acts (Action_GetTypeID E a) = Some (parser_of a)"
    unfolding acts type_parser.register_all_lookup [OF assms(1) all] by (cases a) (auto simp: ids)
qed

context rollup_packer
begin

lemma parsed_back:
  assumes "packs E f b" "unpacks E left g (Some x, None) (b @ [])" "packer_Err E (f (NewWriter E n lim)) = None"
    and "int (length (packer_Bytes E (f (NewWriter E n lim)))) \<le> lim'"
  shows "fst (g (NewReader E (packer_Bytes E (f (NewWriter E n lim))) lim')) = (Some x, None)"
  using roundtrip [OF assms(1) _ assms(3,4)] assms(2) by fastforce

lemma Action_roundtrip:
  assumes "action_valid E a" "packer_Err E (Action_Marshal E a (NewWriter E n lim)) = None"
    and "int (length (packer_Bytes E (Action_Marshal E a (NewWriter E n lim)))) \<le> lim'" "lim' < 2 ^ 31"
  shows "run_parser E (parser_of a) (NewReader E (packer_Bytes E (Action_Marshal E a (NewWriter E n lim))) lim') = (Some a, None)"
proof -
  have bytes: "packs E f b \<Longrightarrow> packer_Err E (f (NewWriter E n lim)) = None \<Longrightarrow> packer_Bytes E (f (NewWriter E n lim)) = b" for f b
    using writer unfolding packs_def by (metis append_Nil)
  show ?thesis
  proof (cases a)
    case (ATransfer t)
    with assms parsed_back [OF Transfer_packs, where g = "UnmarshalTransfer E"] Transfer_unpacks [of t]
    show ?thesis by simp
  next
    case (ASequencerMsg s)
    with assms parsed_back [OF SequencerMsg_packs, where g = "UnmarshalSequencerMsg E"] SequencerMsg_unpacks [of s]
    show ?thesis by simp
  next
    case (AAuction b)
    with assms parsed_back [OF Auction_packs, where g = "UnmarshalAuction E"] Auction_unpacks [of b]
    show ?thesis by simp
  next
    case (ARollupRegistration r)
    then have "length (enc_info (rr_Info r)) < 2 ^ 31"
      using assms(2-4) bytes [OF RollupRegistration_packs, of r] by simp
    with ARollupRegistration assms parsed_back [OF RollupRegistration_packs, where g = "UnmarshalRollupRegister E"] RollupRegistration_unpacks [of r]
    show ?thesis by simp
  next
    case (AEpochExit e)
    then have "length (enc_epoch (ee_Info e)) < 2 ^ 31"
      using assms(2-4) bytes [OF EpochExit_packs, of e] by simp
    with AEpochExit assms parsed_back [OF EpochExit_packs, where g = "UnmarshalEpochExit E"] EpochExit_unpacks [of e]
    show ?thesis by simp
  qed
qed

end

section \<open>Properties\<close>

text \<open>
  C3: no action, successful or not, changes a key of the state that it did not declare as
  writable in \<open>StateKeys\<close>, for all five action types.
\<close>

theorem actions_write_declared_keys:
  assumes "rollups S E" "Action_StateKeys E a actor aid = Ok K"
    and "Action_Execute E S a rules ts h actor aid m = (res, m')"
  shows "changes_only S m m' (may_write K)"
proof -
  have kv: "kv_store S" using assms(1) by (rule rollups.axioms(1))
  have "writes_only S (may_write K) (Action_Execute E S a rules ts h actor aid)"
  proof (cases a)
    case (ATransfer t)
    then have "writes_only S (may_write K) (Transfer_Execute E S t rules ts h actor aid)"
      using assms(2) by (intro kv_store.Transfer_Execute_writes [OF kv])
        (auto simp: Transfer_StateKeys_def res_bind_Ok_iff may_write_def All_def)
    then show ?thesis by (simp add: ATransfer writes_only_bind writes_only_basic)
  next
    case (ASequencerMsg s)
    then show ?thesis by (simp add: SequencerMsg_Execute_def writes_only_basic)
  next
    case (AAuction b)
    then have "writes_only S (may_write K) (Auction_Execute E S b rules ts h actor aid)"
      using assms(2) by (intro kv_store.Auction_Execute_writes [OF kv])
        (auto simp: Auction_StateKeys_def res_bind_Ok_iff may_write_def All_def)
    then show ?thesis by (simp add: AAuction writes_only_bind writes_only_basic)
  next
    case (ARollupRegistration r)
    then have "writes_only S (may_write K) (RollupRegistration_Execute E S r rules ts h actor aid)"
      using assms(2) by (intro rollups.RollupRegistration_Execute_writes [OF assms(1)])
        (auto simp: RollupRegistration_StateKeys_def may_write_def All_def)
    then show ?thesis by (simp add: ARollupRegistration writes_only_bind writes_only_basic writes_only_case_prod)
  next
    case (AEpochExit e)
    then have "EpochExitsKey E (ee_Epoch e) \<in> may_write K"
      using assms(2) hactions_keys.keys_disjoint [OF rollups.axioms(2) [OF assms(1)]]
      by (auto simp: EpochExit_StateKeys_def may_write_def All_def) metis
    then have "writes_only S (may_write K) (EpochExit_Execute E S e rules ts h actor aid)"
      by (rule rollups.EpochExit_Execute_writes [OF assms(1)])
    then show ?thesis by (simp add: AEpochExit writes_only_bind writes_only_basic)
  qed
  then show ?thesis using assms(3) by (rule writes_only_run)
qed

text \<open>
  C2: in every state that is reachable by executed actions, failed actions and deducted fees from
  a well-formed one, the balance records are readable, the registry and the exits are well
  formed, and the funds of all addresses together have not grown. In such a state no action panics
  (so no missing info is ever dereferenced), unless the epoch length of the rules is zero and the action
  is a bid or registers or exits a rollup, which divide by it.
\<close>

theorem reachable_states_ok:
  assumes "auctions S E" "state_ok E S m0" "vm_reachable E S rules m0 m"
    and "is_address E actor" "\<forall>x\<in>set (action_addresses a). is_address E x"
  shows "state_ok E S m \<and> total_supply E S m \<le> total_supply E S m0
    \<and> (is_panic (fst (Action_Execute E S a rules ts h actor aid m)) \<longrightarrow> GetEpochLength rules = 0 \<and> computes_epoch a)"
  using auctions.vm_reachable_keeps [OF assms(1,3,2)] auctions.Execute_no_panic [OF assms(1) _ _ assms(4,5)] by blast

text \<open>
  The exception is real: nothing refuses a genesis with an epoch length of zero, and with it every bid of
  a whitelisted actor panics.
\<close>

lemma zero_epoch_length_panics:
  assumes "GetEpochLength rules = 0" "isWhiteListed rules actor = Ok True"
  shows "Auction_Execute E S b rules ts h actor aid m = (Panic DivideByZero, m)"
  using assms by (simp add: Auction_Execute_def Epoch_def Let_def)

text \<open>
  C1: from genesis on: after the genesis was loaded into an empty state, in every reachable state
  the funds of all addresses together are at most the sum of the genesis allocations, which fits
  in 64 bits, and therefore every transfer with a non-zero amount and a memo of at most 256 bytes
  succeeds exactly when its actor has the funds.
\<close>

theorem genesis_bounds_supply:
  assumes "auctions S E" "empty_state S me" "Load E S g me = (Ok u, m0)"
    and "\<forall>hrp s pk. ParseAddressBech32 E hrp s = Inr pk \<longrightarrow> is_address E pk"
    and "vm_reachable E S rules m0 m"
    and "is_address E actor" "is_address E (t_To t)" "t_Value t \<noteq> 0" "length (t_Memo t) \<le> 256"
  shows "total_supply E S m \<le> supply_of (g_CustomAllocation g) \<and> supply_of (g_CustomAllocation g) < 2 ^ 64
    \<and> ((\<exists>m'. Transfer_Execute E S t rules ts h actor aid m = (Ok [], m')) =
        (unat (t_Value t) \<le> balance_of E S m actor))"
proof -
  have tb: "total_bank S E" using assms(1) by (rule auctions.axioms(1))
  have load: "load_allocations E S 0 (g_CustomAllocation g) me = (Ok u, m0)"
    using assms(3) by (simp add: Load_def split: option.splits)
  note empty = auctions.empty_state_ok [OF assms(1,2)]
  have loaded: "state_ok E S m0 \<and> total_supply E S m0 \<le> total_supply E S me + supply_of (g_CustomAllocation g)"
    by (rule auctions.load_allocations_keeps [OF assms(1) load empty(1)]) (use assms(4) in blast)
  have fits: "supply_of (g_CustomAllocation g) < 2 ^ 64"
    using bank.load_allocations_supply [OF total_bank.axioms(1) [OF tb] load] by simp
  have reach: "state_ok E S m \<and> total_supply E S m \<le> total_supply E S m0"
    using auctions.vm_reachable_keeps [OF assms(1,5)] loaded by blast
  then have bound: "total_supply E S m \<le> supply_of (g_CustomAllocation g)"
    using loaded empty(2) by simp
  have "(\<exists>m'. Transfer_Execute E S t rules ts h actor aid m = (Ok [], m')) = (unat (t_Value t) \<le> balance_of E S m actor)"
    by (rule Transfer_Execute_funded [OF tb _ assms(6,7) finite_addresses _ _ _ assms(8,9)])
      (use reach bound fits assms(6,7) in \<open>auto simp: state_ok_def total_supply_def\<close>)
  with bound fits show ?thesis by blast
qed

theorem actions_write_declared_keys_witness:
  "changes_only map_store demo_state (snd (Action_Execute ref map_store (ATransfer demo_transfer) demo_rules 0 0 alice [] demo_state))
     (may_write [balance_key alice \<mapsto> {Read, Write}, balance_key bob \<mapsto> All])"
proof -
  have "Action_StateKeys ref (ATransfer demo_transfer) alice [] = Ok [balance_key alice \<mapsto> {Read, Write}, balance_key bob \<mapsto> All]"
    by (simp add: Transfer_StateKeys_def demo_transfer_def ref_bank.BalanceKey_eq)
  from actions_write_declared_keys [OF ref_rollups.rollups_axioms this prod.collapse [symmetric]] show ?thesis .
qed

theorem reachable_states_ok_witness:
  "\<exists>m. vm_reachable ref map_store demo_rules Map.empty m
     \<and> \<not> is_panic (fst (Action_Execute ref map_store (AEpochExit demo_exit) demo_rules 0 13 alice [] m))"
proof -
  have e: "empty_state map_store Map.empty" by (simp add: empty_state_def map_store_def)
  let ?msg = "ASequencerMsg \<lparr>sm_ChainID = [1], sm_Data = [2], sm_FromAddress = bob, sm_RelayerID = 0\<rparr>"
  have "Action_Execute ref map_store ?msg demo_rules 0 0 alice [] Map.empty = (Ok ([], ?msg), Map.empty)"
    by (simp add: SequencerMsg_Execute_def)
  then have "vm_step ref map_store demo_rules Map.empty Map.empty"
    by (rule vm_step.executed) simp_all
  then have r: "vm_reachable ref map_store demo_rules Map.empty Map.empty"
    by (rule vm_reachable.step [OF vm_reachable.start])
  show ?thesis
    using reachable_states_ok [OF ref_auctions.auctions_axioms ref_auctions.empty_state_ok(1) [OF e] r, of alice "AEpochExit demo_exit"] r
    by auto
qed

theorem genesis_bounds_supply_witness:
  "\<exists>m0. Load ref map_store demo_genesis Map.empty = (Ok (), m0) \<and> total_supply ref map_store m0 \<le> 105
     \<and> \<not> (\<exists>m'. Transfer_Execute ref map_store demo_transfer demo_rules 0 0 alice [] m0 = (Ok [], m'))"
proof -
  have e: "empty_state map_store Map.empty" by (simp add: empty_state_def map_store_def)
  have len: "length (pad 33 b) = 33" for b by (simp add: pad_def)
  have parse: "\<forall>hrp s pk. ParseAddressBech32 ref hrp s = Inr pk \<longrightarrow> is_address ref pk"
    by (auto simp: Let_def len split: if_splits)
  obtain m0 where run: "Load ref map_store demo_genesis Map.empty = (Ok (), m0)"
    and m0: "m0 = [balance_key (pad 33 [97]) \<mapsto> be64 100, balance_key (pad 33 [98]) \<mapsto> be64 5]"
    by (simp add: Load_def demo_genesis_def Default_def SetBalance_def ref_bank.BalanceKey_eq len
        setBalance_def go_insert_def go_bind_def go_wrap_def go_lift_def go_return_def map_store_def)
  have "hd alice = 1" "hd (pad 33 [97]) = 97" "hd (pad 33 [98]) = 98" by (simp_all add: alice_def pad_def)
  then have "alice \<noteq> pad 33 [97]" "alice \<noteq> pad 33 [98]" by (auto simp del: hd_append2)
  then have bal: "balance_of ref map_store m0 alice = 0"
    by (simp add: ref_bank.balance_of_eq m0 map_store_def [THEN arg_cong, of GetValue])
  show ?thesis
    using genesis_bounds_supply [OF ref_auctions.auctions_axioms e run parse vm_reachable.start,
        where actor = alice and t = demo_transfer and ts = 0 and h = 0 and aid = "[]"] run bal
    by (simp add: demo_transfer_def demo_genesis_def supply_of_def)
qed

text \<open>
  The registration at start-up panics exactly when two action types share a type ID, for every
  type parser that refuses an ID that is taken.
\<close>

lemma registry_init_panics_iff:
  assumes "type_parser T" "type_parser U"
  shows "is_panic (registry_init E T U) = (\<not> distinct [0, 1, RollupRegisterID E, EpochExitID E, 2])"
proof -
  have "is_panic (registry_init E T U) = (\<nexists>r. registry_init E T U = Ok r)"
    by (auto simp: registry_init_def Let_def split: prod.splits if_splits)
  then show ?thesis using registry_init_Ok(1) [OF assms] by metis
qed

lemma registry_init_panics_iff_example:
  "\<not> is_panic (registry_init ref map_parser map_parser)
   \<and> is_panic (registry_init (ref\<lparr>EpochExitID := 2\<rparr>) map_parser map_parser)"
  using registry_init_panics_iff [OF map_types.type_parser_axioms map_types.type_parser_axioms, of ref]
    registry_init_panics_iff [OF map_types.type_parser_axioms map_types.type_parser_axioms, of "ref\<lparr>EpochExitID := 2\<rparr>"]
  by simp

text \<open>
  C33: every valid action travels: after start-up, the parser found under an action's own type ID, run on
  the bytes that \<open>Marshal\<close> wrote without an error, within the size limit of the reader, gives back exactly
  that action, for all five action types. Valid are the actions whose fields the unmarshallers accept, by
  \<open>action_valid\<close>: amounts, prices and epochs that are read as required are not zero, addresses have their
  length and are not the empty address, required byte strings are not empty, byte strings keep the limits
  of the readers (a memo 256 bytes, a key 48, a signature 96) and integers are below \<open>2 ^ 31\<close>.
\<close>

theorem actions_parse_back:
  assumes "type_parser T" "type_parser U" "registry_init E T U = Ok (acts, auths)"
    and "rollup_packer E left enc_u64 enc_int enc_bytes enc_info enc_epoch"
    and "action_valid E a" "packer_Err E (Action_Marshal E a (NewWriter E n lim)) = None"
    and "int (length (packer_Bytes E (Action_Marshal E a (NewWriter E n lim)))) \<le> lim'" "lim' < 2 ^ 31"
  shows "\<exists>f. Lookup T acts (Action_GetTypeID E a) = Some f
    \<and> run_parser E f (NewReader E (packer_Bytes E (Action_Marshal E a (NewWriter E n lim))) lim') = (Some a, None)"
  using registry_init_Ok(2) [OF assms(1-3)] rollup_packer.Action_roundtrip [OF assms(4-8)] by blast

theorem actions_parse_back_witness:
  "\<exists>acts auths f. registry_init ref map_parser map_parser = Ok (acts, auths)
     \<and> Lookup map_parser acts (Action_GetTypeID ref (AEpochExit demo_exit)) = Some f
     \<and> run_parser ref f (NewReader ref (packer_Bytes ref (Action_Marshal ref (AEpochExit demo_exit) (NewWriter ref 0 100))) 100)
        = (Some (AEpochExit demo_exit), None)"
proof -
  obtain acts auths where init: "registry_init ref map_parser map_parser = Ok (acts, auths)"
    using registry_init_Ok(1) [OF map_types.type_parser_axioms map_types.type_parser_axioms, of ref] by auto
  show ?thesis
    using actions_parse_back [OF map_types.type_parser_axioms map_types.type_parser_axioms init ref_rollup_packer.rollup_packer_axioms,
        of "AEpochExit demo_exit" 0 100 100] init
    by (simp add: EpochExit_Marshal_def demo_exit_def demo_ns_def rp_write_def r_writer_def r_enc_epoch_def rp_enc_bytes_def rp_enc_int_def)
qed

end
