(* ===== verification/Seq_Sizes.thy ===== *)
theory Seq_Sizes
  imports Seq_Actions
begin

text \<open>
  The sizes the actions declare (\<open>Size\<close> in \<open>src/actions\<close>) against the bytes their \<open>Marshal\<close> writes. The SDK
  charges bandwidth and allocates writers by the declared size.
\<close>

fun Action_Size :: "('p, 'x) hactions_scheme \<Rightarrow> Action \<Rightarrow> int" where
  "Action_Size E (ATransfer t) = Transfer_Size E t"
| "Action_Size E (ASequencerMsg s) = SequencerMsg_Size E s"
| "Action_Size E (AAuction a) = Auction_Size E"
| "Action_Size E (ARollupRegistration r) = RollupRegistration_Size E r"
| "Action_Size E (AEpochExit e) = EpochExit_Size E e"

text \<open>The encodings have the lengths the SDK documents: integers a fixed one, byte strings a length in front.\<close>

locale sized_packer = rollup_packer E left enc_u64 enc_int enc_bytes enc_info enc_epoch
  for E :: "('p, 'x) hactions_scheme" and left :: "'p \<Rightarrow> bytes"
    and enc_u64 :: "u64 \<Rightarrow> bytes" and enc_int :: "i64 \<Rightarrow> bytes" and enc_bytes :: "bytes \<Rightarrow> bytes"
    and enc_info :: "RollupInfo \<Rightarrow> bytes" and enc_epoch :: "EpochInfo \<Rightarrow> bytes" +
  assumes u64_length: "length (enc_u64 v) = Uint64Len E"
    and int_length: "length (enc_int i) = IntLen E"
    and bytes_length: "length (enc_bytes b) = IntLen E + length b"
    and BytesLen_eq: "BytesLen E b = int (IntLen E + length b)"
    and info_length: "RollupInfo_Size E x = int (length (enc_info x))"
    and epoch_length: "EpochInfo_Size E y = int (length (enc_epoch y))"

interpretation ref_sizes: sized_packer ref rp_in be64 rp_enc_int rp_enc_bytes r_enc_info r_enc_epoch
  by unfold_locales (simp_all add: rp_enc_int_def rp_enc_bytes_def)

text \<open>What the marshalled size of an action is, given the declared one.\<close>

fun size_agrees :: "('p, 'x) hactions_scheme \<Rightarrow> Action \<Rightarrow> int \<Rightarrow> bool" where
  "size_agrees E (AAuction a) n \<longleftrightarrow>
     n = Auction_Size E + 2 * int (IntLen E) + int (length (au_BuilderPublicKey a)) - int (bls_PublicKeyLen E)
       + int (length (au_BuilderSignature a)) - int (bls_SignatureLen E)"
| "size_agrees E (ARollupRegistration r) n \<longleftrightarrow> n + int (Uint64Len E) = RollupRegistration_Size E r + int (IntLen E)"
| "size_agrees E a n \<longleftrightarrow> n = Action_Size E a"

context sized_packer
begin

lemma written:
  "packs E f b \<Longrightarrow> packer_Err E (f (NewWriter E n lim)) = None \<Longrightarrow> packer_Bytes E (f (NewWriter E n lim)) = b"
  using writer unfolding packs_def by (metis append_Nil)

lemmas lengths = u64_length int_length bytes_length BytesLen_eq info_length epoch_length

lemma marshalled_size:
  assumes "\<forall>x\<in>set (action_addresses a). is_address E x" "packer_Err E (Action_Marshal E a (NewWriter E n lim)) = None"
  shows "size_agrees E a (int (length (packer_Bytes E (Action_Marshal E a (NewWriter E n lim)))))"
proof (cases a)
  case (ATransfer t)
  with assms show ?thesis using written [OF Transfer_packs, of t] by (simp add: lengths Transfer_Size_def)
next
  case (ASequencerMsg s)
  with assms show ?thesis using written [OF SequencerMsg_packs, of s] by (simp add: lengths SequencerMsg_Size_def)
next
  case (AAuction b)
  with assms show ?thesis using written [OF Auction_packs, of b] by (simp add: lengths Auction_Size_def)
next
  case (ARollupRegistration r)
  with assms show ?thesis using written [OF RollupRegistration_packs, of r] by (simp add: lengths RollupRegistration_Size_def)
next
  case (AEpochExit e)
  with assms show ?thesis using written [OF EpochExit_packs, of e] by (simp add: lengths EpochExit_Size_def)
qed

end

text \<open>
  C29: a transfer, a message and an epoch exit are marshalled to exactly the bytes they declare; a rollup
  registration declares the difference between a \<open>uint64\<close> and an \<open>int\<close> too much; and an auction declares the two
  length prefixes of its key and signature too little.
\<close>

theorem declared_sizes:
  assumes "sized_packer E left enc_u64 enc_int enc_bytes enc_info enc_epoch"
    and "\<forall>x\<in>set (action_addresses a). is_address E x" "packer_Err E (Action_Marshal E a (NewWriter E n lim)) = None"
  shows "size_agrees E a (int (length (packer_Bytes E (Action_Marshal E a (NewWriter E n lim)))))"
  using assms by (rule sized_packer.marshalled_size)

theorem declared_sizes_witness:
  "int (length (packer_Bytes ref (Action_Marshal ref (ATransfer demo_transfer) (NewWriter ref 0 100)))) = Transfer_Size ref demo_transfer
   \<and> 0 < Transfer_Size ref demo_transfer"
proof -
  have a: "\<forall>x\<in>set (action_addresses (ATransfer demo_transfer)). is_address ref x" by (simp add: demo_transfer_def)
  have e: "packer_Err ref (Action_Marshal ref (ATransfer demo_transfer) (NewWriter ref 0 100)) = None"
    by (simp add: Transfer_Marshal_def demo_transfer_def rp_write_def rp_PackBytes_def rp_enc_bytes_def r_writer_def)
  show ?thesis
    using declared_sizes [OF ref_sizes.sized_packer_axioms a e] by (simp add: Transfer_Size_def)
qed

end
