(* ===== verification/Seq_Commit.thy ===== *)
theory Seq_Commit
  imports Seq_Prelude
begin

text \<open>
  \<open>src/types/commit.go\<close> and the header types of \<open>src/types/types.go\<close>: commitments, their
  conversion from and to 256-bit integers, the builder that hashes the fields of an object, and the
  commitment of a block header. The Keccak state is a parameter. Shown: the conversions are inverse
  to each other and refuse exactly the integers that do not fit; a constant string is separated from
  what follows it; two different headers have different preimages, so that equal commitments of
  different headers exhibit a collision of the hash.
\<close>

section \<open>Code of the standard library\<close>

text \<open>\<open>utf8.Valid\<close>: the well-formed byte sequences of Unicode.\<close>

definition utf8_cont :: "u8 \<Rightarrow> bool" where
  "utf8_cont b \<longleftrightarrow> 0x80 \<le> b \<and> b \<le> 0xBF"

fun utf8_Valid :: "bytes \<Rightarrow> bool" where
  "utf8_Valid [] = True"
| "utf8_Valid (a # bs) =
     (if a < 0x80 then utf8_Valid bs
      else if 0xC2 \<le> a \<and> a \<le> 0xDF then
        (case bs of b # r \<Rightarrow> utf8_cont b \<and> utf8_Valid r | [] \<Rightarrow> False)
      else if 0xE0 \<le> a \<and> a \<le> 0xEF then
        (case bs of b # c # r \<Rightarrow> utf8_cont b \<and> (a = 0xE0 \<longrightarrow> 0xA0 \<le> b) \<and> (a = 0xED \<longrightarrow> b \<le> 0x9F)
            \<and> utf8_cont c \<and> utf8_Valid r
         | _ \<Rightarrow> False)
      else if 0xF0 \<le> a \<and> a \<le> 0xF4 then
        (case bs of b # c # d # r \<Rightarrow> utf8_cont b \<and> (a = 0xF0 \<longrightarrow> 0x90 \<le> b) \<and> (a = 0xF4 \<longrightarrow> b \<le> 0x8F)
            \<and> utf8_cont c \<and> utf8_cont d \<and> utf8_Valid r
         | _ \<Rightarrow> False)
      else False)"

text \<open>\<open>big.Int\<close>: \<open>Bytes\<close> is the absolute value without leading zeros, \<open>SetBytes\<close> reads bytes of any
  length, \<open>FillBytes\<close> panics when the buffer is too short.\<close>

fun nat_bytes :: "nat \<Rightarrow> bytes" where
  "nat_bytes n = (if n = 0 then [] else nat_bytes (n div 256) @ [of_nat (n mod 256)])"

declare nat_bytes.simps [simp del]

definition bytes_nat :: "bytes \<Rightarrow> nat" where
  "bytes_nat bs = foldl (\<lambda>acc b. acc * 256 + unat b) 0 bs"

definition big_Bytes :: "int \<Rightarrow> bytes" where
  "big_Bytes n = nat_bytes (nat \<bar>n\<bar>)"

definition big_SetBytes :: "bytes \<Rightarrow> int" where
  "big_SetBytes bs = int (bytes_nat bs)"

definition big_FillBytes :: "int \<Rightarrow> nat \<Rightarrow> bytes res" where
  "big_FillBytes n len =
     (if len < length (big_Bytes n) then Panic ExplicitPanic
      else Ok (make_bytes (len - length (big_Bytes n)) @ big_Bytes n))"

section \<open>The Keccak state\<close>

record 'h keccak =
  NewKeccakState :: 'h
  Keccak_Write :: "bytes \<Rightarrow> 'h \<Rightarrow> err option \<times> 'h"
  Keccak_Sum :: "'h \<Rightarrow> bytes"

text \<open>The state collects what is written (\<open>written\<close>), never fails to, and its sum is a function of it.\<close>

locale hashing =
  fixes K :: "'h keccak"
    and written :: "'h \<Rightarrow> bytes"
    and digest :: "bytes \<Rightarrow> bytes"
  assumes written_new: "written (NewKeccakState K) = []"
    and written_write: "written (snd (Keccak_Write K b h)) = written h @ b"
    and write_accepted: "fst (Keccak_Write K b h) = None"
    and sum_digest: "Keccak_Sum K h = digest (written h)"
    and digest_length: "length (digest b) = 32"

text \<open>An instance: the bytes written so far, and their first 32 as the sum.\<close>

definition prefix_keccak :: "bytes keccak" where
  "prefix_keccak = \<lparr>NewKeccakState = [], Keccak_Write = (\<lambda>b h. (None, h @ b)),
     Keccak_Sum = (\<lambda>h. take 32 (h @ make_bytes 32))\<rparr>"

interpretation prefix_hashing: hashing prefix_keccak "\<lambda>h. h" "\<lambda>h. take 32 (h @ make_bytes 32)"
  by unfold_locales (simp_all add: prefix_keccak_def)

section \<open>commit.go\<close>

text \<open>An array of 32 bytes.\<close>

type_synonym Commitment = bytes

type_synonym U256 = int

definition NewU256 :: U256 where "NewU256 = 0"

definition U256_SetBigInt :: "int \<Rightarrow> U256" where "U256_SetBigInt n = n"

definition U256_SetUint64 :: "u64 \<Rightarrow> U256" where "U256_SetUint64 n = uint n"

definition U256_SetBytes :: "bytes \<Rightarrow> U256" where "U256_SetBytes buf = big_SetBytes buf"

definition CommitmentFromUint256 :: "U256 \<Rightarrow> err + Commitment" where
  "CommitmentFromUint256 n =
     (let bigEndian = big_Bytes n in
      if length bigEndian > 32 then Inl (Errorf ''integer out of range for U256 (%d)'' [FI n])
      else let bigEndian = (if length bigEndian < 32 then make_bytes (32 - length bigEndian) @ bigEndian else bigEndian) in
        Inr (take 32 bigEndian))"

definition Commitment_Uint256 :: "Commitment \<Rightarrow> U256" where
  "Commitment_Uint256 c = U256_SetBytes c"

definition Commitment_Equals :: "Commitment \<Rightarrow> Commitment \<Rightarrow> bool" where
  "Commitment_Equals c other \<longleftrightarrow> c = other"

text \<open>\<open>encode\<close> is \<open>cb58.Encode\<close>; its error is dropped.\<close>

definition Commitment_String :: "(bytes \<Rightarrow> string \<times> err option) \<Rightarrow> Commitment \<Rightarrow> string" where
  "Commitment_String encode c = fst (encode c)"

record 'h RawCommitmentBuilder =
  hasher :: 'h

definition FixedSizeBytes :: "'h keccak \<Rightarrow> bytes \<Rightarrow> 'h RawCommitmentBuilder \<Rightarrow> 'h RawCommitmentBuilder" where
  "FixedSizeBytes K bs b = b\<lparr>hasher := snd (Keccak_Write K bs (hasher b))\<rparr>"

definition ConstantString :: "'h keccak \<Rightarrow> string \<Rightarrow> 'h RawCommitmentBuilder \<Rightarrow> 'h RawCommitmentBuilder res" where
  "ConstantString K s b =
     (if \<not> utf8_Valid (map of_char s) then Panic ExplicitPanic
      else case Keccak_Write K (map of_char s) (hasher b) of
        (Some e, h) \<Rightarrow> Panic ExplicitPanic
      | (None, h) \<Rightarrow> let invalidUtf8 = [0xC0, 0x7F] in Ok (FixedSizeBytes K invalidUtf8 (b\<lparr>hasher := h\<rparr>)))"

definition NewRawCommitmentBuilder :: "'h keccak \<Rightarrow> string \<Rightarrow> 'h RawCommitmentBuilder res" where
  "NewRawCommitmentBuilder K name = ConstantString K name \<lparr>hasher = NewKeccakState K\<rparr>"

definition builder_Uint64 :: "'h keccak \<Rightarrow> u64 \<Rightarrow> 'h RawCommitmentBuilder \<Rightarrow> 'h RawCommitmentBuilder res" where
  "builder_Uint64 K n b =
     res_bind (put_Uint64_at 0 n (make_bytes 8)) (\<lambda>bs. Ok (FixedSizeBytes K bs b))"

definition builder_Uint256 :: "'h keccak \<Rightarrow> U256 \<Rightarrow> 'h RawCommitmentBuilder \<Rightarrow> 'h RawCommitmentBuilder res" where
  "builder_Uint256 K n b = res_bind (big_FillBytes n 32) (\<lambda>bs. Ok (FixedSizeBytes K bs b))"

definition VarSizeBytes :: "'h keccak \<Rightarrow> bytes \<Rightarrow> 'h RawCommitmentBuilder \<Rightarrow> 'h RawCommitmentBuilder res" where
  "VarSizeBytes K bs b =
     res_bind (builder_Uint64 K (of_nat (length bs)) b) (\<lambda>b.
     Ok (b\<lparr>hasher := snd (Keccak_Write K bs (hasher b))\<rparr>))"

definition builder_Field ::
    "'h keccak \<Rightarrow> string \<Rightarrow> Commitment \<Rightarrow> 'h RawCommitmentBuilder \<Rightarrow> 'h RawCommitmentBuilder res" where
  "builder_Field K f c b = res_bind (ConstantString K f b) (\<lambda>b. Ok (FixedSizeBytes K c b))"

definition OptionalField ::
    "'h keccak \<Rightarrow> string \<Rightarrow> Commitment option \<Rightarrow> 'h RawCommitmentBuilder \<Rightarrow> 'h RawCommitmentBuilder res" where
  "OptionalField K f c b =
     res_bind (ConstantString K f b) (\<lambda>b.
     case c of
       None \<Rightarrow> builder_Uint64 K 0 b
     | Some c \<Rightarrow> res_bind (builder_Uint64 K 1 b) (\<lambda>b. Ok (FixedSizeBytes K c b)))"

definition Uint256Field ::
    "'h keccak \<Rightarrow> string \<Rightarrow> U256 \<Rightarrow> 'h RawCommitmentBuilder \<Rightarrow> 'h RawCommitmentBuilder res" where
  "Uint256Field K f n b = res_bind (ConstantString K f b) (builder_Uint256 K n)"

definition Uint64Field ::
    "'h keccak \<Rightarrow> string \<Rightarrow> u64 \<Rightarrow> 'h RawCommitmentBuilder \<Rightarrow> 'h RawCommitmentBuilder res" where
  "Uint64Field K f n b = res_bind (ConstantString K f b) (builder_Uint64 K n)"

definition FixedSizeField ::
    "'h keccak \<Rightarrow> string \<Rightarrow> bytes \<Rightarrow> 'h RawCommitmentBuilder \<Rightarrow> 'h RawCommitmentBuilder res" where
  "FixedSizeField K f bs b = res_bind (ConstantString K f b) (\<lambda>b. Ok (FixedSizeBytes K bs b))"

definition VarSizeField ::
    "'h keccak \<Rightarrow> string \<Rightarrow> bytes \<Rightarrow> 'h RawCommitmentBuilder \<Rightarrow> 'h RawCommitmentBuilder res" where
  "VarSizeField K f bs b = res_bind (ConstantString K f b) (VarSizeBytes K bs)"

text \<open>\<open>copy(comm[:], bytes)\<close> into an array of 32 zeros.\<close>

definition Finalize :: "'h keccak \<Rightarrow> 'h RawCommitmentBuilder \<Rightarrow> Commitment" where
  "Finalize K b = take 32 (Keccak_Sum K (hasher b) @ make_bytes (32 - length (Keccak_Sum K (hasher b))))"

section \<open>types.go\<close>

record NmtRoot =
  nr_Root :: bytes

record Header =
  h_Height :: u64
  h_Timestamp :: u64
  h_L1Head :: u64
  h_TransactionsRoot :: NmtRoot

text \<open>The builder as it is before \<open>Finalize\<close>, and the commitments.\<close>

definition NmtRoot_builder :: "'h keccak \<Rightarrow> NmtRoot \<Rightarrow> 'h RawCommitmentBuilder res" where
  "NmtRoot_builder K r =
     res_bind (NewRawCommitmentBuilder K ''NMTROOT'') (VarSizeField K ''root'' (nr_Root r))"

definition NmtRoot_Commit :: "'h keccak \<Rightarrow> NmtRoot \<Rightarrow> Commitment res" where
  "NmtRoot_Commit K r = res_bind (NmtRoot_builder K r) (\<lambda>b. Ok (Finalize K b))"

definition Header_builder :: "'h keccak \<Rightarrow> Header \<Rightarrow> 'h RawCommitmentBuilder res" where
  "Header_builder K h =
     res_bind (NewRawCommitmentBuilder K ''BLOCK'') (\<lambda>b.
     res_bind (Uint64Field K ''height'' (h_Height h) b) (\<lambda>b.
     res_bind (Uint64Field K ''timestamp'' (h_Timestamp h) b) (\<lambda>b.
     res_bind (Uint64Field K ''l1_head'' (h_L1Head h) b) (\<lambda>b.
     res_bind (NmtRoot_Commit K (h_TransactionsRoot h)) (\<lambda>c.
     builder_Field K ''transactions_root'' c b)))))"

definition Header_Commit :: "'h keccak \<Rightarrow> Header \<Rightarrow> Commitment res" where
  "Header_Commit K h = res_bind (Header_builder K h) (\<lambda>b. Ok (Finalize K b))"

text \<open>What \<open>json.Unmarshal\<close> finds for the fields: \<open>None\<close> is a missing one. The methods assign the
  fields of the receiver one after the other, also before an error.\<close>

record NmtRoot_Dec =
  dec_Root :: "bytes option"

record Header_Dec =
  dec_Height :: "u64 option"
  dec_Timestamp :: "u64 option"
  dec_L1Head :: "u64 option"
  dec_TransactionsRoot :: "NmtRoot option"

definition NmtRoot_UnmarshalJSON :: "(bytes \<Rightarrow> err + NmtRoot_Dec) \<Rightarrow> bytes \<Rightarrow> (NmtRoot, unit) go" where
  "NmtRoot_UnmarshalJSON unmarshal b =
     go_bind (go_lift (of_sum (unmarshal b))) (\<lambda>dec.
     case dec_Root dec of
       None \<Rightarrow> go_error (Errorf ''Field root of type NmtRoot is required'' [])
     | Some root \<Rightarrow> (\<lambda>r. (Ok (), r\<lparr>nr_Root := root\<rparr>)))"

definition require_field :: "string \<Rightarrow> 'v option \<Rightarrow> ('v \<Rightarrow> Header \<Rightarrow> Header) \<Rightarrow> (Header, unit) go" where
  "require_field msg v assign =
     (case v of None \<Rightarrow> go_error (Errorf msg []) | Some x \<Rightarrow> (\<lambda>h. (Ok (), assign x h)))"

definition Header_UnmarshalJSON :: "(bytes \<Rightarrow> err + Header_Dec) \<Rightarrow> bytes \<Rightarrow> (Header, unit) go" where
  "Header_UnmarshalJSON unmarshal b =
     go_bind (go_lift (of_sum (unmarshal b))) (\<lambda>dec.
     go_bind (require_field ''Field height of type Header is required'' (dec_Height dec) (\<lambda>x h. h\<lparr>h_Height := x\<rparr>)) (\<lambda>_.
     go_bind (require_field ''Field timestamp of type Header is required'' (dec_Timestamp dec) (\<lambda>x h. h\<lparr>h_Timestamp := x\<rparr>)) (\<lambda>_.
     go_bind (require_field ''Field l1_head of type Header is required'' (dec_L1Head dec) (\<lambda>x h. h\<lparr>h_L1Head := x\<rparr>)) (\<lambda>_.
     require_field ''Field transactions_root of type Header is required'' (dec_TransactionsRoot dec)
       (\<lambda>x h. h\<lparr>h_TransactionsRoot := x\<rparr>)))))"

section \<open>Integers and bytes\<close>

lemma bytes_nat_simps [simp]:
  "bytes_nat [] = 0" "bytes_nat (bs @ [b]) = bytes_nat bs * 256 + unat b"
  by (simp_all add: bytes_nat_def)

lemma bytes_nat_zeros [simp]: "bytes_nat (make_bytes k @ bs) = bytes_nat bs"
proof (induction bs rule: rev_induct)
  case Nil
  show ?case by (induction k) (simp_all add: make_bytes_def bytes_nat_def)
next
  case (snoc b bs)
  then show ?case by (simp flip: append_assoc)
qed

lemma bytes_nat_less: "bytes_nat bs < 256 ^ length bs"
proof (induction bs rule: rev_induct)
  case (snoc b bs)
  moreover have "unat b < 256" using unsigned_less [of b] by simp
  ultimately have "bytes_nat bs * 256 + unat b < (256 ^ length bs - 1) * 256 + 256" by linarith
  also have "\<dots> = 256 ^ length (bs @ [b])" by (simp add: diff_mult_distrib)
  finally show ?case by simp
qed simp

lemma digit_inject: "(x::nat) < 256 \<Longrightarrow> y < 256 \<Longrightarrow> a * 256 + x = b * 256 + y \<Longrightarrow> a = b \<and> x = y"
proof -
  assume "x < 256" "y < 256" and eq: "a * 256 + x = b * 256 + y"
  then have "(a * 256 + x) div 256 = a" "(b * 256 + y) div 256 = b" by simp_all
  with eq show ?thesis by simp
qed

lemma bytes_nat_inject: "length xs = length ys \<Longrightarrow> bytes_nat xs = bytes_nat ys \<Longrightarrow> xs = ys"
proof (induction xs arbitrary: ys rule: rev_induct)
  case (snoc x xs)
  obtain y zs where ys: "ys = zs @ [y]" using snoc.prems(1) by (cases ys rule: rev_cases) auto
  have "unat x < 256" "unat y < 256" using unsigned_less [of x] unsigned_less [of y] by simp_all
  then have "bytes_nat xs = bytes_nat zs \<and> unat x = unat y"
    using snoc.prems(2) by (intro digit_inject) (simp_all add: ys)
  then show ?case using snoc.IH [of zs] snoc.prems(1) by (simp add: ys word_unat_eq_iff)
qed simp

lemma bytes_nat_bytes [simp]: "bytes_nat (nat_bytes n) = n"
proof (induction n rule: nat_bytes.induct)
  case (1 n)
  have "unat (of_nat (n mod 256) :: u8) = n mod 256"
    by (simp add: unat_of_nat take_bit_eq_mod)
  then show ?case using 1 by (subst nat_bytes.simps) auto
qed

lemma length_nat_bytes: "length (nat_bytes n) \<le> k \<longleftrightarrow> n < 256 ^ k"
proof (induction n arbitrary: k rule: nat_bytes.induct)
  case (1 n)
  show ?case
  proof (cases "n = 0 \<or> k = 0")
    case True
    then show ?thesis by (subst nat_bytes.simps) auto
  next
    case False
    then obtain j where k: "k = Suc j" by (cases k) auto
    have "length (nat_bytes n) = Suc (length (nat_bytes (n div 256)))"
      using False by (subst nat_bytes.simps) simp
    moreover have "n div 256 < 256 ^ j \<longleftrightarrow> n < 256 ^ k"
      using div_less_iff_less_mult [of 256 n "256 ^ j"] by (simp only: k power_Suc) (simp add: mult.commute)
    ultimately show ?thesis using 1 [of j] False by (simp add: k)
  qed
qed

lemma nat_abs_less: "nat \<bar>n\<bar> < 256 ^ 32 \<longleftrightarrow> \<bar>n\<bar> < 2 ^ 256"
  by auto

section \<open>Properties\<close>

lemma CommitmentFromUint256_eq:
  "CommitmentFromUint256 i = (if 32 < length (nat_bytes (nat \<bar>i\<bar>)) then Inl (Errorf ''integer out of range for U256 (%d)'' [FI i])
     else Inr (make_bytes (32 - length (nat_bytes (nat \<bar>i\<bar>))) @ nat_bytes (nat \<bar>i\<bar>)))"
  by (simp add: CommitmentFromUint256_def big_Bytes_def Let_def make_bytes_def)

lemma CommitmentFromUint256_back:
  assumes "length c = 32"
  shows "CommitmentFromUint256 (Commitment_Uint256 c) = Inr c"
proof -
  have le: "length (nat_bytes (bytes_nat c)) \<le> 32"
    using bytes_nat_less [of c] assms length_nat_bytes by simp
  then have "make_bytes (32 - length (nat_bytes (bytes_nat c))) @ nat_bytes (bytes_nat c) = c"
    using assms by (intro bytes_nat_inject) simp_all
  then show ?thesis
    using le by (simp add: CommitmentFromUint256_eq Commitment_Uint256_def U256_SetBytes_def big_SetBytes_def)
qed

text \<open>
  C36: commitments and integers of at most 256 bits correspond: a commitment read as an integer gives the
  same commitment back, an integer that is accepted becomes the 32 bytes of its absolute value (so that a
  negative integer is read back without its sign), and exactly the integers of more than 256 bits, those of
  an absolute value of at least \<open>2 ^ 256\<close>, are refused.
\<close>

theorem commitment_uint256_roundtrip:
  shows "(length c = 32 \<longrightarrow> CommitmentFromUint256 (Commitment_Uint256 c) = Inr c)
    \<and> (CommitmentFromUint256 n = Inr d \<longrightarrow> length d = 32 \<and> Commitment_Uint256 d = \<bar>n\<bar>)
    \<and> ((\<exists>e. CommitmentFromUint256 n = Inl e) \<longleftrightarrow> 2 ^ 256 \<le> \<bar>n\<bar>)"
proof (intro conjI impI)
  show "(\<exists>e. CommitmentFromUint256 n = Inl e) \<longleftrightarrow> 2 ^ 256 \<le> \<bar>n\<bar>"
    using length_nat_bytes [of "nat \<bar>n\<bar>" 32] nat_abs_less [of n] by (simp only: CommitmentFromUint256_eq) auto
  show "CommitmentFromUint256 n = Inr d \<Longrightarrow> length d = 32" "CommitmentFromUint256 n = Inr d \<Longrightarrow> Commitment_Uint256 d = \<bar>n\<bar>"
    by (auto simp: CommitmentFromUint256_eq Commitment_Uint256_def U256_SetBytes_def big_SetBytes_def split: if_splits)
qed (rule CommitmentFromUint256_back)

theorem commitment_uint256_roundtrip_witness:
  "CommitmentFromUint256 (Commitment_Uint256 (replicate 32 7)) = Inr (replicate 32 7)
    \<and> (\<exists>e. CommitmentFromUint256 (2 ^ 256) = Inl e)"
  using commitment_uint256_roundtrip [of "replicate 32 7" "2 ^ 256"] by simp

section \<open>What a builder has hashed\<close>

lemma utf8_no_C0: "utf8_Valid bs \<Longrightarrow> 0xC0 \<notin> set bs"
proof (induction bs rule: utf8_Valid.induct)
  case (2 a bs)
  then show ?case
    by (auto simp: utf8_cont_def split: if_splits list.splits)
qed simp

lemma separator_inject:
  assumes "0xC0 \<notin> set xs" "0xC0 \<notin> set ys" "xs @ [0xC0, 0x7F] @ r = ys @ [0xC0, 0x7F :: u8] @ r'"
  shows "xs = ys \<and> r = r'"
  using assms
proof (induction xs arbitrary: ys)
  case Nil
  then show ?case by (cases ys) auto
next
  case (Cons x xs)
  then show ?case by (cases ys) auto
qed

text \<open>\<open>appends written f bs\<close>: the step \<open>f\<close> of a builder succeeds and hashes \<open>bs\<close>.\<close>

definition appends :: "('h \<Rightarrow> bytes) \<Rightarrow> ('h RawCommitmentBuilder \<Rightarrow> 'h RawCommitmentBuilder res) \<Rightarrow> bytes \<Rightarrow> bool" where
  "appends written f bs \<longleftrightarrow>
     (\<forall>b. \<exists>b'. f b = Ok b' \<and> written (hasher b') = written (hasher b) @ bs)"

abbreviation tag :: "string \<Rightarrow> bytes" where
  "tag s \<equiv> map of_char s @ [0xC0, 0x7F]"

lemma appends_bind:
  "appends written f xs \<Longrightarrow> appends written g ys \<Longrightarrow> appends written (\<lambda>b. res_bind (f b) g) (xs @ ys)"
  unfolding appends_def by (metis append.assoc res_bind.simps(1))

lemma appends_run:
  "appends written f bs \<Longrightarrow> \<exists>b'. f b = Ok b' \<and> written (hasher b') = written (hasher b) @ bs"
  by (simp add: appends_def)

lemma names_valid:
  "utf8_Valid (map of_char ''NMTROOT'')" "utf8_Valid (map of_char ''root'')" "utf8_Valid (map of_char ''BLOCK'')"
  "utf8_Valid (map of_char ''height'')" "utf8_Valid (map of_char ''timestamp'')"
  "utf8_Valid (map of_char ''l1_head'')" "utf8_Valid (map of_char ''transactions_root'')"
  by (simp_all add: of_char_def)

context hashing
begin

lemma FixedSizeBytes_appends: "appends written (\<lambda>b. Ok (FixedSizeBytes K bs b)) bs"
  by (simp add: appends_def FixedSizeBytes_def written_write)

lemma ConstantString_appends:
  "utf8_Valid (map of_char s) \<Longrightarrow> appends written (ConstantString K s) (tag s)"
  unfolding appends_def
proof
  fix b :: "'h RawCommitmentBuilder" assume v: "utf8_Valid (map of_char s)"
  obtain h where "Keccak_Write K (map of_char s) (hasher b) = (None, h)"
    using write_accepted by (metis prod.collapse)
  moreover from this have "written h = written (hasher b) @ map of_char s"
    using written_write by (metis snd_conv)
  ultimately show "\<exists>b'. ConstantString K s b = Ok b' \<and> written (hasher b') = written (hasher b) @ tag s"
    using v by (simp add: ConstantString_def FixedSizeBytes_def written_write)
qed

lemma Uint64_appends: "appends written (builder_Uint64 K n) (be64 n)"
  using FixedSizeBytes_appends [of "be64 n"]
  by (simp add: builder_Uint64_def [abs_def] put_Uint64_at_def copy_at_def)

lemma VarSizeBytes_appends: "appends written (VarSizeBytes K bs) (be64 (of_nat (length bs)) @ bs)"
  unfolding VarSizeBytes_def [abs_def]
  by (rule appends_bind [OF Uint64_appends]) (simp add: appends_def written_write)

lemma fields_append:
  assumes "utf8_Valid (map of_char f)"
  shows "appends written (Uint64Field K f n) (tag f @ be64 n)"
    and "appends written (builder_Field K f c) (tag f @ c)"
    and "appends written (VarSizeField K f bs) (tag f @ be64 (of_nat (length bs)) @ bs)"
  unfolding Uint64Field_def [abs_def] builder_Field_def [abs_def] VarSizeField_def [abs_def]
  by (intro appends_bind ConstantString_appends assms Uint64_appends FixedSizeBytes_appends VarSizeBytes_appends)+

lemma New_written:
  assumes "utf8_Valid (map of_char name)"
  shows "\<exists>b. NewRawCommitmentBuilder K name = Ok b \<and> written (hasher b) = tag name"
  using appends_run [OF ConstantString_appends [OF assms], of "\<lparr>hasher = NewKeccakState K\<rparr>"]
  by (simp add: NewRawCommitmentBuilder_def written_new)

lemma Finalize_eq: "Finalize K b = digest (written (hasher b))"
  by (simp add: Finalize_def sum_digest digest_length)

lemma NmtRoot_written:
  "\<exists>b. NmtRoot_builder K r = Ok b
     \<and> written (hasher b) = tag ''NMTROOT'' @ tag ''root'' @ be64 (of_nat (length (nr_Root r))) @ nr_Root r"
proof -
  obtain b where "NewRawCommitmentBuilder K ''NMTROOT'' = Ok b" "written (hasher b) = tag ''NMTROOT''"
    using New_written [OF names_valid(1)] by blast
  then show ?thesis
    using appends_run [OF fields_append(3) [OF names_valid(2)], of "nr_Root r" b] by (simp add: NmtRoot_builder_def)
qed

lemma NmtRoot_Commit_total: "\<exists>b. NmtRoot_builder K r = Ok b \<and> NmtRoot_Commit K r = Ok (digest (written (hasher b)))"
  using NmtRoot_written [of r] by (auto simp: NmtRoot_Commit_def Finalize_eq)

lemma Header_written:
  assumes "NmtRoot_Commit K (h_TransactionsRoot h) = Ok c"
  shows "\<exists>b. Header_builder K h = Ok b \<and> written (hasher b) = tag ''BLOCK'' @ (tag ''height'' @ be64 (h_Height h))
     @ (tag ''timestamp'' @ be64 (h_Timestamp h)) @ (tag ''l1_head'' @ be64 (h_L1Head h)) @ tag ''transactions_root'' @ c"
proof -
  obtain b where b: "NewRawCommitmentBuilder K ''BLOCK'' = Ok b" "written (hasher b) = tag ''BLOCK''"
    using New_written [OF names_valid(3)] by blast
  have "appends written (\<lambda>b. res_bind (Uint64Field K ''height'' (h_Height h) b) (\<lambda>b.
      res_bind (Uint64Field K ''timestamp'' (h_Timestamp h) b) (\<lambda>b.
      res_bind (Uint64Field K ''l1_head'' (h_L1Head h) b) (\<lambda>b. builder_Field K ''transactions_root'' c b))))
    ((tag ''height'' @ be64 (h_Height h)) @ (tag ''timestamp'' @ be64 (h_Timestamp h))
      @ (tag ''l1_head'' @ be64 (h_L1Head h)) @ tag ''transactions_root'' @ c)"
    by (intro appends_bind fields_append names_valid)
  from appends_run [OF this, of b] b show ?thesis
    by (simp add: Header_builder_def assms)
qed

end

text \<open>
  A constant string is separated from whatever is hashed after it: for valid UTF-8 names, two
  builders that hash a name and then any bytes have hashed the same only if names and bytes agree;
  an invalid name panics.
\<close>

lemma constant_string_separates:
  assumes "hashing K written digest" "ConstantString K s b = Ok b1" "ConstantString K s' b = Ok b2"
    and "written (hasher (FixedSizeBytes K r b1)) = written (hasher (FixedSizeBytes K r' b2))"
  shows "map of_char s = (map of_char s' :: bytes) \<and> r = r'
    \<and> (\<not> utf8_Valid (map of_char t) \<longrightarrow> ConstantString K t b = Panic ExplicitPanic)"
proof -
  have v: "utf8_Valid (map of_char s)" "utf8_Valid (map of_char s')"
    using assms(2,3) by (auto simp: ConstantString_def split: if_splits)
  have "written (hasher b1) = written (hasher b) @ tag s" "written (hasher b2) = written (hasher b) @ tag s'"
    using appends_run [OF hashing.ConstantString_appends [OF assms(1) v(1)], of b] assms(2)
      appends_run [OF hashing.ConstantString_appends [OF assms(1) v(2)], of b] assms(3) by simp_all
  then have "map of_char s @ [0xC0, 0x7F] @ r = map of_char s' @ [0xC0, 0x7F :: u8] @ r'"
    using assms(4) by (simp add: FixedSizeBytes_def hashing.written_write [OF assms(1)])
  from separator_inject [OF utf8_no_C0 [OF v(1)] utf8_no_C0 [OF v(2)] this] show ?thesis
    by (simp add: ConstantString_def)
qed

lemma Header_Commit_total:
  assumes "hashing K written digest"
  shows "\<exists>c. Header_Commit K h = Ok c \<and> length c = 32"
proof -
  obtain n where n: "NmtRoot_Commit K (h_TransactionsRoot h) = Ok n" using hashing.NmtRoot_Commit_total [OF assms] by blast
  obtain b where "Header_builder K h = Ok b" using hashing.Header_written [OF assms n] by blast
  then show ?thesis
    by (simp add: Header_Commit_def hashing.Finalize_eq [OF assms] hashing.digest_length [OF assms])
qed

lemma Header_Commit_collision:
  assumes "hashing K written digest" "h \<noteq> h'" "Header_Commit K h = Header_Commit K h'"
  shows "(\<exists>b b'. Header_builder K h = Ok b \<and> Header_builder K h' = Ok b'
      \<and> written (hasher b) \<noteq> written (hasher b') \<and> digest (written (hasher b)) = digest (written (hasher b')))
    \<or> (\<exists>b b'. NmtRoot_builder K (h_TransactionsRoot h) = Ok b \<and> NmtRoot_builder K (h_TransactionsRoot h') = Ok b'
      \<and> written (hasher b) \<noteq> written (hasher b') \<and> digest (written (hasher b)) = digest (written (hasher b')))"
proof -
  note H = hashing.Header_written [OF assms(1)] and N = hashing.NmtRoot_Commit_total [OF assms(1)]
    and R = hashing.NmtRoot_written [OF assms(1)] and F = hashing.Finalize_eq [OF assms(1)]
  let ?r = "h_TransactionsRoot h" and ?r' = "h_TransactionsRoot h'"
  obtain n where n: "NmtRoot_builder K ?r = Ok n" "NmtRoot_Commit K ?r = Ok (digest (written (hasher n)))" using N by blast
  obtain n' where n': "NmtRoot_builder K ?r' = Ok n'" "NmtRoot_Commit K ?r' = Ok (digest (written (hasher n')))" using N by blast
  obtain b where b: "Header_builder K h = Ok b" "written (hasher b) = tag ''BLOCK'' @ (tag ''height'' @ be64 (h_Height h))
     @ (tag ''timestamp'' @ be64 (h_Timestamp h)) @ (tag ''l1_head'' @ be64 (h_L1Head h)) @ tag ''transactions_root'' @ digest (written (hasher n))"
    using H [OF n(2)] by blast
  obtain b' where b': "Header_builder K h' = Ok b'" "written (hasher b') = tag ''BLOCK'' @ (tag ''height'' @ be64 (h_Height h'))
     @ (tag ''timestamp'' @ be64 (h_Timestamp h')) @ (tag ''l1_head'' @ be64 (h_L1Head h')) @ tag ''transactions_root'' @ digest (written (hasher n'))"
    using H [OF n'(2)] by blast
  have commits: "Header_Commit K h = Ok (digest (written (hasher b)))" "Header_Commit K h' = Ok (digest (written (hasher b')))"
    by (simp_all add: Header_Commit_def b b' F)
  show ?thesis
  proof (cases "written (hasher b) = written (hasher b')")
    case False
    then show ?thesis
      using b(1) b'(1) commits assms(3) by auto
  next
    case True
    then have fields: "h_Height h = h_Height h'" "h_Timestamp h = h_Timestamp h'" "h_L1Head h = h_L1Head h'"
      and d: "digest (written (hasher n)) = digest (written (hasher n'))"
      by (simp_all add: b b')
    have "nr_Root ?r \<noteq> nr_Root ?r'"
      using assms(2) fields by (metis (full_types) Header.equality NmtRoot.equality old.unit.exhaust)
    moreover have "written (hasher n) = written (hasher n') \<Longrightarrow> nr_Root ?r = nr_Root ?r'"
      using R [of ?r] R [of ?r'] n(1) n'(1) by auto
    ultimately show ?thesis
      using n(1) n'(1) d by blast
  qed
qed

text \<open>
  C17: committing to a header never panics and gives 32 bytes, for every header; and the commitment binds
  the header: when two different headers have equal commitments, the two byte strings hashed for them,
  or the two hashed for their transaction roots, are different and collide under the hash.
\<close>

theorem header_commit_binding:
  assumes "hashing K written digest"
  shows "(\<forall>h. \<exists>c. Header_Commit K h = Ok c \<and> length c = 32)
    \<and> (h \<noteq> h' \<and> Header_Commit K h = Header_Commit K h' \<longrightarrow>
      ((\<exists>b b'. Header_builder K h = Ok b \<and> Header_builder K h' = Ok b'
          \<and> written (hasher b) \<noteq> written (hasher b') \<and> digest (written (hasher b)) = digest (written (hasher b')))
      \<or> (\<exists>b b'. NmtRoot_builder K (h_TransactionsRoot h) = Ok b \<and> NmtRoot_builder K (h_TransactionsRoot h') = Ok b'
          \<and> written (hasher b) \<noteq> written (hasher b') \<and> digest (written (hasher b)) = digest (written (hasher b')))))"
  using Header_Commit_total [OF assms] Header_Commit_collision [OF assms] by blast

lemma constant_string_separates_example:
  "\<exists>b1. ConstantString prefix_keccak ''root'' \<lparr>hasher = []\<rparr> = Ok b1
     \<and> (\<forall>r. hasher (FixedSizeBytes prefix_keccak [1] b1) = hasher (FixedSizeBytes prefix_keccak r b1) \<longrightarrow> r = [1])"
proof -
  obtain b1 where "ConstantString prefix_keccak ''root'' \<lparr>hasher = []\<rparr> = Ok b1"
    using prefix_hashing.ConstantString_appends [OF names_valid(2)] unfolding appends_def by blast
  then show ?thesis
    using constant_string_separates [OF prefix_hashing.hashing_axioms, of "''root''" "\<lparr>hasher = []\<rparr>" b1 "''root''" b1] by metis
qed

text \<open>Under the hash of the instance two headers collide that differ in the L1 head only.\<close>

theorem header_commit_binding_witness:
  "\<exists>b b'. Header_builder prefix_keccak \<lparr>h_Height = 1, h_Timestamp = 2, h_L1Head = 3, h_TransactionsRoot = \<lparr>nr_Root = []\<rparr>\<rparr> = Ok b
     \<and> Header_builder prefix_keccak \<lparr>h_Height = 1, h_Timestamp = 2, h_L1Head = 4, h_TransactionsRoot = \<lparr>nr_Root = []\<rparr>\<rparr> = Ok b'
     \<and> hasher b \<noteq> hasher b'"
proof -
  let ?h = "\<lambda>n. \<lparr>h_Height = 1, h_Timestamp = 2, h_L1Head = n, h_TransactionsRoot = \<lparr>nr_Root = []\<rparr>\<rparr>"
  have pre: "\<exists>b. Header_Commit prefix_keccak (?h n) = Ok (take 32 (tag ''BLOCK'' @ (tag ''height'' @ be64 1) @ tag ''timestamp''))" for n
  proof -
    obtain c where "NmtRoot_Commit prefix_keccak \<lparr>nr_Root = []\<rparr> = Ok c"
      using prefix_hashing.NmtRoot_Commit_total by blast
    then show ?thesis
      using prefix_hashing.Header_written [of "?h n" c] by (auto simp: Header_Commit_def prefix_hashing.Finalize_eq)
  qed
  have ne: "?h 3 \<noteq> ?h 4" by simp
  have "NmtRoot_builder prefix_keccak \<lparr>nr_Root = []\<rparr> = Ok b \<Longrightarrow> NmtRoot_builder prefix_keccak \<lparr>nr_Root = []\<rparr> = Ok b' \<Longrightarrow> b = b'" for b b'
    by simp
  then show ?thesis
    using header_commit_binding [OF prefix_hashing.hashing_axioms, of "?h 3" "?h 4"] ne pre [of 3] pre [of 4] by auto
qed

end
