(* ===== verification/Seq_Config.thy ===== *)
theory Seq_Config
  imports Seq_Action_Utils
begin

text \<open>
  \<open>src/config/config.go\<close>: the node's configuration, its defaults and its getters. The defaults of
  the SDK and the JSON decoder are parameters. Shown: which configurations are accepted, that the
  parsed addresses are exactly the configured ones, and that the rules made from the configuration
  whitelist exactly those.
\<close>

section \<open>Code outside the repository\<close>

text \<open>The fields of the SDK's structs that the sources read or write.\<close>

record JSONRPCValServerConfig =
  DerivePort :: bool

record ProposerConfig =
  pc_GossipMaxSize :: i64
  pc_GossipProposerDiff :: i64
  pc_GossipProposerDepth :: i64
  pc_NoGossipBuilderDiff :: i64
  pc_VerifyTimeout :: i64

text \<open>What the getters of the embedded \<open>config.Config\<close> of the SDK return, and
  \<open>gossiper.DefaultProposerConfig\<close>.\<close>

record hconfig =
  hc_LogLevel :: u8
  hc_AuthVerificationCores :: i64
  hc_RootGenerationCores :: i64
  hc_TransactionExecutionCores :: i64
  hc_StateFetchConcurrency :: i64
  hc_MempoolSize :: i64
  hc_MempoolSponsorSize :: i64
  hc_StateSyncServerDelay :: i64
  hc_StreamingBacklogSize :: i64
  hc_VerifyAuth :: bool
  hc_StoreBlockResultsOnDisk :: bool
  hc_ETHL1RPC :: string
  hc_ETHL1WS :: string
  hc_ArcadiaURL :: string
  hc_ValServerConfig :: JSONRPCValServerConfig
  DefaultProposerConfig :: ProposerConfig

record 'f trace_Config =
  tr_Enabled :: bool
  tr_TraceSampleRate :: 'f
  tr_AppName :: string
  tr_Agent :: string
  tr_Version :: string

record profiler_Config =
  pr_Enabled :: bool
  pr_Dir :: string
  pr_Freq :: i64
  pr_MaxNumFiles :: i64

section \<open>config.go\<close>

definition defaultContinuousProfilerFrequency :: i64 where
  "defaultContinuousProfilerFrequency = 60000000000"
definition defaultContinuousProfilerMaxFiles :: i64 where "defaultContinuousProfilerMaxFiles = 10"
definition defaultStoreTransactions :: bool where "defaultStoreTransactions = True"

record ORMArchiverConfig =
  ac_Enabled :: bool
  ac_ArchiverType :: string
  ac_DSN :: string

text \<open>\<open>'f\<close> stands for \<open>float64\<close>.\<close>

record 'f Config =
  AuthVerificationCores :: i64
  RootGenerationCores :: i64
  TransactionExecutionCores :: i64
  StateFetchConcurrency :: i64
  GossipMaxSize :: i64
  GossipProposerDiff :: i64
  GossipProposerDepth :: i64
  NoGossipBuilderDiff :: i64
  VerifyTimeout :: i64
  TraceEnabled :: bool
  TraceSampleRate :: 'f
  ContinuousProfilerDir :: string
  StreamingBacklogSize :: i64
  StoreBlockResultsOnDisk :: bool
  MempoolSize :: i64
  MempoolSponsorSize :: i64
  MempoolExemptSponsors :: "string list"
  WhitelistedAddresses :: "string list"
  VerifyAuth :: bool
  StoreTransactions :: bool
  TestMode :: bool
  LogLevel :: u8
  StateSyncServerDelay :: i64
  ETHRPCAddr :: string
  ETHWSAddr :: string
  ArchiverConfig :: ORMArchiverConfig
  ArcadiaURL :: string
  ValRPCConfig :: JSONRPCValServerConfig
  c_loaded :: bool
  c_nodeID :: string
  c_parsedExemptSponsors :: "Address list"
  c_parsedWhiteListedAddresses :: "Address list"

text \<open>\<open>Config{nodeID: nodeID}\<close>: every other field has its zero value (\<open>f0\<close> is the float zero).\<close>

definition zero_Config :: "'f \<Rightarrow> string \<Rightarrow> 'f Config" where
  "zero_Config f0 nodeID = \<lparr>
     AuthVerificationCores = 0, RootGenerationCores = 0, TransactionExecutionCores = 0,
     StateFetchConcurrency = 0, GossipMaxSize = 0, GossipProposerDiff = 0, GossipProposerDepth = 0,
     NoGossipBuilderDiff = 0, VerifyTimeout = 0, TraceEnabled = False, TraceSampleRate = f0,
     ContinuousProfilerDir = [], StreamingBacklogSize = 0, StoreBlockResultsOnDisk = False,
     MempoolSize = 0, MempoolSponsorSize = 0, MempoolExemptSponsors = [], WhitelistedAddresses = [],
     VerifyAuth = False, StoreTransactions = False, TestMode = False, LogLevel = 0,
     StateSyncServerDelay = 0, ETHRPCAddr = [], ETHWSAddr = [],
     ArchiverConfig = \<lparr>ac_Enabled = False, ac_ArchiverType = [], ac_DSN = []\<rparr>, ArcadiaURL = [],
     ValRPCConfig = \<lparr>DerivePort = False\<rparr>, c_loaded = False, c_nodeID = nodeID,
     c_parsedExemptSponsors = [], c_parsedWhiteListedAddresses = []\<rparr>"

definition setDefault :: "hconfig \<Rightarrow> 'f Config \<Rightarrow> 'f Config" where
  "setDefault H c =
     (let c = c\<lparr>LogLevel := hc_LogLevel H\<rparr>;
          gcfg = DefaultProposerConfig H;
          c = c\<lparr>GossipMaxSize := pc_GossipMaxSize gcfg,
                GossipProposerDiff := pc_GossipProposerDiff gcfg,
                GossipProposerDepth := pc_GossipProposerDepth gcfg,
                NoGossipBuilderDiff := pc_NoGossipBuilderDiff gcfg,
                VerifyTimeout := pc_VerifyTimeout gcfg\<rparr> in
      c\<lparr>AuthVerificationCores := hc_AuthVerificationCores H,
        RootGenerationCores := hc_RootGenerationCores H,
        TransactionExecutionCores := hc_TransactionExecutionCores H,
        StateFetchConcurrency := hc_StateFetchConcurrency H,
        MempoolSize := hc_MempoolSize H,
        MempoolSponsorSize := hc_MempoolSponsorSize H,
        StateSyncServerDelay := hc_StateSyncServerDelay H,
        StreamingBacklogSize := hc_StreamingBacklogSize H,
        VerifyAuth := hc_VerifyAuth H,
        StoreTransactions := defaultStoreTransactions,
        StoreBlockResultsOnDisk := hc_StoreBlockResultsOnDisk H,
        ETHRPCAddr := hc_ETHL1RPC H,
        ETHWSAddr := hc_ETHL1WS H,
        ArcadiaURL := hc_ArcadiaURL H,
        ValRPCConfig := hc_ValServerConfig H\<rparr>)"

text \<open>The loop that parses a list of addresses stops at the first one that is not an address.\<close>

fun parse_addresses :: "'x sdk_scheme \<Rightarrow> string list \<Rightarrow> err + Address list" where
  "parse_addresses E [] = Inr []"
| "parse_addresses E (s # ss) =
     (case ParseAddressBech32 E HRP s of Inl e \<Rightarrow> Inl e
      | Inr p \<Rightarrow> (case parse_addresses E ss of Inl e \<Rightarrow> Inl e | Inr ps \<Rightarrow> Inr (p # ps)))"

text \<open>\<open>unmarshal\<close> is \<open>json.Unmarshal\<close> into the configuration that already holds the defaults.\<close>

definition Config_New ::
    "'x sdk_scheme \<Rightarrow> hconfig \<Rightarrow> (bytes \<Rightarrow> 'f Config \<Rightarrow> err + 'f Config) \<Rightarrow> 'f \<Rightarrow> string \<Rightarrow> bytes \<Rightarrow> err + 'f Config" where
  "Config_New E H unmarshal f0 nodeID b =
     (let c = setDefault H (zero_Config f0 nodeID) in
      case (if length b > 0 then
              (case unmarshal b c of Inl e \<Rightarrow> Inl (Wrap ''failed to unmarshal config %s'' [FHex b] e)
               | Inr c \<Rightarrow> Inr (c\<lparr>c_loaded := True\<rparr>))
            else Inr c) of
        Inl e \<Rightarrow> Inl e
      | Inr c \<Rightarrow>
          (case parse_addresses E (MempoolExemptSponsors c) of Inl e \<Rightarrow> Inl e
           | Inr ps \<Rightarrow> let c = c\<lparr>c_parsedExemptSponsors := ps\<rparr> in
               (case parse_addresses E (WhitelistedAddresses c) of Inl e \<Rightarrow> Inl e
                | Inr ps \<Rightarrow> Inr (c\<lparr>c_parsedWhiteListedAddresses := ps\<rparr>))))"

definition Config_GetLogLevel :: "'f Config \<Rightarrow> u8" where "Config_GetLogLevel c = LogLevel c"
definition Config_GetTestMode :: "'f Config \<Rightarrow> bool" where "Config_GetTestMode c = TestMode c"
definition Config_GetAuthVerificationCores :: "'f Config \<Rightarrow> i64" where
  "Config_GetAuthVerificationCores c = AuthVerificationCores c"
definition Config_GetRootGenerationCores :: "'f Config \<Rightarrow> i64" where
  "Config_GetRootGenerationCores c = RootGenerationCores c"
definition Config_GetTransactionExecutionCores :: "'f Config \<Rightarrow> i64" where
  "Config_GetTransactionExecutionCores c = TransactionExecutionCores c"
definition Config_GetStateFetchConcurrency :: "'f Config \<Rightarrow> i64" where
  "Config_GetStateFetchConcurrency c = StateFetchConcurrency c"
definition Config_GetMempoolSize :: "'f Config \<Rightarrow> i64" where "Config_GetMempoolSize c = MempoolSize c"
definition Config_GetMempoolSponsorSize :: "'f Config \<Rightarrow> i64" where
  "Config_GetMempoolSponsorSize c = MempoolSponsorSize c"
definition Config_GetMempoolExemptSponsors :: "'f Config \<Rightarrow> Address list" where
  "Config_GetMempoolExemptSponsors c = c_parsedExemptSponsors c"

text \<open>\<open>version\<close> is the string of the version of the VM.\<close>

definition Config_GetTraceConfig :: "string \<Rightarrow> string \<Rightarrow> 'f Config \<Rightarrow> 'f trace_Config" where
  "Config_GetTraceConfig appName version c =
     \<lparr>tr_Enabled = TraceEnabled c, tr_TraceSampleRate = TraceSampleRate c, tr_AppName = appName,
      tr_Agent = c_nodeID c, tr_Version = version\<rparr>"

definition Config_GetStateSyncServerDelay :: "'f Config \<Rightarrow> i64" where
  "Config_GetStateSyncServerDelay c = StateSyncServerDelay c"
definition Config_GetStreamingBacklogSize :: "'f Config \<Rightarrow> i64" where
  "Config_GetStreamingBacklogSize c = StreamingBacklogSize c"
definition Config_GetStoreBlockResultsOnDisk :: "'f Config \<Rightarrow> bool" where
  "Config_GetStoreBlockResultsOnDisk c = StoreBlockResultsOnDisk c"

text \<open>\<open>strings.ReplaceAll\<close> with a pattern of one character.\<close>

definition ReplaceAll :: "char \<Rightarrow> string \<Rightarrow> string \<Rightarrow> string" where
  "ReplaceAll ch new s = concat (map (\<lambda>x. if x = ch then new else [x]) s)"

text \<open>The directory is replaced in the configuration itself.\<close>

definition Config_GetContinuousProfilerConfig :: "'f Config \<Rightarrow> profiler_Config \<times> 'f Config" where
  "Config_GetContinuousProfilerConfig c =
     (if length (ContinuousProfilerDir c) = 0
      then (\<lparr>pr_Enabled = False, pr_Dir = [], pr_Freq = 0, pr_MaxNumFiles = 0\<rparr>, c)
      else let c = c\<lparr>ContinuousProfilerDir := ReplaceAll (CHR ''*'') (c_nodeID c) (ContinuousProfilerDir c)\<rparr> in
        (\<lparr>pr_Enabled = True, pr_Dir = ContinuousProfilerDir c, pr_Freq = defaultContinuousProfilerFrequency,
          pr_MaxNumFiles = defaultContinuousProfilerMaxFiles\<rparr>, c))"

definition Config_GetVerifyAuth :: "'f Config \<Rightarrow> bool" where "Config_GetVerifyAuth c = VerifyAuth c"
definition Config_GetStoreTransactions :: "'f Config \<Rightarrow> bool" where
  "Config_GetStoreTransactions c = StoreTransactions c"
definition Config_Loaded :: "'f Config \<Rightarrow> bool" where "Config_Loaded c = c_loaded c"
definition Config_GetETHL1RPC :: "'f Config \<Rightarrow> string" where "Config_GetETHL1RPC c = ETHRPCAddr c"
definition Config_GetETHL1WS :: "'f Config \<Rightarrow> string" where "Config_GetETHL1WS c = ETHWSAddr c"
definition Config_GetArcadiaURL :: "'f Config \<Rightarrow> string" where "Config_GetArcadiaURL c = ArcadiaURL c"

text \<open>The getter does not look at the configuration.\<close>

definition Config_GetValServerConfig :: JSONRPCValServerConfig where
  "Config_GetValServerConfig = \<lparr>DerivePort = True\<rparr>"

definition Config_GetParsedWhiteListedAddress :: "'f Config \<Rightarrow> Address list" where
  "Config_GetParsedWhiteListedAddress c = c_parsedWhiteListedAddresses c"

section \<open>Lemmas\<close>

lemma parse_addresses_iff:
  "parse_addresses E ss = Inr ps \<longleftrightarrow> list_all2 (\<lambda>s p. ParseAddressBech32 E HRP s = Inr p) ss ps"
proof (induction ss arbitrary: ps)
  case (Cons s ss)
  show ?case
  proof (cases "ParseAddressBech32 E HRP s")
    case (Inr p)
    then show ?thesis
      using Cons.IH by (cases "parse_addresses E ss") (auto simp: list_all2_Cons1)
  qed (simp add: list_all2_Cons1)
qed auto

lemma parse_addresses_fails:
  "parse_addresses E ss = Inl e \<Longrightarrow> \<exists>s\<in>set ss. ParseAddressBech32 E HRP s = Inl e"
  by (induction ss) (auto split: sum.splits)

lemma parse_addresses_ok:
  "(\<exists>ps. parse_addresses E ss = Inr ps) \<longleftrightarrow> (\<forall>s\<in>set ss. \<exists>p. ParseAddressBech32 E HRP s = Inr p)"
  by (induction ss) (auto split: sum.splits)

lemma parse_addresses_set:
  "parse_addresses E ss = Inr ps \<Longrightarrow> actor \<in> set ps \<longleftrightarrow> (\<exists>s\<in>set ss. ParseAddressBech32 E HRP s = Inr actor)"
  by (fastforce simp: parse_addresses_iff list_all2_conv_all_nth in_set_conv_nth)

section \<open>Properties\<close>

text \<open>
  C19: a configuration is accepted exactly when its text decodes and every exempt sponsor and every
  whitelisted address in it parses; without a text the defaults are accepted and nobody is
  whitelisted. Then an actor is whitelisted by the rules made from the configuration exactly when
  one of the configured addresses parses to it.
\<close>

theorem config_whitelist:
  assumes "b \<noteq> []"
  shows "(\<exists>c. Config_New E H unmarshal f0 nodeID b = Inr c) =
      (\<exists>d. unmarshal b (setDefault H (zero_Config f0 nodeID)) = Inr d
        \<and> (\<forall>s\<in>set (MempoolExemptSponsors d @ WhitelistedAddresses d). \<exists>p. ParseAddressBech32 E HRP s = Inr p))
    \<and> (\<forall>c. Config_New E H unmarshal f0 nodeID b = Inr c \<longrightarrow> Config_Loaded c
        \<and> isWhiteListed (Genesis_Rules g t net chain (Config_GetParsedWhiteListedAddress c)) actor
          = Ok (\<exists>s\<in>set (WhitelistedAddresses c). ParseAddressBech32 E HRP s = Inr actor))
    \<and> (\<exists>c. Config_New E H unmarshal f0 nodeID [] = Inr c \<and> \<not> Config_Loaded c \<and> Config_GetStoreTransactions c
        \<and> isWhiteListed (Genesis_Rules g t net chain (Config_GetParsedWhiteListedAddress c)) actor = Ok False)"
proof (intro conjI allI impI)
  let ?d = "unmarshal b (setDefault H (zero_Config f0 nodeID))"
  have run: "Config_New E H unmarshal f0 nodeID b = Inr c \<longleftrightarrow> (\<exists>d ps qs. ?d = Inr d
      \<and> parse_addresses E (MempoolExemptSponsors d) = Inr ps \<and> parse_addresses E (WhitelistedAddresses d) = Inr qs
      \<and> c = d\<lparr>c_loaded := True, c_parsedExemptSponsors := ps, c_parsedWhiteListedAddresses := qs\<rparr>)" for c
    using assms by (auto simp: Config_New_def Let_def split: sum.splits)
  show "(\<exists>c. Config_New E H unmarshal f0 nodeID b = Inr c) = (\<exists>d. ?d = Inr d
      \<and> (\<forall>s\<in>set (MempoolExemptSponsors d @ WhitelistedAddresses d). \<exists>p. ParseAddressBech32 E HRP s = Inr p))"
    unfolding run set_append ball_Un by (auto simp: parse_addresses_ok [symmetric])
  fix c assume c: "Config_New E H unmarshal f0 nodeID b = Inr c"
  then show "Config_Loaded c"
    unfolding run by (auto simp: Config_Loaded_def)
  have "parse_addresses E (WhitelistedAddresses c) = Inr (Config_GetParsedWhiteListedAddress c)"
    using c unfolding run by (auto simp: Config_GetParsedWhiteListedAddress_def)
  then show "isWhiteListed (Genesis_Rules g t net chain (Config_GetParsedWhiteListedAddress c)) actor
      = Ok (\<exists>s\<in>set (WhitelistedAddresses c). ParseAddressBech32 E HRP s = Inr actor)"
    by (simp add: Genesis_Rules_def parse_addresses_set)
next
  show "\<exists>c. Config_New E H unmarshal f0 nodeID [] = Inr c \<and> \<not> Config_Loaded c \<and> Config_GetStoreTransactions c
      \<and> isWhiteListed (Genesis_Rules g t net chain (Config_GetParsedWhiteListedAddress c)) actor = Ok False"
    by (simp add: Config_New_def setDefault_def zero_Config_def Config_Loaded_def Config_GetStoreTransactions_def
        defaultStoreTransactions_def Config_GetParsedWhiteListedAddress_def Genesis_Rules_def Let_def)
qed

definition demo_hconfig :: hconfig where
  "demo_hconfig = \<lparr>hc_LogLevel = 2, hc_AuthVerificationCores = 1, hc_RootGenerationCores = 1,
     hc_TransactionExecutionCores = 1, hc_StateFetchConcurrency = 1, hc_MempoolSize = 2048,
     hc_MempoolSponsorSize = 32, hc_StateSyncServerDelay = 0, hc_StreamingBacklogSize = 1024,
     hc_VerifyAuth = True, hc_StoreBlockResultsOnDisk = False, hc_ETHL1RPC = [], hc_ETHL1WS = [],
     hc_ArcadiaURL = [], hc_ValServerConfig = \<lparr>DerivePort = False\<rparr>,
     DefaultProposerConfig = \<lparr>pc_GossipMaxSize = 1000, pc_GossipProposerDiff = 3, pc_GossipProposerDepth = 1,
       pc_NoGossipBuilderDiff = 4, pc_VerifyTimeout = 30\<rparr>\<rparr>"

text \<open>A text that whitelists the address \<open>abc\<close>.\<close>

definition demo_unmarshal :: "bytes \<Rightarrow> unit Config \<Rightarrow> err + unit Config" where
  "demo_unmarshal b c = Inr (c\<lparr>WhitelistedAddresses := [''abc'']\<rparr>)"

theorem config_whitelist_witness:
  "\<exists>c. Config_New ref demo_hconfig demo_unmarshal () ''node'' [1] = Inr c
     \<and> isWhiteListed (Genesis_Rules (Default ref) 0 1 [] (Config_GetParsedWhiteListedAddress c)) (pad 33 [97, 98, 99]) = Ok True"
proof -
  let ?d = "(setDefault demo_hconfig (zero_Config () ''node''))\<lparr>WhitelistedAddresses := [''abc'']\<rparr>"
  have dec: "demo_unmarshal [1] (setDefault demo_hconfig (zero_Config () ''node'')) = Inr ?d"
    by (simp add: demo_unmarshal_def)
  have lists: "MempoolExemptSponsors ?d = []" "WhitelistedAddresses ?d = [''abc'']"
    by (simp_all add: setDefault_def zero_Config_def Let_def)
  have abc: "ParseAddressBech32 ref HRP ''abc'' = Inr (pad 33 [97, 98, 99])"
    by (simp add: of_char_def)
  note T = config_whitelist [of "[1]" ref demo_hconfig demo_unmarshal "()" "''node''" "Default ref" 0 1 "[]" "pad 33 [97, 98, 99]"]
  obtain c where c: "Config_New ref demo_hconfig demo_unmarshal () ''node'' [1] = Inr c"
    using T dec lists abc by auto
  then have "WhitelistedAddresses c = [''abc'']"
    by (auto simp: Config_New_def demo_unmarshal_def Let_def split: sum.splits)
  with T c abc show ?thesis by auto
qed

end
