(* ===== verification/Seq_Archiver.thy ===== *)
theory Seq_Archiver
  imports Seq_Actions Seq_Commit Seq_Config
begin

text \<open>
  \<open>src/archiver/orm_archiver.go\<close>: archiving accepted blocks in a relational database and the queries
  over it. The object-relational mapper is a parameter (\<open>gorm\<close>), its laws are the locale \<open>orm\<close>. Shown:
  an archived block is found by its ID and by its height; the header queries return exactly the
  blocks of the window, in consecutive order; the commitment query returns the commitments of exactly
  the stored headers between two heights, up to its limit.
\<close>

section \<open>Blocks (hypersdk/chain)\<close>

text \<open>The fields of the SDK's transactions and blocks that the sources read.\<close>

record Result =
  res_Success :: bool
  res_Units :: "u64 list"
  res_Fee :: u64

record Transaction =
  tx_ID :: ID
  tx_Actions :: "Action list"

record StatelessBlock =
  slb_ID :: ID
  slb_Prnt :: ID
  slb_Tmstmp :: i64
  slb_Hght :: u64
  slb_L1Head :: i64
  slb_Txs :: "Transaction list"
  slb_Results :: "Result list"

record StatefulBlock =
  sfb_Prnt :: ID
  sfb_Txs :: "Transaction list"

text \<open>Functions of the SDK; \<open>'q\<close> is a parser.\<close>

record 'q chain =
  StatelessBlock_Marshal :: "StatelessBlock \<Rightarrow> err + bytes"
  UnmarshalBlock :: "bytes \<Rightarrow> 'q \<Rightarrow> err + StatefulBlock"
  StatefulBlock_ID :: "StatefulBlock \<Rightarrow> err + ID"
  ID_String :: "ID \<Rightarrow> string"
  ids_FromString :: "string \<Rightarrow> err + ID"

section \<open>The database (gorm)\<close>

text \<open>A row; \<open>gm_ID\<close> is the primary key of \<open>gorm.Model\<close>.\<close>

record DBBlock =
  gm_ID :: nat
  b_BlockID :: string
  b_Parent :: string
  b_Timestamp :: i64
  b_Height :: u64
  b_L1Head :: i64
  b_Bytes :: bytes

definition zero_DBBlock :: DBBlock where
  "zero_DBBlock = \<lparr>gm_ID = 0, b_BlockID = [], b_Parent = [], b_Timestamp = 0, b_Height = 0, b_L1Head = 0, b_Bytes = []\<rparr>"

text \<open>The conditions and orders of the queries, and what they mean for a row.\<close>

datatype cond =
    BlockIDIs string
  | HeightIs u64
  | HeightFromBefore u64 i64
  | TimestampFrom i64
  | HeightBetween u64 u64

fun matches :: "cond \<Rightarrow> DBBlock \<Rightarrow> bool" where
  "matches (BlockIDIs s) b = (b_BlockID b = s)"
| "matches (HeightIs h) b = (b_Height b = h)"
| "matches (HeightFromBefore h t) b = (h \<le> b_Height b \<and> sint (b_Timestamp b) < sint t)"
| "matches (TimestampFrom t) b = (sint t \<le> sint (b_Timestamp b))"
| "matches (HeightBetween lo hi) b = (lo \<le> b_Height b \<and> b_Height b \<le> hi)"

datatype column = ByHeight | ByTimestamp

fun sort_column :: "column \<Rightarrow> DBBlock \<Rightarrow> int" where
  "sort_column ByHeight b = uint (b_Height b)"
| "sort_column ByTimestamp b = sint (b_Timestamp b)"

text \<open>
  \<open>'d\<close> is the database, \<open>'t\<close> a transaction. \<open>db_FindOne\<close> is \<open>Find\<close> into a struct, \<open>db_Find\<close> into a
  slice (with an optional limit), \<open>db_First\<close> the first in an order, \<open>db_FirstLike\<close> is \<open>First\<close> of a struct
  without a condition, which selects by the struct's primary key.
\<close>

record ('d, 't) gorm =
  db_FindOne :: "'d \<Rightarrow> cond \<Rightarrow> err + DBBlock"
  db_Find :: "'d \<Rightarrow> cond \<Rightarrow> column \<Rightarrow> i64 option \<Rightarrow> err + DBBlock list"
  db_First :: "'d \<Rightarrow> cond \<Rightarrow> column \<Rightarrow> err + DBBlock"
  db_FirstLike :: "'d \<Rightarrow> DBBlock \<Rightarrow> err + DBBlock"
  db_Begin :: "'d \<Rightarrow> 't"
  tx_Create :: "DBBlock \<Rightarrow> 't \<Rightarrow> err option \<times> 't"
  tx_Delete :: "DBBlock \<Rightarrow> 't \<Rightarrow> err option \<times> 't"
  tx_Rollback :: "'t \<Rightarrow> 'd \<Rightarrow> 'd"
  tx_Commit :: "'t \<Rightarrow> 'd \<Rightarrow> err option \<times> 'd"
  AutoMigrate :: "'d \<Rightarrow> err option"
  open_postgres :: "string \<Rightarrow> err + 'd"
  open_sqlite :: "string \<Rightarrow> err + 'd"

section \<open>orm\_archiver.go\<close>

text \<open>\<open>log.Fatalf\<close> ends the process: a panic of the model.\<close>

definition NewORMArchiver :: "('d, 't) gorm \<Rightarrow> 'd \<Rightarrow> 'd res" where
  "NewORMArchiver G db = (case AutoMigrate G db of Some e \<Rightarrow> Panic ExplicitPanic | None \<Rightarrow> Ok db)"

text \<open>\<open>lower\<close> is \<open>strings.ToLower\<close>.\<close>

definition NewORMArchiverFromConfig ::
    "('d, 't) gorm \<Rightarrow> (string \<Rightarrow> string) \<Rightarrow> ORMArchiverConfig \<Rightarrow> 'd res" where
  "NewORMArchiverFromConfig G lower conf =
     (if lower (ac_ArchiverType conf) = ''postgresql'' then
        res_bind (of_sum (open_postgres G (ac_DSN conf))) (NewORMArchiver G)
      else if lower (ac_ArchiverType conf) = ''sqlite'' then
        res_bind (of_sum (open_sqlite G (ac_DSN conf))) (NewORMArchiver G)
      else
        res_bind (of_sum (open_sqlite G ''default.db'')) (NewORMArchiver G))"

text \<open>\<open>unmarshal\<close> is \<open>json.Unmarshal\<close> into an empty configuration.\<close>

definition NewORMArchiverFromConfigBytes ::
    "('d, 't) gorm \<Rightarrow> (string \<Rightarrow> string) \<Rightarrow> (bytes \<Rightarrow> err + ORMArchiverConfig) \<Rightarrow> bytes \<Rightarrow> 'd res" where
  "NewORMArchiverFromConfigBytes G lower unmarshal configBytes =
     (case unmarshal configBytes of
        Inl e \<Rightarrow> Error e
      | Inr conf \<Rightarrow>
          (if lower (ac_ArchiverType conf) = ''postgresql'' then
             res_bind (of_sum (open_postgres G (ac_DSN conf))) (NewORMArchiver G)
           else if lower (ac_ArchiverType conf) = ''sqlite'' then
             res_bind (of_sum (open_sqlite G (ac_DSN conf))) (NewORMArchiver G)
           else
             res_bind (of_sum (open_sqlite G ''default.db'')) (NewORMArchiver G)))"

definition InsertBlock :: "'q chain \<Rightarrow> ('d, 't) gorm \<Rightarrow> StatelessBlock \<Rightarrow> ('d, unit) go" where
  "InsertBlock C G block db =
     (case StatelessBlock_Marshal C block of
        Inl e \<Rightarrow> (Error e, db)
      | Inr blkBytes \<Rightarrow>
          (let newBlock = \<lparr>gm_ID = 0, b_BlockID = ID_String C (slb_ID block), b_Parent = ID_String C (slb_Prnt block),
                 b_Timestamp = slb_Tmstmp block, b_Height = slb_Hght block, b_L1Head = slb_L1Head block,
                 b_Bytes = blkBytes\<rparr> in
           case tx_Create G newBlock (db_Begin G db) of
             (Some e, tx) \<Rightarrow> (Error e, tx_Rollback G tx db)
           | (None, tx) \<Rightarrow> (case tx_Commit G tx db of (Some e, db) \<Rightarrow> (Error e, db) | (None, db) \<Rightarrow> (Ok (), db))))"

definition GetBlock ::
    "'q chain \<Rightarrow> ('d, 't) gorm \<Rightarrow> 'd \<Rightarrow> DBBlock \<Rightarrow> 'q \<Rightarrow> (StatefulBlock \<times> ID) res" where
  "GetBlock C G db dbBlock blockParser =
     res_bind (of_sum (db_FirstLike G db dbBlock)) (\<lambda>dbBlock.
     res_bind (of_sum (UnmarshalBlock C (b_Bytes dbBlock) blockParser)) (\<lambda>blk.
     res_bind (of_sum (ids_FromString C (b_BlockID dbBlock))) (\<lambda>i.
     Ok (blk, i))))"

definition GetBlockByID :: "'q chain \<Rightarrow> ('d, 't) gorm \<Rightarrow> 'd \<Rightarrow> string \<Rightarrow> 'q \<Rightarrow> StatefulBlock res" where
  "GetBlockByID C G db i parser =
     res_bind (of_sum (db_FindOne G db (BlockIDIs i))) (\<lambda>dbBlock.
     of_sum (UnmarshalBlock C (b_Bytes dbBlock) parser))"

definition GetBlockByHeight :: "'q chain \<Rightarrow> ('d, 't) gorm \<Rightarrow> 'd \<Rightarrow> u64 \<Rightarrow> 'q \<Rightarrow> StatefulBlock res" where
  "GetBlockByHeight C G db height parser =
     res_bind (of_sum (db_FindOne G db (HeightIs height))) (\<lambda>dbBlock.
     of_sum (UnmarshalBlock C (b_Bytes dbBlock) parser))"

text \<open>A delete that fails leaves its transaction open.\<close>

definition DeleteBlock :: "('d, 't) gorm \<Rightarrow> DBBlock \<Rightarrow> ('d, bool) go" where
  "DeleteBlock G dbBlock db =
     (case tx_Delete G dbBlock (db_Begin G db) of
        (Some e, tx) \<Rightarrow> (Error e, db)
      | (None, tx) \<Rightarrow> (case tx_Commit G tx db of (Some e, db) \<Rightarrow> (Error e, db) | (None, db) \<Rightarrow> (Ok True, db)))"

record BlockInfo =
  bi_BlockID :: string
  bi_Timestamp :: i64
  bi_L1Head :: u64
  bi_Height :: u64

definition zero_BlockInfo :: BlockInfo where
  "zero_BlockInfo = \<lparr>bi_BlockID = [], bi_Timestamp = 0, bi_L1Head = 0, bi_Height = 0\<rparr>"

record BlockHeadersResponse =
  hr_From :: u64
  hr_Blocks :: "BlockInfo list"
  hr_Prev :: BlockInfo
  hr_Next :: BlockInfo

record GetBlockHeadersIDArgs =
  ha_ID :: string
  ha_ID_EndTimeStamp :: i64

record GetBlockHeadersByHeightArgs =
  ha_Height :: u64
  ha_EndTimeStamp :: i64

record GetBlockHeadersByStartTimeStampArgs =
  ha_StartTimeStamp :: i64
  ha_Start_EndTimeStamp :: i64

definition to_BlockInfo :: "DBBlock \<Rightarrow> BlockInfo" where
  "to_BlockInfo b = \<lparr>bi_BlockID = b_BlockID b, bi_Timestamp = b_Timestamp b, bi_L1Head = b_L1Head b, bi_Height = b_Height b\<rparr>"

text \<open>The block before a height, the loop over the blocks of the window, and the block after it;
  \<open>gap\<close> is the error for two blocks that are not consecutive.\<close>

definition prev_header :: "('d, 't) gorm \<Rightarrow> 'd \<Rightarrow> u64 \<Rightarrow> BlockInfo res" where
  "prev_header G db height =
     (if height > 1 then
        res_bind (of_sum (db_FindOne G db (HeightIs (height - 1)))) (\<lambda>dbBlock. Ok (to_BlockInfo dbBlock))
      else Ok zero_BlockInfo)"

fun collect_headers :: "(BlockInfo \<Rightarrow> BlockInfo \<Rightarrow> err) \<Rightarrow> DBBlock list \<Rightarrow> BlockInfo list \<Rightarrow> BlockInfo list res" where
  "collect_headers gap [] bs = Ok bs"
| "collect_headers gap (block # rest) bs =
     (let blkInfo = to_BlockInfo block in
      if length bs > 0 \<and> bi_Height blkInfo - 1 \<noteq> bi_Height (last bs) then Error (gap blkInfo (last bs))
      else collect_headers gap rest (bs @ [blkInfo]))"

definition next_header :: "('d, 't) gorm \<Rightarrow> 'd \<Rightarrow> i64 \<Rightarrow> BlockInfo" where
  "next_header G db endTimeStamp =
     (case db_First G db (TimestampFrom endTimeStamp) ByHeight of
        Inr b \<Rightarrow> to_BlockInfo b
      | Inl e \<Rightarrow> zero_BlockInfo)"

definition headers_window ::
    "('d, 't) gorm \<Rightarrow> 'd \<Rightarrow> (BlockInfo \<Rightarrow> BlockInfo \<Rightarrow> err) \<Rightarrow> u64 \<Rightarrow> i64 \<Rightarrow> BlockHeadersResponse res" where
  "headers_window G db gap height endTimeStamp =
     res_bind (prev_header G db height) (\<lambda>prev.
     res_bind (of_sum (db_Find G db (HeightFromBefore height endTimeStamp) ByHeight None)) (\<lambda>blocks.
     res_bind (collect_headers gap blocks []) (\<lambda>bs.
     Ok \<lparr>hr_From = 0, hr_Blocks = bs, hr_Prev = prev, hr_Next = next_header G db endTimeStamp\<rparr>)))"

definition GetBlockHeadersByHeight ::
    "('d, 't) gorm \<Rightarrow> 'd \<Rightarrow> GetBlockHeadersByHeightArgs \<Rightarrow> BlockHeadersResponse res" where
  "GetBlockHeadersByHeight G db args =
     headers_window G db (\<lambda>b l. Errorf ''queried blocks aren't consecutive, prev: %d, current: %d''
       [FU (bi_Height b), FU (bi_Height l)]) (ha_Height args) (ha_EndTimeStamp args)"

definition GetBlockHeadersByID ::
    "('d, 't) gorm \<Rightarrow> 'd \<Rightarrow> GetBlockHeadersIDArgs \<Rightarrow> BlockHeadersResponse res" where
  "GetBlockHeadersByID G db args =
     (if ha_ID args = [] then Error (Errorf ''ID in args is not specified'' [])
      else res_bind (of_sum (db_FindOne G db (BlockIDIs (ha_ID args)))) (\<lambda>firstBlock.
        headers_window G db (\<lambda>b l. Errorf ''queried blocks aren't consecutive'' [])
          (b_Height firstBlock) (ha_ID_EndTimeStamp args)))"

definition GetBlockHeadersAfterTimestamp ::
    "('d, 't) gorm \<Rightarrow> 'd \<Rightarrow> GetBlockHeadersByStartTimeStampArgs \<Rightarrow> BlockHeadersResponse res" where
  "GetBlockHeadersAfterTimestamp G db args =
     res_bind (of_sum (db_First G db (TimestampFrom (ha_StartTimeStamp args)) ByTimestamp)) (\<lambda>startBlock.
     headers_window G db (\<lambda>b l. Errorf ''queried blocks aren't consecutive'' [])
       (b_Height startBlock) (ha_Start_EndTimeStamp args))"

record GetBlockCommitmentArgs =
  ca_First :: u64
  ca_CurrentHeight :: u64
  ca_MaxBlocks :: i64

record SequencerWarpBlock =
  wb_BlockID :: string
  wb_Timestamp :: i64
  wb_L1Head :: u64
  wb_Height :: int
  wb_BlockRoot :: int
  wb_ParentRoot :: int

record SequencerWarpBlockResponse =
  wr_Blocks :: "SequencerWarpBlock list"

text \<open>\<open>big.NewInt(int64(h))\<close> reads the height as a signed number.\<close>

fun commitment_blocks ::
    "'q chain \<Rightarrow> 'h keccak \<Rightarrow> 'q \<Rightarrow> DBBlock list \<Rightarrow> SequencerWarpBlock list \<Rightarrow> SequencerWarpBlock list res" where
  "commitment_blocks C K parser [] bs = Ok bs"
| "commitment_blocks C K parser (dbBlock # rest) bs =
     res_bind (of_sum (UnmarshalBlock C (b_Bytes dbBlock) parser)) (\<lambda>blk.
     res_bind (of_sum (StatefulBlock_ID C blk)) (\<lambda>blkID.
     let header = \<lparr>h_Height = b_Height dbBlock, h_Timestamp = b_Timestamp dbBlock, h_L1Head = b_L1Head dbBlock,
           h_TransactionsRoot = \<lparr>nr_Root = blkID\<rparr>\<rparr> in
     res_bind (Header_Commit K header) (\<lambda>comm.
     let parentRoot = U256_SetBytes (sfb_Prnt blk) in
     commitment_blocks C K parser rest (bs @ [\<lparr>wb_BlockID = b_BlockID dbBlock, wb_Timestamp = b_Timestamp dbBlock,
       wb_L1Head = b_L1Head dbBlock, wb_Height = sint (b_Height dbBlock), wb_BlockRoot = Commitment_Uint256 comm,
       wb_ParentRoot = parentRoot\<rparr>]))))"

definition GetCommitmentBlocks ::
    "'q chain \<Rightarrow> ('d, 't) gorm \<Rightarrow> 'h keccak \<Rightarrow> 'd \<Rightarrow> GetBlockCommitmentArgs \<Rightarrow> 'q \<Rightarrow> SequencerWarpBlockResponse res" where
  "GetCommitmentBlocks C G K db args parser =
     (if ca_First args < 1 then Error (Errorf ''the first block height is smaller than 1'' [])
      else res_bind (of_sum (db_Find G db (HeightBetween (ca_First args) (ca_CurrentHeight args)) ByHeight (Some (ca_MaxBlocks args)))) (\<lambda>blocks.
        res_bind (commitment_blocks C K parser blocks []) (\<lambda>bs. Ok \<lparr>wr_Blocks = bs\<rparr>)))"

section \<open>What the sources rely on\<close>

text \<open>
  The rows of a database in order (\<open>db_ok\<close>) have different block IDs and different heights: both
  columns have a unique index. A query that answers returns rows that match, all of them or, with a limit,
  the first ones in the order (a negative limit is none); \<open>Find\<close> into a struct
  leaves the struct empty when there is none, \<open>First\<close> fails then. A committed insertion adds its row,
  under a primary key of the database's choice; a refused or uncommitted one changes no row.
\<close>

locale orm =
  fixes G :: "('d, 't) gorm"
    and rows :: "'d \<Rightarrow> DBBlock set"
    and db_ok :: "'d \<Rightarrow> bool"
  assumes unique_index: "db_ok d \<Longrightarrow> x \<in> rows d \<Longrightarrow> y \<in> rows d \<Longrightarrow>
        b_BlockID x = b_BlockID y \<or> b_Height x = b_Height y \<Longrightarrow> x = y"
    and find_one: "db_FindOne G d c = Inr b \<Longrightarrow>
        (b \<in> rows d \<and> matches c b) \<or> (b = zero_DBBlock \<and> (\<forall>x\<in>rows d. \<not> matches c x))"
    and find_sorted: "db_Find G d c col lim = Inr bs \<Longrightarrow>
        sorted (map (sort_column col) bs) \<and> distinct bs \<and> set bs \<subseteq> {x\<in>rows d. matches c x}"
    and find_all: "db_Find G d c col None = Inr bs \<Longrightarrow> set bs = {x\<in>rows d. matches c x}"
    and find_limited: "db_Find G d c col (Some n) = Inr bs \<Longrightarrow>
        \<exists>all. sorted (map (sort_column col) all) \<and> distinct all \<and> set all = {x\<in>rows d. matches c x}
          \<and> bs = (if sint n < 0 then all else take (nat (sint n)) all)"
    and first_least: "db_First G d c col = Inr b \<Longrightarrow>
        b \<in> rows d \<and> matches c b \<and> (\<forall>x\<in>rows d. matches c x \<longrightarrow> sort_column col b \<le> sort_column col x)"
    and commit_created: "db_ok d \<Longrightarrow> tx_Create G b (db_Begin G d) = (None, t) \<Longrightarrow> tx_Commit G t d = (None, d') \<Longrightarrow>
        db_ok d' \<and> (\<exists>i. rows d' = insert (b\<lparr>gm_ID := i\<rparr>) (rows d))"
    and commit_failed: "tx_Commit G t d = (Some e, d') \<Longrightarrow> rows d' = rows d"
    and rolled_back: "rows (tx_Rollback G t d) = rows d"

text \<open>A database that answers: its queries fail only for a missing row.\<close>

locale orm_up = orm +
  assumes find_one_answers: "\<exists>b. db_FindOne G d c = Inr b"
    and find_answers: "\<exists>bs. db_Find G d c col lim = Inr bs"
    and first_answers: "x \<in> rows d \<Longrightarrow> matches c x \<Longrightarrow> \<exists>b. db_First G d c col = Inr b"

subsection \<open>An instance\<close>

text \<open>A list of rows; a transaction is the list as it will be.\<close>

definition list_select :: "DBBlock list \<Rightarrow> cond \<Rightarrow> column \<Rightarrow> DBBlock list" where
  "list_select d c col = sort_key (sort_column col) (remdups (filter (matches c) d))"

definition list_gorm :: "(DBBlock list, DBBlock list) gorm" where
  "list_gorm = \<lparr>
     db_FindOne = (\<lambda>d c. case filter (matches c) d of [] \<Rightarrow> Inr zero_DBBlock | b # _ \<Rightarrow> Inr b),
     db_Find = (\<lambda>d c col lim. Inr (case lim of None \<Rightarrow> list_select d c col | Some n \<Rightarrow>
       if sint n < 0 then list_select d c col else take (nat (sint n)) (list_select d c col))),
     db_First = (\<lambda>d c col. case list_select d c col of [] \<Rightarrow> Inl ErrNotFound | b # _ \<Rightarrow> Inr b),
     db_FirstLike = (\<lambda>d b. case filter (\<lambda>x. gm_ID x = gm_ID b) d of [] \<Rightarrow> Inl ErrNotFound | b # _ \<Rightarrow> Inr b),
     db_Begin = (\<lambda>d. d),
     tx_Create = (\<lambda>b t. if \<exists>x\<in>set t. b_BlockID x = b_BlockID b \<or> b_Height x = b_Height b
       then (Some (ErrExternal 20), t) else (None, t @ [b\<lparr>gm_ID := Suc (length t)\<rparr>])),
     tx_Delete = (\<lambda>b t. (None, filter (\<lambda>x. gm_ID x \<noteq> gm_ID b) t)),
     tx_Rollback = (\<lambda>t d. d),
     tx_Commit = (\<lambda>t d. (None, t)),
     AutoMigrate = (\<lambda>d. None), open_postgres = (\<lambda>s. Inr []), open_sqlite = (\<lambda>s. Inr [])\<rparr>"

definition list_ok :: "DBBlock list \<Rightarrow> bool" where
  "list_ok d \<longleftrightarrow> (\<forall>x\<in>set d. \<forall>y\<in>set d. b_BlockID x = b_BlockID y \<or> b_Height x = b_Height y \<longrightarrow> x = y)"

lemma list_select_set: "set (list_select d c col) = {x\<in>set d. matches c x}"
  by (auto simp: list_select_def)

lemma list_select_sorted: "sorted (map (sort_column col) (list_select d c col))" "distinct (list_select d c col)"
  by (simp_all add: list_select_def)

lemma list_select_first:
  assumes "list_select d c col = b # bs"
  shows "b \<in> set d" "matches c b" "x \<in> set d \<Longrightarrow> matches c x \<Longrightarrow> sort_column col b \<le> sort_column col x"
  using list_select_set [of d c col] list_select_sorted(1) [of col d c] assms by auto

lemma list_Find_take:
  "sorted (map (sort_column col) (take n (list_select d c col))) \<and> distinct (take n (list_select d c col))
     \<and> set (take n (list_select d c col)) \<subseteq> {x\<in>set d. matches c x}"
  using list_select_sorted [where col = col and d = d and c = c] list_select_set [of d c col]
  by (auto simp: sorted_wrt_take simp flip: take_map dest: in_set_takeD)

interpretation list_orm: orm_up list_gorm set list_ok
proof (unfold_locales, goal_cases)
  case (1 d x y) then show ?case unfolding list_ok_def by blast
next
  case (2 d c b)
  have "set (filter (matches c) d) = {x\<in>set d. matches c x}" by auto
  with 2 show ?case by (cases "filter (matches c) d") (auto simp: list_gorm_def)
next
  case (3 d c col lim bs)
  then consider "bs = list_select d c col" | n where "bs = take n (list_select d c col)"
    by (auto simp: list_gorm_def split: option.splits if_splits)
  then show ?case
    using list_Find_take [of col _ d c] list_select_sorted [where col = col and d = d and c = c] list_select_set [of d c col]
    by cases simp_all
next
  case (4 d c col bs) then show ?case using list_select_set [of d c col] by (auto simp: list_gorm_def)
next
  case (5 d c col n bs)
  then have "bs = (if sint n < 0 then list_select d c col else take (nat (sint n)) (list_select d c col))"
    by (simp add: list_gorm_def split: if_splits)
  with list_select_set [of d c col] list_select_sorted [where col = col and d = d and c = c] show ?case by blast
next
  case (6 d c col b) then show ?case
    using list_select_first [of d c col b] by (auto simp: list_gorm_def split: list.splits)
next
  case (7 d b t d')
  then have fresh: "\<forall>x\<in>set d. b_BlockID x \<noteq> b_BlockID b \<and> b_Height x \<noteq> b_Height b"
    and d': "d' = d @ [b\<lparr>gm_ID := Suc (length d)\<rparr>]"
    by (auto simp: list_gorm_def split: if_splits)
  have "list_ok d'" using 7(1) fresh unfolding list_ok_def d' by force
  then show ?case by (auto simp: d')
next
  case (8 t d e d') then show ?case by (simp add: list_gorm_def)
next
  case (9 t d) then show ?case by (simp add: list_gorm_def)
next
  case (10 d c) then show ?case by (auto simp: list_gorm_def split: list.splits)
next
  case (11 d c col lim) then show ?case by (simp add: list_gorm_def)
next
  case (12 x d c col) then show ?case
    using list_select_set [of d c col] by (cases "list_select d c col") (auto simp: list_gorm_def)
qed

section \<open>Archiving and finding a block\<close>

context orm
begin

lemma find_one_unique:
  "db_ok d \<Longrightarrow> x \<in> rows d \<Longrightarrow> c = BlockIDIs (b_BlockID x) \<or> c = HeightIs (b_Height x) \<Longrightarrow> db_FindOne G d c = Inr b \<Longrightarrow> b = x"
  using find_one [of d c b] unique_index [of d b x] by auto

lemma InsertBlock_rows:
  assumes "db_ok d" "InsertBlock C G block d = (r, d')"
  shows "(r = Ok () \<and> db_ok d' \<and> (\<exists>bs i. StatelessBlock_Marshal C block = Inr bs
        \<and> rows d' = insert \<lparr>gm_ID = i, b_BlockID = ID_String C (slb_ID block), b_Parent = ID_String C (slb_Prnt block),
            b_Timestamp = slb_Tmstmp block, b_Height = slb_Hght block, b_L1Head = slb_L1Head block, b_Bytes = bs\<rparr> (rows d)))
    \<or> ((\<exists>e. r = Error e) \<and> rows d' = rows d)"
proof (cases "StatelessBlock_Marshal C block")
  case (Inr bs)
  let ?b = "\<lparr>gm_ID = 0, b_BlockID = ID_String C (slb_ID block), b_Parent = ID_String C (slb_Prnt block),
     b_Timestamp = slb_Tmstmp block, b_Height = slb_Hght block, b_L1Head = slb_L1Head block, b_Bytes = bs\<rparr>"
  obtain q t where create: "tx_Create G ?b (db_Begin G d) = (q, t)" by (cases "tx_Create G ?b (db_Begin G d)")
  obtain q' d1 where commit: "tx_Commit G t d = (q', d1)" by (cases "tx_Commit G t d")
  show ?thesis
  proof (cases q)
    case (Some e)
    then show ?thesis using assms(2) create Inr by (auto simp: InsertBlock_def Let_def rolled_back)
  next
    case None
    show ?thesis
    proof (cases q')
      case (Some e)
      then show ?thesis
        using assms(2) create commit Inr None commit_failed by (auto simp: InsertBlock_def Let_def)
    next
      case None': None
      have "db_ok d1 \<and> (\<exists>i. rows d1 = insert (?b\<lparr>gm_ID := i\<rparr>) (rows d))"
        by (rule commit_created [OF assms(1)]) (use create commit None None' in simp_all)
      then show ?thesis
        using assms(2) create commit Inr None None' by (auto simp: InsertBlock_def Let_def)
    qed
  qed
qed (use assms in \<open>auto simp: InsertBlock_def\<close>)

end

context orm_up
begin

lemma stored_block:
  assumes "db_ok d" "x \<in> rows d"
  shows "GetBlockByID C G d (b_BlockID x) parser = of_sum (UnmarshalBlock C (b_Bytes x) parser)"
    and "GetBlockByHeight C G d (b_Height x) parser = of_sum (UnmarshalBlock C (b_Bytes x) parser)"
  using find_one_unique [OF assms, of "BlockIDIs (b_BlockID x)"] find_one_unique [OF assms, of "HeightIs (b_Height x)"]
    find_one_answers [of d] unfolding GetBlockByID_def GetBlockByHeight_def
  by (metis of_sum.simps(2) res_bind.simps(1))+

end

text \<open>
  C13: an accepted block that was archived is found again, by its ID and by its height, with the bytes
  it was stored with, and so is every block that was there before; an insertion that fails changes no
  row and keeps the indexes unique.
\<close>

theorem archived_block_found:
  assumes "orm_up G rows db_ok" "db_ok d" "InsertBlock C G block d = (r, d')"
    and "StatelessBlock_Marshal C block = Inr bs"
  shows "(r = Ok () \<longrightarrow> db_ok d'
      \<and> GetBlockByID C G d' (ID_String C (slb_ID block)) parser = of_sum (UnmarshalBlock C bs parser)
      \<and> GetBlockByHeight C G d' (slb_Hght block) parser = of_sum (UnmarshalBlock C bs parser)
      \<and> (\<forall>x\<in>rows d. GetBlockByID C G d' (b_BlockID x) parser = of_sum (UnmarshalBlock C (b_Bytes x) parser)))
    \<and> (r \<noteq> Ok () \<longrightarrow> rows d' = rows d)"
proof (intro conjI impI ballI)
  have O: "orm G rows db_ok" using assms(1) by (simp add: orm_up_def)
  note I = orm.InsertBlock_rows [OF O assms(2,3)]
  show "r \<noteq> Ok () \<Longrightarrow> rows d' = rows d" using I by auto
  note get = orm_up.stored_block [OF assms(1), where C = C and parser = parser]
  assume ok: "r = Ok ()"
  then obtain i where d': "db_ok d'" "rows d' = insert \<lparr>gm_ID = i, b_BlockID = ID_String C (slb_ID block),
      b_Parent = ID_String C (slb_Prnt block), b_Timestamp = slb_Tmstmp block, b_Height = slb_Hght block,
      b_L1Head = slb_L1Head block, b_Bytes = bs\<rparr> (rows d)"
    using I assms(4) by auto
  show "db_ok d'" by (fact d')
  show "GetBlockByID C G d' (ID_String C (slb_ID block)) parser = of_sum (UnmarshalBlock C bs parser)"
    "GetBlockByHeight C G d' (slb_Hght block) parser = of_sum (UnmarshalBlock C bs parser)"
    using get [OF d'(1), unfolded d'(2), OF insertI1] by simp_all
  show "GetBlockByID C G d' (b_BlockID x) parser = of_sum (UnmarshalBlock C (b_Bytes x) parser)" if "x \<in> rows d" for x
    using get(1) [OF d'(1)] that d'(2) by simp
qed

text \<open>Blocks of the instance: their bytes are their parent, and their ID is printed as its length.\<close>

definition demo_chain :: "unit chain" where
  "demo_chain = \<lparr>StatelessBlock_Marshal = (\<lambda>b. Inr (slb_Prnt b)), UnmarshalBlock = (\<lambda>b q. Inr \<lparr>sfb_Prnt = b, sfb_Txs = []\<rparr>),
     StatefulBlock_ID = (\<lambda>b. Inr (0 # sfb_Prnt b)), ID_String = (\<lambda>i. map (\<lambda>x. CHR ''x'') i), ids_FromString = (\<lambda>s. Inr (map of_char s))\<rparr>"

definition demo_blk :: "nat \<Rightarrow> StatelessBlock" where
  "demo_blk n = \<lparr>slb_ID = replicate n 1, slb_Prnt = replicate n 9, slb_Tmstmp = of_nat (100 * n), slb_Hght = of_nat n,
     slb_L1Head = 7, slb_Txs = [], slb_Results = []\<rparr>"

theorem archived_block_found_witness:
  "\<exists>d'. InsertBlock demo_chain list_gorm (demo_blk 1) [] = (Ok (), d')
     \<and> GetBlockByHeight demo_chain list_gorm d' 1 () = Ok \<lparr>sfb_Prnt = [9], sfb_Txs = []\<rparr>"
proof -
  have run: "InsertBlock demo_chain list_gorm (demo_blk 1) [] = (Ok (), snd (InsertBlock demo_chain list_gorm (demo_blk 1) []))"
    by (simp add: InsertBlock_def demo_chain_def list_gorm_def)
  have ok: "list_ok []" by (simp add: list_ok_def)
  have m: "StatelessBlock_Marshal demo_chain (demo_blk 1) = Inr [9]"
    by (simp add: demo_chain_def demo_blk_def)
  have h: "slb_Hght (demo_blk 1) = 1" by (simp add: demo_blk_def)
  show ?thesis
    using archived_block_found [OF list_orm.orm_up_axioms ok run m, of "()"] run h by (auto simp: demo_chain_def)
qed

section \<open>Header queries\<close>

text \<open>Consecutive heights, as the loop compares them.\<close>

definition consecutive :: "BlockInfo list \<Rightarrow> bool" where
  "consecutive = successively (\<lambda>x y. bi_Height y - 1 = bi_Height x)"

lemma collect_headers_iff:
  "consecutive bs \<Longrightarrow> collect_headers gap rest bs = Ok res \<longleftrightarrow>
     res = bs @ map to_BlockInfo rest \<and> consecutive (bs @ map to_BlockInfo rest)"
proof (induction rest arbitrary: bs)
  case (Cons b rest)
  have step: "consecutive (bs @ [to_BlockInfo b]) \<longleftrightarrow> (bs \<noteq> [] \<longrightarrow> bi_Height (to_BlockInfo b) - 1 = bi_Height (last bs))"
    using Cons.prems by (auto simp: consecutive_def successively_append_iff)
  show ?case
  proof (cases "consecutive (bs @ [to_BlockInfo b])")
    case True
    then show ?thesis
      using Cons.IH [OF True] step by (auto simp: Let_def)
  next
    case False
    have "\<not> consecutive ((bs @ [to_BlockInfo b]) @ cs)" for cs
      using False unfolding consecutive_def by (subst successively_append_iff) simp
    then have "\<not> consecutive (bs @ map to_BlockInfo (b # rest))" by simp
    then show ?thesis using False step by (auto simp: Let_def)
  qed
qed auto

text \<open>What a header query promises: exactly the blocks of the window, one height after the other;
  before them the block one lower, if it is there; after them the lowest block past the window.\<close>

definition window_ok :: "DBBlock set \<Rightarrow> u64 \<Rightarrow> i64 \<Rightarrow> BlockHeadersResponse \<Rightarrow> bool" where
  "window_ok R height end_ts resp \<longleftrightarrow>
     set (hr_Blocks resp) = to_BlockInfo ` {b\<in>R. height \<le> b_Height b \<and> sint (b_Timestamp b) < sint end_ts}
     \<and> (\<forall>i. Suc i < length (hr_Blocks resp) \<longrightarrow>
          uint (bi_Height (hr_Blocks resp ! Suc i)) = uint (bi_Height (hr_Blocks resp ! i)) + 1)
     \<and> (\<forall>b\<in>R. 1 < height \<and> b_Height b = height - 1 \<longrightarrow> hr_Prev resp = to_BlockInfo b)
     \<and> ((\<exists>b\<in>R. sint end_ts \<le> sint (b_Timestamp b)) \<longrightarrow>
          (\<exists>b\<in>R. hr_Next resp = to_BlockInfo b \<and> sint end_ts \<le> sint (b_Timestamp b)
            \<and> (\<forall>x\<in>R. sint end_ts \<le> sint (b_Timestamp x) \<longrightarrow> b_Height b \<le> b_Height x)))"

text \<open>No height is missing in the window.\<close>

definition window_dense :: "DBBlock set \<Rightarrow> u64 \<Rightarrow> i64 \<Rightarrow> bool" where
  "window_dense R height end_ts \<longleftrightarrow>
     (\<forall>x\<in>{b\<in>R. height \<le> b_Height b \<and> sint (b_Timestamp b) < sint end_ts}.
      \<forall>y\<in>{b\<in>R. height \<le> b_Height b \<and> sint (b_Timestamp b) < sint end_ts}.
      \<forall>h. b_Height x < h \<and> h < b_Height y \<longrightarrow> (\<exists>z\<in>R. b_Height z = h \<and> sint (b_Timestamp z) < sint end_ts))"

lemma prev_word:
  assumes "0 < (x :: u64)"
  shows "uint (x - 1) = uint x - 1"
proof -
  have "1 \<le> x" using assms by (simp add: word_le_nat_alt word_less_nat_alt Suc_leI)
  then show ?thesis by (simp add: uint_minus_simple_alt)
qed

lemma next_height:
  assumes "(x :: u64) < y"
  shows "y - 1 = x \<longleftrightarrow> uint y = uint x + 1"
proof -
  have "uint (y - 1) = uint y - 1"
    using assms by (intro prev_word) (metis word_gt_0 word_not_simps(1))
  then show ?thesis by (metis diff_add_cancel add_diff_cancel_right' word_uint_eqI)
qed

context orm_up
begin

lemma find_strict:
  assumes "db_ok d" "db_Find G d c ByHeight lim = Inr bs" "i < j" "j < length bs"
  shows "b_Height (bs ! i) < b_Height (bs ! j)"
proof -
  have f: "sorted (map (sort_column ByHeight) bs)" "distinct bs" "set bs \<subseteq> rows d"
    using find_sorted [OF assms(2)] by auto
  have "inj_on (sort_column ByHeight) (set bs)"
    using unique_index [OF assms(1)] f(3) by (intro inj_onI) (metis sort_column.simps(1) subsetD word_uint_eqI)
  then have "sorted_wrt (<) (map (sort_column ByHeight) bs)"
    using f by (simp add: strict_sorted_iff distinct_map)
  then have "sort_column ByHeight (bs ! i) < sort_column ByHeight (bs ! j)"
    using assms(3,4) by (simp add: sorted_wrt_iff_nth_less)
  then show ?thesis by (simp add: word_less_def)
qed

lemma headers_window_ok:
  assumes "db_ok d" "headers_window G d gap height end_ts = Ok resp"
  shows "window_ok (rows d) height end_ts resp"
proof -
  obtain prev blocks where prev: "prev_header G d height = Ok prev"
    and blocks: "db_Find G d (HeightFromBefore height end_ts) ByHeight None = Inr blocks"
    and cons: "consecutive (map to_BlockInfo blocks)"
    and resp: "resp = \<lparr>hr_From = 0, hr_Blocks = map to_BlockInfo blocks, hr_Prev = prev, hr_Next = next_header G d end_ts\<rparr>"
    using assms(2) by (auto simp: headers_window_def res_bind_Ok_iff collect_headers_iff consecutive_def)
  have "uint (b_Height (blocks ! Suc i)) = uint (b_Height (blocks ! i)) + 1" if i: "Suc i < length blocks" for i
  proof -
    have "b_Height (blocks ! Suc i) - 1 = b_Height (blocks ! i)"
      using cons i by (auto simp: consecutive_def successively_conv_nth to_BlockInfo_def)
    then show ?thesis
      using next_height find_strict [OF assms(1) blocks lessI i] by blast
  qed
  moreover have "prev = to_BlockInfo b" if "b \<in> rows d" "1 < height" "b_Height b = height - 1" for b
    using prev that find_one_unique [OF assms(1) that(1)] by (auto simp: prev_header_def res_bind_Ok_iff)
  moreover have "\<exists>b\<in>rows d. next_header G d end_ts = to_BlockInfo b \<and> sint end_ts \<le> sint (b_Timestamp b)
      \<and> (\<forall>x\<in>rows d. sint end_ts \<le> sint (b_Timestamp x) \<longrightarrow> b_Height b \<le> b_Height x)"
    if x: "x \<in> rows d" "sint end_ts \<le> sint (b_Timestamp x)" for x
  proof -
    obtain b where b: "db_First G d (TimestampFrom end_ts) ByHeight = Inr b"
      using first_answers [OF x(1), of "TimestampFrom end_ts"] x(2) by auto
    then show ?thesis
      using first_least [OF b] by (auto simp: next_header_def word_le_def)
  qed
  ultimately show ?thesis
    using find_all [OF blocks] by (auto simp: window_ok_def resp to_BlockInfo_def)
qed

lemma headers_window_answers:
  assumes "db_ok d" "window_dense (rows d) height end_ts"
  shows "\<exists>resp. headers_window G d gap height end_ts = Ok resp"
proof -
  obtain blocks where blocks: "db_Find G d (HeightFromBefore height end_ts) ByHeight None = Inr blocks"
    using find_answers by blast
  note all = find_all [OF blocks] and strict = find_strict [OF assms(1) blocks]
  have "b_Height (blocks ! Suc i) - 1 = b_Height (blocks ! i)" if i: "Suc i < length blocks" for i
  proof (rule ccontr)
    let ?x = "blocks ! i" and ?y = "blocks ! Suc i"
    assume gap: "b_Height ?y - 1 \<noteq> b_Height ?x"
    have xy: "b_Height ?x < b_Height ?y" using strict [OF lessI i] .
    then have pos: "0 < b_Height ?y" by (metis word_gt_0 word_not_simps(1))
    have mem: "?x \<in> set blocks" "?y \<in> set blocks" using i by simp_all
    have mid: "b_Height ?x < b_Height ?y - 1" "b_Height ?y - 1 < b_Height ?y"
      using gap xy prev_word [OF pos] next_height [OF xy] by (simp_all add: word_less_def)
    obtain z where z: "z \<in> rows d" "b_Height z = b_Height ?y - 1" "sint (b_Timestamp z) < sint end_ts"
      using assms(2) [unfolded window_dense_def, rule_format, of ?x ?y "b_Height ?y - 1"] mem all mid by auto
    have "height \<le> b_Height ?x" using mem(1) all by auto
    then have "z \<in> set blocks" using z mid(1) all by auto
    then obtain k where k: "k < length blocks" "z = blocks ! k" by (auto simp: in_set_conv_nth)
    consider "k < i" | "k = i" | "k = Suc i" | "Suc i < k" by linarith
    then show False
      using strict [of k i] strict [of "Suc i" k] k z mid i by cases auto
  qed
  then have "consecutive (map to_BlockInfo blocks)"
    by (auto simp: consecutive_def successively_conv_nth to_BlockInfo_def)
  moreover have "\<exists>p. prev_header G d height = Ok p"
    using find_one_answers [of d "HeightIs (height - 1)"] by (auto simp: prev_header_def)
  moreover from calculation(1) have "collect_headers gap blocks [] = Ok (map to_BlockInfo blocks)"
    by (simp add: collect_headers_iff consecutive_def)
  ultimately show ?thesis using blocks by (auto simp: headers_window_def)
qed

end

text \<open>The blocks that are the earliest at or after a time.\<close>

definition earliest_from :: "DBBlock set \<Rightarrow> i64 \<Rightarrow> DBBlock \<Rightarrow> bool" where
  "earliest_from R t x \<longleftrightarrow> x \<in> R \<and> sint t \<le> sint (b_Timestamp x)
     \<and> (\<forall>y\<in>R. sint t \<le> sint (b_Timestamp y) \<longrightarrow> sint (b_Timestamp x) \<le> sint (b_Timestamp y))"

context orm_up
begin

lemma headers_by_id:
  assumes "db_ok d" "b \<in> rows d" "b_BlockID b = ha_ID args" "ha_ID args \<noteq> []"
  shows "GetBlockHeadersByID G d args =
    headers_window G d (\<lambda>b l. Errorf ''queried blocks aren't consecutive'' []) (b_Height b) (ha_ID_EndTimeStamp args)"
proof -
  obtain x where "db_FindOne G d (BlockIDIs (ha_ID args)) = Inr x" using find_one_answers by blast
  then show ?thesis
    using find_one_unique [OF assms(1,2), of "BlockIDIs (ha_ID args)" x] assms(3,4) by (simp add: GetBlockHeadersByID_def)
qed

lemma headers_after_timestamp:
  assumes "db_ok d"
  shows "(\<exists>e. GetBlockHeadersAfterTimestamp G d args = Error e) \<and> (\<forall>y\<in>rows d. sint (b_Timestamp y) < sint (ha_StartTimeStamp args))
    \<or> (\<exists>x. earliest_from (rows d) (ha_StartTimeStamp args) x \<and> GetBlockHeadersAfterTimestamp G d args =
        headers_window G d (\<lambda>b l. Errorf ''queried blocks aren't consecutive'' []) (b_Height x) (ha_Start_EndTimeStamp args))"
proof (cases "db_First G d (TimestampFrom (ha_StartTimeStamp args)) ByTimestamp")
  case (Inl e)
  then have "\<not> matches (TimestampFrom (ha_StartTimeStamp args)) y" if "y \<in> rows d" for y
    using first_answers [OF that, of "TimestampFrom (ha_StartTimeStamp args)" ByTimestamp] by auto
  with Inl show ?thesis by (auto simp: GetBlockHeadersAfterTimestamp_def not_le)
next
  case (Inr x)
  then show ?thesis
    using first_least [OF Inr] by (auto simp: GetBlockHeadersAfterTimestamp_def earliest_from_def)
qed

end

text \<open>
  C12: the three header queries keep their contract. Asked by height they answer for the window from
  that height on, asked by the ID of an archived block for the window from its height on, asked by a
  time for the window from the height of an earliest block at or after that time. They answer with
  exactly the blocks of the window, in consecutive order, with the block before and the lowest block
  after. Each of them does answer when no height is missing in its window; the query by time fails
  when no block is at or after the time.
\<close>

theorem header_queries_ok:
  assumes "orm_up G rows db_ok" "db_ok d"
  shows "(GetBlockHeadersByHeight G d args = Ok resp \<longrightarrow> window_ok (rows d) (ha_Height args) (ha_EndTimeStamp args) resp)
    \<and> (window_dense (rows d) (ha_Height args) (ha_EndTimeStamp args) \<longrightarrow> (\<exists>r. GetBlockHeadersByHeight G d args = Ok r))
    \<and> (b \<in> rows d \<and> b_BlockID b = ha_ID args' \<and> GetBlockHeadersByID G d args' = Ok resp \<longrightarrow>
        window_ok (rows d) (b_Height b) (ha_ID_EndTimeStamp args') resp)
    \<and> (b \<in> rows d \<and> b_BlockID b = ha_ID args' \<and> ha_ID args' \<noteq> []
          \<and> window_dense (rows d) (b_Height b) (ha_ID_EndTimeStamp args') \<longrightarrow> (\<exists>r. GetBlockHeadersByID G d args' = Ok r))
    \<and> (GetBlockHeadersAfterTimestamp G d args'' = Ok resp \<longrightarrow>
        (\<exists>x. earliest_from (rows d) (ha_StartTimeStamp args'') x \<and> window_ok (rows d) (b_Height x) (ha_Start_EndTimeStamp args'') resp))
    \<and> ((\<exists>y\<in>rows d. sint (ha_StartTimeStamp args'') \<le> sint (b_Timestamp y))
          \<and> (\<forall>x. earliest_from (rows d) (ha_StartTimeStamp args'') x \<longrightarrow> window_dense (rows d) (b_Height x) (ha_Start_EndTimeStamp args''))
        \<longrightarrow> (\<exists>r. GetBlockHeadersAfterTimestamp G d args'' = Ok r))
    \<and> ((\<forall>y\<in>rows d. sint (b_Timestamp y) < sint (ha_StartTimeStamp args'')) \<longrightarrow> (\<exists>e. GetBlockHeadersAfterTimestamp G d args'' = Error e))"
proof -
  note W = orm_up.headers_window_ok [OF assms] and A = orm_up.headers_window_answers [OF assms]
    and T = orm_up.headers_after_timestamp [OF assms, of args'']
  have id: "b \<in> rows d \<and> b_BlockID b = ha_ID args' \<and> ha_ID args' \<noteq> [] \<longrightarrow> GetBlockHeadersByID G d args' =
      headers_window G d (\<lambda>b l. Errorf ''queried blocks aren't consecutive'' []) (b_Height b) (ha_ID_EndTimeStamp args')"
    using orm_up.headers_by_id [OF assms] by blast
  have ne: "GetBlockHeadersByID G d args' = Ok resp \<Longrightarrow> ha_ID args' \<noteq> []"
    by (auto simp: GetBlockHeadersByID_def)
  show ?thesis
  proof (intro conjI)
    show "GetBlockHeadersByHeight G d args = Ok resp \<longrightarrow> window_ok (rows d) (ha_Height args) (ha_EndTimeStamp args) resp"
      using W unfolding GetBlockHeadersByHeight_def by blast
    show "window_dense (rows d) (ha_Height args) (ha_EndTimeStamp args) \<longrightarrow> (\<exists>r. GetBlockHeadersByHeight G d args = Ok r)"
      using A unfolding GetBlockHeadersByHeight_def by blast
    show "b \<in> rows d \<and> b_BlockID b = ha_ID args' \<and> GetBlockHeadersByID G d args' = Ok resp \<longrightarrow>
        window_ok (rows d) (b_Height b) (ha_ID_EndTimeStamp args') resp"
      using W id ne by metis
    show "b \<in> rows d \<and> b_BlockID b = ha_ID args' \<and> ha_ID args' \<noteq> []
        \<and> window_dense (rows d) (b_Height b) (ha_ID_EndTimeStamp args') \<longrightarrow> (\<exists>r. GetBlockHeadersByID G d args' = Ok r)"
      using A id by metis
    show "GetBlockHeadersAfterTimestamp G d args'' = Ok resp \<longrightarrow>
        (\<exists>x. earliest_from (rows d) (ha_StartTimeStamp args'') x \<and> window_ok (rows d) (b_Height x) (ha_Start_EndTimeStamp args'') resp)"
      using T W by (metis res.distinct(1))
    show "(\<exists>y\<in>rows d. sint (ha_StartTimeStamp args'') \<le> sint (b_Timestamp y))
        \<and> (\<forall>x. earliest_from (rows d) (ha_StartTimeStamp args'') x \<longrightarrow> window_dense (rows d) (b_Height x) (ha_Start_EndTimeStamp args''))
      \<longrightarrow> (\<exists>r. GetBlockHeadersAfterTimestamp G d args'' = Ok r)"
      using T A by (metis not_le)
    show "(\<forall>y\<in>rows d. sint (b_Timestamp y) < sint (ha_StartTimeStamp args'')) \<longrightarrow> (\<exists>e. GetBlockHeadersAfterTimestamp G d args'' = Error e)"
      using T unfolding earliest_from_def by (metis not_le)
  qed
qed

definition demo_row :: "string \<Rightarrow> u64 \<Rightarrow> DBBlock" where
  "demo_row i h = \<lparr>gm_ID = 1, b_BlockID = i, b_Parent = [], b_Timestamp = h, b_Height = h, b_L1Head = 7, b_Bytes = [9]\<rparr>"

definition demo_db :: "DBBlock list" where
  "demo_db = [demo_row ''b'' 3, demo_row ''c'' 4, demo_row ''a'' 2]"

lemma demo_db_ok: "list_ok demo_db"
  by (simp add: list_ok_def demo_db_def demo_row_def)

theorem header_queries_ok_witness:
  "\<exists>resp. GetBlockHeadersByHeight list_gorm demo_db \<lparr>ha_Height = 3, ha_EndTimeStamp = 1000\<rparr> = Ok resp
     \<and> set (hr_Blocks resp) = {to_BlockInfo (demo_row ''b'' 3), to_BlockInfo (demo_row ''c'' 4)}
     \<and> hr_Prev resp = to_BlockInfo (demo_row ''a'' 2)"
proof -
  let ?a = "\<lparr>ha_Height = 3, ha_EndTimeStamp = 1000\<rparr>"
  have in_db: "{b\<in>set demo_db. 3 \<le> b_Height b \<and> sint (b_Timestamp b) < sint (1000 :: i64)} = {demo_row ''b'' 3, demo_row ''c'' 4}"
    by (auto simp: demo_db_def demo_row_def)
  have none: "\<not> (3 < h \<and> h < (4 :: u64)) \<and> \<not> (4 < h \<and> h < (3 :: u64))" for h
    by (auto simp: word_less_nat_alt)
  have dense: "window_dense (set demo_db) (ha_Height ?a) (ha_EndTimeStamp ?a)"
    unfolding window_dense_def by (simp only: GetBlockHeadersByHeightArgs.simps in_db) (use none in \<open>auto simp: demo_row_def\<close>)
  obtain resp where r: "GetBlockHeadersByHeight list_gorm demo_db ?a = Ok resp"
    using header_queries_ok [OF list_orm.orm_up_axioms demo_db_ok, of ?a] dense by blast
  then have w: "window_ok (set demo_db) 3 1000 resp"
    using header_queries_ok [OF list_orm.orm_up_axioms demo_db_ok, of ?a resp] by simp
  have "demo_row ''a'' 2 \<in> set demo_db" "b_Height (demo_row ''a'' 2) = 3 - 1" "(1 :: u64) < 3"
    by (simp_all add: demo_db_def demo_row_def)
  then have "hr_Prev resp = to_BlockInfo (demo_row ''a'' 2)"
    using w unfolding window_ok_def by blast
  with w r show ?thesis
    unfolding window_ok_def in_db by auto
qed

text \<open>
  C39: a block ID that is not archived is not reported as an error: the query by ID answers for the
  window from height 0 on, like a query for the first block.
\<close>

theorem unknown_block_id_answered:
  assumes "orm_up G rows db_ok" "db_ok d" "ha_ID args \<noteq> []" "\<forall>b\<in>rows d. b_BlockID b \<noteq> ha_ID args"
  shows "GetBlockHeadersByID G d args =
      headers_window G d (\<lambda>b l. Errorf ''queried blocks aren't consecutive'' []) 0 (ha_ID_EndTimeStamp args)
    \<and> (window_dense (rows d) 0 (ha_ID_EndTimeStamp args) \<longrightarrow>
        (\<exists>resp. GetBlockHeadersByID G d args = Ok resp \<and> window_ok (rows d) 0 (ha_ID_EndTimeStamp args) resp))"
proof -
  have O: "orm G rows db_ok" using assms(1) by (simp add: orm_up_def)
  obtain x where x: "db_FindOne G d (BlockIDIs (ha_ID args)) = Inr x"
    using orm_up.find_one_answers [OF assms(1)] by blast
  then have "x = zero_DBBlock" using orm.find_one [OF O x] assms(4) by auto
  then have eq: "GetBlockHeadersByID G d args =
      headers_window G d (\<lambda>b l. Errorf ''queried blocks aren't consecutive'' []) 0 (ha_ID_EndTimeStamp args)"
    using assms(3) x by (simp add: GetBlockHeadersByID_def zero_DBBlock_def)
  then show ?thesis
    using orm_up.headers_window_answers [OF assms(1,2)] orm_up.headers_window_ok [OF assms(1,2)] by metis
qed

theorem unknown_block_id_answered_witness:
  "\<exists>resp. GetBlockHeadersByID list_gorm demo_db \<lparr>ha_ID = ''unknown'', ha_ID_EndTimeStamp = 3\<rparr> = Ok resp
     \<and> set (hr_Blocks resp) = {to_BlockInfo (demo_row ''a'' 2)}"
proof -
  let ?a = "\<lparr>ha_ID = ''unknown'', ha_ID_EndTimeStamp = 3\<rparr>"
  have in_db: "{b\<in>set demo_db. 0 \<le> b_Height b \<and> sint (b_Timestamp b) < sint (3 :: i64)} = {demo_row ''a'' 2}"
    by (auto simp: demo_db_def demo_row_def)
  have dense: "window_dense (set demo_db) 0 (ha_ID_EndTimeStamp ?a)"
    unfolding window_dense_def by (simp only: GetBlockHeadersIDArgs.simps in_db) auto
  have new: "\<forall>b\<in>set demo_db. b_BlockID b \<noteq> ha_ID ?a"
    by (simp add: demo_db_def demo_row_def)
  obtain resp where "GetBlockHeadersByID list_gorm demo_db ?a = Ok resp" "window_ok (set demo_db) 0 3 resp"
    using unknown_block_id_answered [OF list_orm.orm_up_axioms demo_db_ok _ new] dense
    by (metis GetBlockHeadersIDArgs.select_convs(1,2) list.distinct(1))
  then show ?thesis
    unfolding window_ok_def in_db by auto
qed

section \<open>Commitment queries\<close>

text \<open>An answer for a row: the commitment of its header can be read back from the root.\<close>

definition warp_of :: "'q chain \<Rightarrow> 'h keccak \<Rightarrow> 'q \<Rightarrow> DBBlock \<Rightarrow> SequencerWarpBlock \<Rightarrow> bool" where
  "warp_of C K parser b w \<longleftrightarrow> (\<exists>blk i c. UnmarshalBlock C (b_Bytes b) parser = Inr blk \<and> StatefulBlock_ID C blk = Inr i
     \<and> Header_Commit K \<lparr>h_Height = b_Height b, h_Timestamp = b_Timestamp b, h_L1Head = b_L1Head b,
         h_TransactionsRoot = \<lparr>nr_Root = i\<rparr>\<rparr> = Ok c
     \<and> CommitmentFromUint256 (wb_BlockRoot w) = Inr c \<and> wb_ParentRoot w = U256_SetBytes (sfb_Prnt blk)
     \<and> wb_BlockID w = b_BlockID b \<and> wb_Height w = sint (b_Height b)
     \<and> wb_Timestamp w = b_Timestamp b \<and> wb_L1Head w = b_L1Head b)"

lemma commitment_blocks_warp:
  assumes "hashing K written digest"
  shows "commitment_blocks C K parser rest bs = Ok res \<Longrightarrow> \<exists>ws. res = bs @ ws \<and> list_all2 (warp_of C K parser) rest ws"
proof (induction rest arbitrary: bs)
  case (Cons b rest)
  obtain blk i c where r: "UnmarshalBlock C (b_Bytes b) parser = Inr blk" "StatefulBlock_ID C blk = Inr i"
    "Header_Commit K \<lparr>h_Height = b_Height b, h_Timestamp = b_Timestamp b, h_L1Head = b_L1Head b,
       h_TransactionsRoot = \<lparr>nr_Root = i\<rparr>\<rparr> = Ok c"
    using Cons.prems by (auto simp: res_bind_Ok_iff Let_def)
  let ?w = "\<lparr>wb_BlockID = b_BlockID b, wb_Timestamp = b_Timestamp b, wb_L1Head = b_L1Head b, wb_Height = sint (b_Height b),
    wb_BlockRoot = Commitment_Uint256 c, wb_ParentRoot = U256_SetBytes (sfb_Prnt blk)\<rparr>"
  have "length c = 32"
    using r(3) by (auto simp: Header_Commit_def res_bind_Ok_iff hashing.Finalize_eq [OF assms] hashing.digest_length [OF assms])
  then have w: "warp_of C K parser b ?w"
    using r by (simp add: warp_of_def CommitmentFromUint256_back)
  have "commitment_blocks C K parser rest (bs @ [?w]) = Ok res"
    using Cons.prems r by (simp add: Let_def)
  from Cons.IH [OF this] w show ?case by auto
qed simp

lemma commitment_blocks_answers:
  assumes "hashing K written digest"
    and "\<forall>b\<in>set rest. \<exists>blk i. UnmarshalBlock C (b_Bytes b) parser = Inr blk \<and> StatefulBlock_ID C blk = Inr i"
  shows "\<exists>ws. commitment_blocks C K parser rest bs = Ok ws"
  using assms(2)
proof (induction rest arbitrary: bs)
  case (Cons b rest)
  obtain blk i where b: "UnmarshalBlock C (b_Bytes b) parser = Inr blk" "StatefulBlock_ID C blk = Inr i"
    using Cons.prems by auto
  obtain c where c: "Header_Commit K \<lparr>h_Height = b_Height b, h_Timestamp = b_Timestamp b, h_L1Head = b_L1Head b,
       h_TransactionsRoot = \<lparr>nr_Root = i\<rparr>\<rparr> = Ok c"
    using Header_Commit_total [OF assms(1)] by blast
  show ?case using Cons by (simp add: b c Let_def)
qed simp

text \<open>The rows between two heights, and what the limit of the request leaves of them.\<close>

abbreviation rows_between :: "DBBlock set \<Rightarrow> GetBlockCommitmentArgs \<Rightarrow> DBBlock set" where
  "rows_between R args \<equiv> {b\<in>R. ca_First args \<le> b_Height b \<and> b_Height b \<le> ca_CurrentHeight args}"

definition limited :: "i64 \<Rightarrow> 'a list \<Rightarrow> 'a list" where
  "limited n xs = (if sint n < 0 then xs else take (nat (sint n)) xs)"

lemma set_limited: "set (limited n xs) \<subseteq> set xs"
  by (auto simp: limited_def dest: in_set_takeD)

context orm
begin

lemma find_between:
  assumes "db_ok d" "db_Find G d (HeightBetween (ca_First args) (ca_CurrentHeight args)) ByHeight (Some (ca_MaxBlocks args)) = Inr bs"
  shows "\<exists>all. sorted_wrt (<) (map b_Height all) \<and> set all = rows_between (rows d) args \<and> bs = limited (ca_MaxBlocks args) all"
proof -
  obtain all where all: "sorted (map (sort_column ByHeight) all)" "distinct all" "set all = rows_between (rows d) args"
    "bs = limited (ca_MaxBlocks args) all"
    using find_limited [OF assms(2)] by (auto simp: limited_def)
  have "inj_on (sort_column ByHeight) (set all)"
    using unique_index [OF assms(1)] all(3) by (intro inj_onI) (auto simp: word_uint_eq_iff)
  then have "sorted_wrt (<) (map (sort_column ByHeight) all)"
    using all(1,2) by (simp add: strict_sorted_iff distinct_map)
  then have "sorted_wrt (<) (map b_Height all)"
    by (simp add: sorted_wrt_map word_less_def)
  with all show ?thesis by blast
qed

end

text \<open>
  C18: a commitment query from height 0 is refused. A query that answers returns, in the order of their
  heights, one entry for each archived block between the two heights of the request, or for the first
  \<open>MaxBlocks\<close> of them when that is not negative: its ID, time stamp, L1 head and height (read as a signed
  number), the root from which the commitment of its header is read back, and the root of its parent. And
  it does answer when all the archived blocks in question can be decoded.
\<close>

theorem commitment_query_ok:
  assumes "hashing K written digest" "orm_up G rows db_ok" "db_ok d"
  shows "(ca_First args = 0 \<longrightarrow> (\<exists>e. GetCommitmentBlocks C G K d args parser = Error e))
    \<and> (GetCommitmentBlocks C G K d args parser = Ok resp \<longrightarrow> (\<exists>all. sorted_wrt (<) (map b_Height all)
        \<and> set all = rows_between (rows d) args
        \<and> list_all2 (warp_of C K parser) (limited (ca_MaxBlocks args) all) (wr_Blocks resp)))
    \<and> (ca_First args \<noteq> 0 \<and> (\<forall>b\<in>rows_between (rows d) args.
          \<exists>blk i. UnmarshalBlock C (b_Bytes b) parser = Inr blk \<and> StatefulBlock_ID C blk = Inr i)
        \<longrightarrow> (\<exists>r. GetCommitmentBlocks C G K d args parser = Ok r))"
proof -
  have O: "orm G rows db_ok" using assms(2) by (simp add: orm_up_def)
  have first: "ca_First args < 1 \<longleftrightarrow> ca_First args = 0" by (simp add: word_less_1)
  obtain bs where bs: "db_Find G d (HeightBetween (ca_First args) (ca_CurrentHeight args)) ByHeight (Some (ca_MaxBlocks args)) = Inr bs"
    using orm_up.find_answers [OF assms(2)] by blast
  obtain all where all: "sorted_wrt (<) (map b_Height all)" "set all = rows_between (rows d) args" "bs = limited (ca_MaxBlocks args) all"
    using orm.find_between [OF O assms(3) bs] by blast
  have run: "GetCommitmentBlocks C G K d args parser = (if ca_First args = 0 then Error (Errorf ''the first block height is smaller than 1'' [])
      else res_bind (commitment_blocks C K parser bs []) (\<lambda>ws. Ok \<lparr>wr_Blocks = ws\<rparr>))"
    by (simp add: GetCommitmentBlocks_def bs first)
  have "set bs \<subseteq> rows_between (rows d) args" using set_limited [of "ca_MaxBlocks args" all] all(2,3) by simp
  then have "\<forall>b\<in>rows_between (rows d) args. \<exists>blk i. UnmarshalBlock C (b_Bytes b) parser = Inr blk \<and> StatefulBlock_ID C blk = Inr i
      \<Longrightarrow> \<exists>ws. commitment_blocks C K parser bs [] = Ok ws"
    by (intro commitment_blocks_answers [OF assms(1)]) blast
  then show ?thesis
    using commitment_blocks_warp [OF assms(1), of C parser bs "[]"] all unfolding run by (auto simp: res_bind_Ok_iff)
qed

text \<open>Of the two blocks between the heights the limit leaves the lower one.\<close>

theorem commitment_query_ok_witness:
  "\<exists>resp w. GetCommitmentBlocks demo_chain list_gorm prefix_keccak demo_db \<lparr>ca_First = 2, ca_CurrentHeight = 3, ca_MaxBlocks = 1\<rparr> () = Ok resp
     \<and> wr_Blocks resp = [w] \<and> warp_of demo_chain prefix_keccak () (demo_row ''a'' 2) w"
proof -
  let ?a = "\<lparr>ca_First = 2, ca_CurrentHeight = 3, ca_MaxBlocks = 1\<rparr>"
  have R: "rows_between (set demo_db) ?a = {demo_row ''a'' 2, demo_row ''b'' 3}"
    by (auto simp: demo_db_def demo_row_def)
  note ok = commitment_query_ok [OF prefix_hashing.hashing_axioms list_orm.orm_up_axioms demo_db_ok, of ?a demo_chain "()", unfolded R]
  have "\<forall>b\<in>{demo_row ''a'' 2, demo_row ''b'' 3}. \<exists>blk i. UnmarshalBlock demo_chain (b_Bytes b) () = Inr blk \<and> StatefulBlock_ID demo_chain blk = Inr i"
    by (simp add: demo_chain_def)
  then obtain resp where resp: "GetCommitmentBlocks demo_chain list_gorm prefix_keccak demo_db ?a () = Ok resp"
    using ok by auto
  then obtain all where all: "sorted_wrt (<) (map b_Height all)" "set all = {demo_row ''a'' 2, demo_row ''b'' 3}"
    "list_all2 (warp_of demo_chain prefix_keccak ()) (limited 1 all) (wr_Blocks resp)"
    using ok by auto
  have "sorted_wrt (<) (map b_Height [demo_row ''a'' 2, demo_row ''b'' 3])" by (simp add: demo_row_def)
  with all(1,2) have "map b_Height all = map b_Height [demo_row ''a'' 2, demo_row ''b'' 3]"
    by (intro strict_sorted_equal) auto
  moreover have "hd all \<in> {demo_row ''a'' 2, demo_row ''b'' 3}" using all(2) by (cases all) auto
  ultimately have "take 1 all = [demo_row ''a'' 2]" by (cases all) (auto simp: demo_row_def)
  then show ?thesis using resp all(3) by (auto simp: limited_def list_all2_Cons1)
qed

end
