(* ===== verification/Seq_Rollup_Registry.thy ===== *)
theory Seq_Rollup_Registry
  imports Seq_Instance
begin

text \<open>
  \<open>src/rollup_registry/registry.go\<close>: the registry of rollups the controller keeps in memory. Shown:
  after any history of accepted blocks, a query for the current or a later epoch answers with the
  latest info of every rollup that is valid then; dropping exited rollups is observable for earlier epochs
  only. The
  read-write lock makes the two operations atomic: they are functions on the registry here.
\<close>

section \<open>registry.go\<close>

record RollupRegistry =
  rg_rollups :: "ID \<Rightarrow> RollupInfo option"

definition NewRollupRegistr :: RollupRegistry where
  "NewRollupRegistr = \<lparr>rg_rollups = Map.empty\<rparr>"

text \<open>Go iterates over a map in any order: the order in which the keys come is an argument.\<close>

fun valid_rollups :: "('p, 'x) hactions_scheme \<Rightarrow> RollupRegistry \<Rightarrow> u64 \<Rightarrow> ID list \<Rightarrow> RollupInfo list \<Rightarrow> RollupInfo list" where
  "valid_rollups E r epoch [] ret = ret"
| "valid_rollups E r epoch (k # ks) ret =
     (case rg_rollups r k of
        None \<Rightarrow> valid_rollups E r epoch ks ret
      | Some rollup \<Rightarrow>
          if \<not> ValidAtEpoch E rollup epoch then valid_rollups E r epoch ks ret
          else valid_rollups E r epoch ks (ret @ [rollup]))"

definition RollupsValidAtEpoch ::
    "('p, 'x) hactions_scheme \<Rightarrow> ID list \<Rightarrow> RollupRegistry \<Rightarrow> u64 \<Rightarrow> RollupInfo list" where
  "RollupsValidAtEpoch E order r epoch = valid_rollups E r epoch order []"

text \<open>\<open>maps.DeleteFunc\<close> of the standard library.\<close>

definition maps_DeleteFunc :: "('k \<Rightarrow> 'v option) \<Rightarrow> ('k \<Rightarrow> 'v \<Rightarrow> bool) \<Rightarrow> 'k \<Rightarrow> 'v option" where
  "maps_DeleteFunc m del k = (case m k of None \<Rightarrow> None | Some v \<Rightarrow> if del k v then None else Some v)"

fun insert_rollups :: "('p, 'x) hactions_scheme \<Rightarrow> RollupInfo list \<Rightarrow> (ID \<Rightarrow> RollupInfo option) \<Rightarrow> ID \<Rightarrow> RollupInfo option" where
  "insert_rollups E [] m = m"
| "insert_rollups E (rollup # rest) m = insert_rollups E rest (m(RollupInfo_ID E rollup \<mapsto> rollup))"

definition RollupRegistry_Update ::
    "('p, 'x) hactions_scheme \<Rightarrow> RollupRegistry \<Rightarrow> u64 \<Rightarrow> RollupInfo list \<Rightarrow> RollupRegistry" where
  "RollupRegistry_Update E r currentEpoch rs =
     (let m = insert_rollups E rs (rg_rollups r) in
      r\<lparr>rg_rollups := maps_DeleteFunc m (\<lambda>_ rollup. Exited E rollup currentEpoch)\<rparr>)"

section \<open>What the sources rely on\<close>

text \<open>A rollup that has exited stays so, and is not valid then.\<close>

locale rollup_epochs =
  fixes E :: "('p, 'x) hactions_scheme"
  assumes exited_stays: "Exited E i e \<Longrightarrow> e \<le> e' \<Longrightarrow> Exited E i e'"
    and exited_invalid: "Exited E i e \<Longrightarrow> \<not> ValidAtEpoch E i e"

interpretation ref_epochs: rollup_epochs ref
  by unfold_locales auto

section \<open>Lemmas\<close>

text \<open>The latest info of a rollup in a list of infos.\<close>

definition latest :: "('p, 'x) hactions_scheme \<Rightarrow> RollupInfo list \<Rightarrow> ID \<Rightarrow> RollupInfo option" where
  "latest E infos k = find (\<lambda>i. RollupInfo_ID E i = k) (rev infos)"

lemma latest_append:
  "latest E (xs @ ys) k = (case latest E ys k of None \<Rightarrow> latest E xs k | Some i \<Rightarrow> Some i)"
  by (simp add: latest_def find_append split: option.splits)

lemma latest_ID: "latest E infos k = Some i \<Longrightarrow> RollupInfo_ID E i = k"
  by (auto simp: latest_def find_Some_iff)

lemma insert_rollups_eq: "insert_rollups E rs m k = (case latest E rs k of None \<Rightarrow> m k | Some i \<Rightarrow> Some i)"
  by (induction rs arbitrary: m) (auto simp: latest_def find_append split: option.splits)

lemma Update_rollups:
  "rg_rollups (RollupRegistry_Update E r e rs) k =
     (case (case latest E rs k of None \<Rightarrow> rg_rollups r k | Some i \<Rightarrow> Some i) of
        None \<Rightarrow> None | Some i \<Rightarrow> if Exited E i e then None else Some i)"
  by (simp add: RollupRegistry_Update_def maps_DeleteFunc_def insert_rollups_eq)

lemma valid_rollups_eq:
  "valid_rollups E r epoch ks ret = ret @ filter (\<lambda>i. ValidAtEpoch E i epoch) (List.map_filter (rg_rollups r) ks)"
  by (induction ks arbitrary: ret) (auto simp: List.map_filter_simps split: option.splits)

lemma RollupsValidAtEpoch_eq:
  "RollupsValidAtEpoch E order r epoch = filter (\<lambda>i. ValidAtEpoch E i epoch) (List.map_filter (rg_rollups r) order)"
  by (simp add: RollupsValidAtEpoch_def valid_rollups_eq)

text \<open>The registry after a history of blocks, each with its epoch and the infos registered in it.\<close>

definition registry_after ::
    "('p, 'x) hactions_scheme \<Rightarrow> RollupRegistry \<Rightarrow> (u64 \<times> RollupInfo list) list \<Rightarrow> RollupRegistry" where
  "registry_after E r hist = foldl (\<lambda>r (e, rs). RollupRegistry_Update E r e rs) r hist"

abbreviation infos_of :: "(u64 \<times> RollupInfo list) list \<Rightarrow> RollupInfo list" where
  "infos_of hist \<equiv> concat (map snd hist)"

context rollup_epochs
begin

lemma registry_after_sound:
  "rg_rollups (registry_after E NewRollupRegistr hist) k = Some i \<Longrightarrow> latest E (infos_of hist) k = Some i"
proof (induction hist arbitrary: i rule: rev_induct)
  case (snoc x hist)
  then show ?case
    by (cases x) (auto simp: registry_after_def Update_rollups latest_append split: option.splits if_splits)
qed (simp add: registry_after_def NewRollupRegistr_def)

lemma registry_after_complete:
  assumes "sorted (map fst hist)" "latest E (infos_of hist) k = Some i" "\<forall>(e, _)\<in>set hist. \<not> Exited E i e"
  shows "rg_rollups (registry_after E NewRollupRegistr hist) k = Some i"
  using assms
proof (induction hist arbitrary: i rule: rev_induct)
  case (snoc x hist)
  then show ?case
    by (cases x) (auto simp: registry_after_def Update_rollups latest_append sorted_append split: option.splits)
qed (simp add: latest_def)

lemma registry_after_live:
  assumes "sorted (map fst hist)" "rg_rollups (registry_after E NewRollupRegistr hist) k = Some i" "(e, rs) \<in> set hist"
  shows "\<not> Exited E i e"
proof (cases hist rule: rev_cases)
  case (snoc ys x)
  have "\<not> Exited E i (fst x)"
    using assms(2) by (cases x) (auto simp: snoc registry_after_def Update_rollups split: option.splits if_splits)
  moreover have "e \<le> fst x" using assms(1,3) by (auto simp: snoc sorted_append)
  ultimately show ?thesis using exited_stays by blast
qed (use assms(3) in simp)

text \<open>The registry holds the latest infos of the rollups that had not exited by the last block.\<close>

lemma registry_after_valid:
  assumes "sorted (map fst hist)" "set order = dom (rg_rollups (registry_after E NewRollupRegistr hist))"
  shows "set (RollupsValidAtEpoch E order (registry_after E NewRollupRegistr hist) epoch)
      = {i. (\<exists>k. latest E (infos_of hist) k = Some i) \<and> ValidAtEpoch E i epoch \<and> (\<forall>(e, _)\<in>set hist. \<not> Exited E i e)}"
proof -
  let ?r = "registry_after E NewRollupRegistr hist"
  have mem: "i \<in> set (RollupsValidAtEpoch E order ?r epoch) \<longleftrightarrow> (\<exists>k. rg_rollups ?r k = Some i) \<and> ValidAtEpoch E i epoch" for i
    using assms(2) by (force simp: RollupsValidAtEpoch_eq List.map_filter_def)
  have "rg_rollups ?r k = Some i \<longleftrightarrow> latest E (infos_of hist) k = Some i \<and> (\<forall>(e, _)\<in>set hist. \<not> Exited E i e)" for k i
    using registry_after_sound registry_after_complete [OF assms(1)] registry_after_live [OF assms(1)] by blast
  with mem show ?thesis by auto
qed

text \<open>Pruning is not observable for the current and later epochs.\<close>

lemma valid_not_exited:
  assumes "\<forall>(e, _)\<in>set hist. e \<le> epoch" "ValidAtEpoch E i epoch"
  shows "\<forall>(e, _)\<in>set hist. \<not> Exited E i e"
  using assms exited_stays [of i _ epoch] exited_invalid by fastforce

lemma registry_after_answers:
  assumes "sorted (map fst hist)" "\<forall>(e, _)\<in>set hist. e \<le> epoch"
    and "set order = dom (rg_rollups (registry_after E NewRollupRegistr hist))"
  shows "set (RollupsValidAtEpoch E order (registry_after E NewRollupRegistr hist) epoch)
      = {i. (\<exists>k. latest E (infos_of hist) k = Some i) \<and> ValidAtEpoch E i epoch}"
  using registry_after_valid [OF assms(1,3)] valid_not_exited [OF assms(2)] by blast

end

section \<open>Properties\<close>

text \<open>
  After any sequence of accepted blocks, and whatever the iteration order of the Go map, a query
  for an epoch not before the last block's returns exactly the rollups that are valid at that epoch
  according to the latest info registered for them, each once; removing exited rollups on every
  block loses none of them.
\<close>

lemma registry_answers_latest:
  assumes "rollup_epochs E" "sorted (map fst hist)" "\<forall>(e, _)\<in>set hist. e \<le> epoch"
    and "r = registry_after E NewRollupRegistr hist" "distinct order" "set order = dom (rg_rollups r)"
  shows "set (RollupsValidAtEpoch E order r epoch)
      = {i. (\<exists>k. latest E (infos_of hist) k = Some i) \<and> ValidAtEpoch E i epoch}
    \<and> distinct (map (RollupInfo_ID E) (RollupsValidAtEpoch E order r epoch))"
proof
  let ?res = "RollupsValidAtEpoch E order r epoch"
  have key: "rg_rollups r k = Some i \<Longrightarrow> latest E (infos_of hist) k = Some i" for k i
    using rollup_epochs.registry_after_sound [OF assms(1)] assms(4) by simp
  show "set ?res = {i. (\<exists>k. latest E (infos_of hist) k = Some i) \<and> ValidAtEpoch E i epoch}"
    unfolding assms(4) by (rule rollup_epochs.registry_after_answers [OF assms(1-3)]) (use assms(4,6) in simp)
  have "distinct (map (RollupInfo_ID E) (List.map_filter (rg_rollups r) ks))
      \<and> RollupInfo_ID E ` set (List.map_filter (rg_rollups r) ks) \<subseteq> set ks" if "distinct ks" for ks
    using that
    by (induction ks) (auto simp: List.map_filter_simps split: option.splits dest!: key latest_ID)
  then show "distinct (map (RollupInfo_ID E) ?res)"
    using assms(5) by (simp add: RollupsValidAtEpoch_eq distinct_map_filter)
qed

definition demo_rollup :: "u8 \<Rightarrow> u64 \<Rightarrow> u64 \<Rightarrow> RollupInfo" where
  "demo_rollup n start exit = \<lparr>ri_FeeRecipient = [], ri_Namespace = [n], ri_AuthoritySEQAddress = [],
     ri_SequencerPublicKey = [], ri_StartEpoch = start, ri_ExitEpoch = exit\<rparr>"

text \<open>Rollup 1 exits at epoch 5, rollup 2 stays: at epoch 6 only rollup 2 is left.\<close>

lemma registry_answers_latest_example:
  "set (RollupsValidAtEpoch ref [pad 32 [1, 2]]
     (registry_after ref NewRollupRegistr [(1, [demo_rollup 1 3 0, demo_rollup 2 3 0]), (3, [demo_rollup 1 3 5]), (6, [])]) 6)
   = {demo_rollup 2 3 0}"
proof -
  let ?hist = "[(1, [demo_rollup 1 3 0, demo_rollup 2 3 0]), (3, [demo_rollup 1 3 5]), (6, [])]"
  let ?r = "registry_after ref NewRollupRegistr ?hist"
  have p: "pad 32 [1, 1] \<noteq> pad 32 [1, 2]" by (simp add: pad_def)
  have dom: "set [pad 32 [1, 2]] = dom (rg_rollups ?r)"
    using p by (auto simp: registry_after_def NewRollupRegistr_def RollupRegistry_Update_def maps_DeleteFunc_def
        demo_rollup_def split: option.splits if_splits)
  have "latest ref (infos_of ?hist) k = Some i \<and> ValidAtEpoch ref i 6 \<longleftrightarrow> k = pad 32 [1, 2] \<and> i = demo_rollup 2 3 0" for k i
    using p by (auto simp: latest_def demo_rollup_def)
  then have "{i. (\<exists>k. latest ref (infos_of ?hist) k = Some i) \<and> ValidAtEpoch ref i 6} = {demo_rollup 2 3 0}"
    by blast
  then show ?thesis
    using registry_answers_latest [OF ref_epochs.rollup_epochs_axioms, of ?hist 6 ?r "[pad 32 [1, 2]]"] dom
    by simp
qed

end
