(* ===== verification/Seq_Controller.thy ===== *)
theory Seq_Controller
  imports Seq_Archiver Seq_Rollup_Registry
begin

text \<open>
  \<open>src/controller/controller.go\<close> and \<open>resolutions.go\<close>: what the controller does with an accepted block
  (index its transactions, update the in-memory registry of rollups, count its actions, archive the
  block in the background) and the queries it forwards. Shown: an accepted block's transactions are
  found with their results, on every outcome the others as before, and the in-memory registry answers what
  the state says, up to exited rollups for epochs before the last block.
\<close>

section \<open>Code outside the repository\<close>

text \<open>The VM of the SDK, as far as the controller calls it.\<close>

record 'tx vm =
  vm_ReadState :: ReadState
  vm_UnitPrices :: "err + u64 list"
  vm_NameSpacesPrice :: "string list \<Rightarrow> err + u64 list"
  vm_Submit :: "bool \<Rightarrow> 'tx list \<Rightarrow> err option list"

text \<open>The database of the transaction index: \<open>'k\<close> the database, \<open>'b\<close> a batch of writes.\<close>

record ('k, 'b) kvdb =
  kv_Get :: "'k \<Rightarrow> bytes \<Rightarrow> err + bytes"
  kv_NewBatch :: "'k \<Rightarrow> 'b"
  batch_Put :: "bytes \<Rightarrow> bytes \<Rightarrow> ('b, unit) go"
  batch_Write :: "'b \<Rightarrow> 'k \<Rightarrow> err option \<times> 'k"

section \<open>controller.go\<close>

record metrics =
  mt_transfer :: nat
  mt_sequencerMsg :: nat
  mt_auction :: nat
  mt_rollupRegister :: nat
  mt_epochExit :: nat

text \<open>
  The controller; \<open>c_spawned\<close> are the blocks whose archiving was started in the background and has
  not run yet.
\<close>

record ('f, 'k, 'd) Controller =
  c_networkID :: u32
  c_chainID :: ID
  c_genesis :: Genesis
  c_config :: "'f Config"
  c_archiver :: 'd
  c_rollupRegistry :: RollupRegistry
  c_metrics :: metrics
  c_metaDB :: 'k
  c_spawned :: "StatelessBlock list"

definition Controller_Rules :: "('f, 'k, 'd) Controller \<Rightarrow> i64 \<Rightarrow> Rules" where
  "Controller_Rules c t =
     Genesis_Rules (c_genesis c) t (c_networkID c) (c_chainID c) (Config_GetParsedWhiteListedAddress (c_config c))"

definition Controller_UnitPrices :: "'tx vm \<Rightarrow> err + u64 list" where
  "Controller_UnitPrices V = vm_UnitPrices V"

definition Controller_NameSpacesPrice :: "'tx vm \<Rightarrow> string list \<Rightarrow> err + u64 list" where
  "Controller_NameSpacesPrice V namespaces = vm_NameSpacesPrice V namespaces"

definition Controller_Submit :: "'tx vm \<Rightarrow> bool \<Rightarrow> 'tx list \<Rightarrow> err option list" where
  "Controller_Submit V verifySig txs = vm_Submit V verifySig txs"

text \<open>The switch over the actions of a successful transaction.\<close>

fun accept_actions :: "Action list \<Rightarrow> metrics \<times> RollupInfo list \<Rightarrow> metrics \<times> RollupInfo list" where
  "accept_actions [] acc = acc"
| "accept_actions (act # acts) (ms, rs) =
     accept_actions acts (case act of
       ATransfer t \<Rightarrow> (ms\<lparr>mt_transfer := mt_transfer ms + 1\<rparr>, rs)
     | ASequencerMsg s \<Rightarrow> (ms\<lparr>mt_sequencerMsg := mt_sequencerMsg ms + 1\<rparr>, rs)
     | AAuction a \<Rightarrow> (ms\<lparr>mt_auction := mt_auction ms + 1\<rparr>, rs)
     | ARollupRegistration reg \<Rightarrow> (ms\<lparr>mt_rollupRegister := mt_rollupRegister ms + 1\<rparr>, rs @ [rr_Info reg])
     | AEpochExit e \<Rightarrow> (ms\<lparr>mt_epochExit := mt_epochExit ms + 1\<rparr>, rs))"

text \<open>The loop over the transactions and their results; its state is the batch and the metrics.\<close>

fun accept_txs ::
    "'x sdk_scheme \<Rightarrow> ('k, 'b) kvdb \<Rightarrow> bool \<Rightarrow> i64 \<Rightarrow> Transaction list \<Rightarrow> Result list \<Rightarrow> RollupInfo list
      \<Rightarrow> 'b \<times> metrics \<Rightarrow> RollupInfo list res \<times> ('b \<times> metrics)" where
  "accept_txs E D store ts [] results rs s = (Ok rs, s)"
| "accept_txs E D store ts (tx # txs) [] rs s = (Panic IndexOutOfRange, s)"
| "accept_txs E D store ts (tx # txs) (result # results) rs (batch, ms) =
     (case (if store
            then StoreTransaction E (batch_Put D) (tx_ID tx) ts (res_Success result) (res_Units result) (res_Fee result) batch
            else (Ok (), batch)) of
        (Error e, batch) \<Rightarrow> (Error e, (batch, ms))
      | (Panic p, batch) \<Rightarrow> (Panic p, (batch, ms))
      | (Ok _, batch) \<Rightarrow>
          let (ms, rs) = (if res_Success result then accept_actions (tx_Actions tx) (ms, rs) else (ms, rs)) in
          accept_txs E D store ts txs results rs (batch, ms))"

definition Accepted ::
    "('p, 'x) hactions_scheme \<Rightarrow> ('k, 'b) kvdb \<Rightarrow> StatelessBlock \<Rightarrow> (('f, 'k, 'd) Controller, unit) go" where
  "Accepted E D blk c =
     (let batch = kv_NewBatch D (c_metaDB c);
          c = c\<lparr>c_spawned := c_spawned c @ [blk]\<rparr> in
      case accept_txs E D (Config_GetStoreTransactions (c_config c)) (slb_Tmstmp blk) (slb_Txs blk) (slb_Results blk) []
          (batch, c_metrics c) of
        (Error e, (batch, ms)) \<Rightarrow> (Error e, c\<lparr>c_metrics := ms\<rparr>)
      | (Panic p, (batch, ms)) \<Rightarrow> (Panic p, c\<lparr>c_metrics := ms\<rparr>)
      | (Ok rs, (batch, ms)) \<Rightarrow>
          let c = c\<lparr>c_metrics := ms\<rparr>;
              epochLength = GetEpochLength (Controller_Rules c (slb_Tmstmp blk)) in
          if epochLength = 0 then (Panic DivideByZero, c)
          else let currentEpoch = slb_Hght blk div epochLength;
                   c = c\<lparr>c_rollupRegistry := RollupRegistry_Update E (c_rollupRegistry c) currentEpoch rs\<rparr> in
            case batch_Write D batch (c_metaDB c) of
              (Some e, db) \<Rightarrow> (Error e, c\<lparr>c_metaDB := db\<rparr>)
            | (None, db) \<Rightarrow> (Ok (), c\<lparr>c_metaDB := db\<rparr>))"

text \<open>The background call: its error is only logged.\<close>

definition archive_spawned ::
    "'q chain \<Rightarrow> ('d, 't) gorm \<Rightarrow> StatelessBlock \<Rightarrow> ('f, 'k, 'd) Controller \<Rightarrow> ('f, 'k, 'd) Controller" where
  "archive_spawned C G blk c =
     c\<lparr>c_archiver := snd (InsertBlock C G blk (c_archiver c)), c_spawned := remove1 blk (c_spawned c)\<rparr>"

definition Rejected :: "StatelessBlock \<Rightarrow> (('f, 'k, 'd) Controller, unit) go" where
  "Rejected blk = go_return ()"

definition Shutdown :: "(('f, 'k, 'd) Controller, unit) go" where
  "Shutdown = go_return ()"

section \<open>resolutions.go\<close>

definition Controller_Genesis :: "('f, 'k, 'd) Controller \<Rightarrow> Genesis" where
  "Controller_Genesis c = c_genesis c"

definition Controller_GetTransaction ::
    "'x sdk_scheme \<Rightarrow> ('k, 'b) kvdb \<Rightarrow> ('f, 'k, 'd) Controller \<Rightarrow> ID \<Rightarrow> (i64 \<times> bool \<times> u64 list \<times> u64) option res" where
  "Controller_GetTransaction E D c txID = GetTransaction E (kv_Get D (c_metaDB c)) txID"

definition Controller_GetBalanceFromState :: "'x sdk_scheme \<Rightarrow> 'tx vm \<Rightarrow> Address \<Rightarrow> u64 res" where
  "Controller_GetBalanceFromState E V addr = GetBalanceFromState E (vm_ReadState V) addr"

definition Controller_GetRollupRegistryFromState :: "('p, 'x) hactions_scheme \<Rightarrow> 'tx vm \<Rightarrow> bytes list res" where
  "Controller_GetRollupRegistryFromState E V = GetRollupRegistryFromState E (vm_ReadState V)"

definition Controller_GetEpochExitsFromState ::
    "('p, 'x) hactions_scheme \<Rightarrow> 'tx vm \<Rightarrow> u64 \<Rightarrow> EpochExitInfo option res" where
  "Controller_GetEpochExitsFromState E V epoch =
     res_bind (GetEpochExitsFromState E (vm_ReadState V) epoch) (\<lambda>info. Ok info)"

definition Controller_GetRollupInfoFromState ::
    "('p, 'x) hactions_scheme \<Rightarrow> 'tx vm \<Rightarrow> bytes \<Rightarrow> RollupInfo option res" where
  "Controller_GetRollupInfoFromState E V namespace = GetRollupInfoFromState E (vm_ReadState V) namespace"

definition Controller_GetBuilderFromState :: "('p, 'x) hactions_scheme \<Rightarrow> 'tx vm \<Rightarrow> u64 \<Rightarrow> bytes option res" where
  "Controller_GetBuilderFromState E V epoch = GetArcadiaBuilderFromState E (vm_ReadState V) epoch"

text \<open>\<open>window\<close> is what the embedded configuration of the SDK returns.\<close>

definition Controller_GetAcceptedBlockWindow :: "i64 \<Rightarrow> i64" where
  "Controller_GetAcceptedBlockWindow window = window"

definition Controller_Archiver :: "('f, 'k, 'd) Controller \<Rightarrow> 'd" where
  "Controller_Archiver c = c_archiver c"

definition Controller_RollupRegistry :: "('f, 'k, 'd) Controller \<Rightarrow> RollupRegistry" where
  "Controller_RollupRegistry c = c_rollupRegistry c"

definition Controller_NetworkID :: "('f, 'k, 'd) Controller \<Rightarrow> u32" where
  "Controller_NetworkID c = c_networkID c"

definition Controller_ChainID :: "('f, 'k, 'd) Controller \<Rightarrow> ID" where
  "Controller_ChainID c = c_chainID c"

section \<open>What the sources rely on\<close>

text \<open>
  A batch collects its puts (\<open>pending\<close>). Writing it makes them readable, the later ones first, or fails and
  leaves the database as it was: a batch is written atomically. A put may fail but does not panic.
\<close>

locale kv_batches =
  fixes D :: "('k, 'b) kvdb"
    and pending :: "'b \<Rightarrow> (bytes \<times> bytes) list"
  assumes pending_new: "pending (kv_NewBatch D d) = []"
    and put_pending: "batch_Put D k v b = (Ok u, b') \<Longrightarrow> pending b' = pending b @ [(k, v)]"
    and put_returns: "\<not> is_panic (fst (batch_Put D k v b))"
    and write_readable: "batch_Write D b d = (None, d') \<Longrightarrow>
        kv_Get D d' k = (case map_of (rev (pending b)) k of Some v \<Rightarrow> Inr v | None \<Rightarrow> kv_Get D d k)"
    and write_failed: "batch_Write D b d = (Some e, d') \<Longrightarrow> kv_Get D d' k = kv_Get D d k"

text \<open>A database that accepts every put and every batch.\<close>

definition kv_accepts :: "('k, 'b) kvdb \<Rightarrow> bool" where
  "kv_accepts D \<longleftrightarrow> (\<forall>k v b. fst (batch_Put D k v b) = Ok ()) \<and> (\<forall>b d. fst (batch_Write D b d) = None)"

text \<open>The ID of a rollup identifies its namespace.\<close>

locale rollup_ids =
  fixes E :: "('p, 'x) hactions_scheme"
  assumes ID_iff: "length (ri_Namespace i) \<le> MaxNamespaceLen E \<Longrightarrow> length (ri_Namespace j) \<le> MaxNamespaceLen E \<Longrightarrow>
      RollupInfo_ID E i = RollupInfo_ID E j \<longleftrightarrow> ri_Namespace i = ri_Namespace j"

definition map_kvdb :: "(kv, (bytes \<times> bytes) list) kvdb" where
  "map_kvdb = \<lparr>kv_Get = (\<lambda>d k. case d k of None \<Rightarrow> Inl ErrNotFound | Some v \<Rightarrow> Inr v), kv_NewBatch = (\<lambda>d. []),
     batch_Put = (\<lambda>k v b. (Ok (), b @ [(k, v)])), batch_Write = (\<lambda>b d. (None, d ++ map_of (rev b)))\<rparr>"

interpretation map_batches: kv_batches map_kvdb "\<lambda>b. b"
  by unfold_locales (auto simp: map_kvdb_def map_add_def split: option.splits)

lemma map_kvdb_accepts: "kv_accepts map_kvdb"
  by (simp add: kv_accepts_def map_kvdb_def)

lemma pad_prefix_inject:
  assumes "length xs \<le> 8" "length ys \<le> 8" "pad 32 (of_nat (length xs) # xs) = pad 32 (of_nat (length ys) # ys)"
  shows "xs = ys"
proof -
  have split: "pad 32 (n # zs) = n # zs @ replicate (31 - length zs) 0" if "length zs \<le> 8" for n :: u8 and zs
    using that by (simp add: pad_def)
  have small: "unat (of_nat (length zs) :: u8) = length zs" if "length zs \<le> 8" for zs :: bytes
    using that by (simp add: unat_of_nat take_bit_eq_mod)
  have eq: "(of_nat (length xs) :: u8) = of_nat (length ys)" "xs @ replicate (31 - length xs) 0 = ys @ replicate (31 - length ys) 0"
    using assms(3) by (simp_all add: split assms(1,2))
  then have "length xs = length ys" using small assms(1,2) by metis
  with eq(2) show ?thesis by simp
qed

interpretation ref_ids: rollup_ids ref
  by unfold_locales (use pad_prefix_inject in auto)

section \<open>The loop over a block\<close>

fun action_infos :: "Action list \<Rightarrow> RollupInfo list" where
  "action_infos [] = []"
| "action_infos (ARollupRegistration r # acts) = rr_Info r # action_infos acts"
| "action_infos (a # acts) = action_infos acts"

text \<open>The infos of the successful registrations of a block.\<close>

definition block_infos :: "StatelessBlock \<Rightarrow> RollupInfo list" where
  "block_infos blk = concat (map (\<lambda>(tx, r). if res_Success r then action_infos (tx_Actions tx) else [])
     (zip (slb_Txs blk) (slb_Results blk)))"

text \<open>What the index holds for a transaction.\<close>

definition tx_record :: "'x sdk_scheme \<Rightarrow> i64 \<Rightarrow> Result \<Rightarrow> bytes" where
  "tx_record E ts r = be64 ts @ [if res_Success r then successByte else failureByte]
     @ Dimensions_Bytes E (res_Units r) @ be64 (res_Fee r)"

lemma accept_actions_infos: "snd (accept_actions acts (ms, rs)) = rs @ action_infos acts"
  by (induction acts arbitrary: ms rs) (auto split: Action.split)

lemma accept_txs_infos:
  "accept_txs E D store ts txs results rs s = (Ok rs', s') \<Longrightarrow>
     rs' = rs @ concat (map (\<lambda>(tx, r). if res_Success r then action_infos (tx_Actions tx) else []) (zip txs results))"
proof (induction E D store ts txs results rs s arbitrary: rs' s' rule: accept_txs.induct)
  case (3 E D store ts tx txs result results rs batch ms)
  then show ?case
    using accept_actions_infos [of "tx_Actions tx" ms rs]
    by (cases "accept_actions (tx_Actions tx) (ms, rs)") (fastforce split: prod.splits res.splits if_splits)
qed auto

lemma Accepted_registry:
  assumes "Accepted E D blk c = (Ok u, c')"
  shows "GetEpochLength (Controller_Rules c (slb_Tmstmp blk)) \<noteq> 0
    \<and> c_rollupRegistry c' = RollupRegistry_Update E (c_rollupRegistry c)
        (slb_Hght blk div GetEpochLength (Controller_Rules c (slb_Tmstmp blk))) (block_infos blk)
    \<and> c_genesis c' = c_genesis c"
  using assms accept_txs_infos [where rs = "[]" and E = E and D = D]
  by (fastforce simp: Accepted_def Let_def Controller_Rules_def Genesis_Rules_def GetEpochLength_def block_infos_def
      split: prod.splits res.splits option.splits if_splits)

text \<open>Transactions whose parts have the sizes the index relies on.\<close>

definition tx_sizes :: "'x sdk_scheme \<Rightarrow> StatelessBlock \<Rightarrow> bool" where
  "tx_sizes E blk \<longleftrightarrow> Uint64Len E = 8 \<and> length (slb_Txs blk) = length (slb_Results blk)
     \<and> (\<forall>tx\<in>set (slb_Txs blk). length (tx_ID tx) = IDLen E)
     \<and> (\<forall>r\<in>set (slb_Results blk). length (Dimensions_Bytes E (res_Units r)) = DimensionsLen E
          \<and> UnpackDimensions E (Dimensions_Bytes E (res_Units r)) = Inr (res_Units r))"

lemma GetTransaction_record:
  assumes "Uint64Len E = 8" "length txid = IDLen E" "length (Dimensions_Bytes E (res_Units r)) = DimensionsLen E"
    and "UnpackDimensions E (Dimensions_Bytes E (res_Units r)) = Inr (res_Units r)" "get (0 # txid) = Inr (tx_record E ts r)"
  shows "GetTransaction E get txid = Ok (Some (ts, res_Success r, res_Units r, res_Fee r))"
  using assms by (simp add: GetTransaction_def TxKey_eq tx_record_def slice_def slice_from_def successByte_def failureByte_def)

text \<open>The records of a block.\<close>

abbreviation tx_puts :: "'x sdk_scheme \<Rightarrow> i64 \<Rightarrow> Transaction list \<Rightarrow> Result list \<Rightarrow> (bytes \<times> bytes) list" where
  "tx_puts E ts txs results \<equiv> map (\<lambda>(tx, r). (0 # tx_ID tx, tx_record E ts r)) (zip txs results)"

context kv_batches
begin

lemma accept_txs_outcome:
  assumes "Uint64Len E = 8" "length txs = length results" "\<forall>tx\<in>set txs. length (tx_ID tx) = IDLen E"
    and "\<forall>r\<in>set results. length (Dimensions_Bytes E (res_Units r)) = DimensionsLen E"
    and "accept_txs E D store ts txs results rs (b, ms) = (res, (b', ms'))"
  shows "\<not> is_panic res" "res = Ok x \<Longrightarrow> pending b' = pending b @ (if store then tx_puts E ts txs results else [])"
    "kv_accepts D \<Longrightarrow> \<exists>x. res = Ok x"
proof -
  have "\<not> is_panic res \<and> (\<forall>x. res = Ok x \<longrightarrow> pending b' = pending b @ (if store then tx_puts E ts txs results else []))
      \<and> (kv_accepts D \<longrightarrow> (\<exists>x. res = Ok x))"
    using assms(2-)
  proof (induction txs results arbitrary: rs b ms rule: list_induct2)
    case (Cons tx txs r results)
    obtain ms1 rs1 where acc: "(if res_Success r then accept_actions (tx_Actions tx) (ms, rs) else (ms, rs)) = (ms1, rs1)"
      by (cases "if res_Success r then accept_actions (tx_Actions tx) (ms, rs) else (ms, rs)")
    have st: "StoreTransaction E (batch_Put D) (tx_ID tx) ts (res_Success r) (res_Units r) (res_Fee r) b
        = batch_Put D (0 # tx_ID tx) (tx_record E ts r) b"
      using assms(1) Cons.prems by (simp add: StoreTransaction_eq tx_record_def)
    obtain p b1 where p: "(if store then batch_Put D (0 # tx_ID tx) (tx_record E ts r) b else (Ok (), b)) = (p, b1)"
      by (cases "if store then batch_Put D (0 # tx_ID tx) (tx_record E ts r) b else (Ok (), b)")
    have put: "\<not> is_panic p" "p = Ok () \<Longrightarrow> pending b1 = pending b @ (if store then [(0 # tx_ID tx, tx_record E ts r)] else [])"
      "kv_accepts D \<Longrightarrow> p = Ok ()"
      using p put_returns [of "0 # tx_ID tx" "tx_record E ts r" b] put_pending [of "0 # tx_ID tx" "tx_record E ts r" b "()" b1]
      by (auto simp: kv_accepts_def split: if_splits dest!: arg_cong [of _ _ fst])
    note run = Cons.prems(3) [unfolded accept_txs.simps st p prod.case]
    show ?case
    proof (cases p)
      case (Ok u)
      then have "accept_txs E D store ts txs results rs1 (b1, ms1) = (res, (b', ms'))" using run acc by simp
      from Cons.IH [OF _ _ this] put Ok Cons.prems show ?thesis by auto
    next
      case (Error e)
      then show ?thesis using run put(3) by auto
    next
      case (Panic q)
      then show ?thesis using put(1) by simp
    qed
  qed auto
  then show "\<not> is_panic res" "res = Ok x \<Longrightarrow> pending b' = pending b @ (if store then tx_puts E ts txs results else [])"
    "kv_accepts D \<Longrightarrow> \<exists>x. res = Ok x" by auto
qed

text \<open>Every outcome of accepting a block: what is readable in the database after it.\<close>

lemma Accepted_outcome:
  assumes "tx_sizes E blk" "Accepted E D blk c = (res, c')"
  shows "c_spawned c' = c_spawned c @ [blk] \<and> c_config c' = c_config c"
    and "is_panic res \<Longrightarrow> GetEpochLength (Controller_Rules c (slb_Tmstmp blk)) = 0"
    and "kv_accepts D \<Longrightarrow> GetEpochLength (Controller_Rules c (slb_Tmstmp blk)) \<noteq> 0 \<Longrightarrow> res = Ok ()"
    and "kv_Get D (c_metaDB c') k = (if res = Ok () \<and> Config_GetStoreTransactions (c_config c)
        then (case map_of (rev (tx_puts E (slb_Tmstmp blk) (slb_Txs blk) (slb_Results blk))) k of
           Some v \<Rightarrow> Inr v | None \<Rightarrow> kv_Get D (c_metaDB c) k)
        else kv_Get D (c_metaDB c) k)"
proof -
  let ?store = "Config_GetStoreTransactions (c_config c)" and ?L = "GetEpochLength (Controller_Rules c (slb_Tmstmp blk))"
  obtain r b ms where loop: "accept_txs E D ?store (slb_Tmstmp blk) (slb_Txs blk) (slb_Results blk) []
      (kv_NewBatch D (c_metaDB c), c_metrics c) = (r, (b, ms))" by (metis prod.exhaust)
  have sizes: "Uint64Len E = 8" "length (slb_Txs blk) = length (slb_Results blk)" "\<forall>tx\<in>set (slb_Txs blk). length (tx_ID tx) = IDLen E"
    "\<forall>r\<in>set (slb_Results blk). length (Dimensions_Bytes E (res_Units r)) = DimensionsLen E"
    using assms(1) by (auto simp: tx_sizes_def)
  note out = accept_txs_outcome [OF sizes loop]
  obtain e d where wr: "batch_Write D b (c_metaDB c) = (e, d)" by (cases "batch_Write D b (c_metaDB c)")
  have L: "GetEpochLength (Controller_Rules (c\<lparr>c_spawned := sp, c_metrics := ms\<rparr>) t) = GetEpochLength (Controller_Rules c t)" for sp t
    by (simp add: Controller_Rules_def)
  note run = assms(2) [unfolded Accepted_def Let_def, simplified, unfolded loop L prod.case]
  show "c_spawned c' = c_spawned c @ [blk] \<and> c_config c' = c_config c"
    using run by (auto simp: wr split: res.splits option.splits if_splits)
  show "is_panic res \<Longrightarrow> ?L = 0"
    using run out(1) by (auto simp: wr split: res.splits option.splits if_splits)
  show "kv_accepts D \<Longrightarrow> ?L \<noteq> 0 \<Longrightarrow> res = Ok ()"
  proof -
    assume up: "kv_accepts D" and L': "?L \<noteq> 0"
    then have "e = None" using wr unfolding kv_accepts_def by (metis fst_conv)
    then show "res = Ok ()" using run out(3) [OF up] L' by (auto simp: wr)
  qed
  show "kv_Get D (c_metaDB c') k = (if res = Ok () \<and> ?store
        then (case map_of (rev (tx_puts E (slb_Tmstmp blk) (slb_Txs blk) (slb_Results blk))) k of
           Some v \<Rightarrow> Inr v | None \<Rightarrow> kv_Get D (c_metaDB c) k)
        else kv_Get D (c_metaDB c) k)"
  proof (cases "res = Ok ()")
    case True
    then obtain x where x: "r = Ok x" "e = None" "c_metaDB c' = d"
      using run by (auto simp: wr split: res.splits option.splits if_splits)
    show ?thesis
      using write_readable [of b "c_metaDB c" d k] out(2) [OF x(1)] wr x pending_new True by simp
  next
    case False
    then have "c_metaDB c' = c_metaDB c \<or> (\<exists>e'. e = Some e' \<and> c_metaDB c' = d)"
      using run by (auto simp: wr split: res.splits option.splits if_splits)
    then show ?thesis using write_failed [of b "c_metaDB c" _ d k] wr False by auto
  qed
qed

lemma puts_found:
  assumes "length txs = length results" "distinct (map tx_ID txs)"
  shows "i < length txs \<Longrightarrow> map_of (rev (tx_puts E ts txs results)) (0 # tx_ID (txs ! i)) = Some (tx_record E ts (results ! i))"
proof -
  have "map fst (tx_puts E ts txs results) = map (\<lambda>tx. 0 # tx_ID tx) txs"
    using assms(1) by (simp add: split_def comp_def map_fst_zip flip: map_map [of "\<lambda>tx. 0 # tx_ID tx" fst, unfolded comp_def])
  then have "distinct (map fst (rev (tx_puts E ts txs results)))"
    using assms(2) unfolding rev_map [symmetric] by (simp add: distinct_map inj_on_def)
  then show "i < length txs \<Longrightarrow> map_of (rev (tx_puts E ts txs results)) (0 # tx_ID (txs ! i)) = Some (tx_record E ts (results ! i))"
    using assms(1) by (intro map_of_is_SomeI) (auto simp: in_set_zip intro!: image_eqI [of _ _ "(txs ! i, results ! i)"])
qed

lemma puts_other:
  "txid \<notin> set (map tx_ID txs) \<Longrightarrow> map_of (rev (tx_puts E ts txs results)) (0 # txid) = None"
  by (auto simp: map_of_eq_None_iff dest: set_zip_leftD)

lemma Accepted_finds:
  assumes "tx_sizes E blk" "Accepted E D blk c = (res, c')"
  shows "res = Ok () \<Longrightarrow> Config_GetStoreTransactions (c_config c) \<Longrightarrow> distinct (map tx_ID (slb_Txs blk)) \<Longrightarrow> i < length (slb_Txs blk) \<Longrightarrow>
      Controller_GetTransaction E D c' (tx_ID (slb_Txs blk ! i)) =
        Ok (Some (slb_Tmstmp blk, res_Success (slb_Results blk ! i), res_Units (slb_Results blk ! i), res_Fee (slb_Results blk ! i)))"
    and "length txid = IDLen E \<Longrightarrow> res \<noteq> Ok () \<or> \<not> Config_GetStoreTransactions (c_config c) \<or> txid \<notin> set (map tx_ID (slb_Txs blk)) \<Longrightarrow>
      Controller_GetTransaction E D c' txid = Controller_GetTransaction E D c txid"
proof -
  note get = Accepted_outcome(4) [OF assms]
  have len: "length (slb_Txs blk) = length (slb_Results blk)" using assms(1) by (simp add: tx_sizes_def)
  show "Controller_GetTransaction E D c' (tx_ID (slb_Txs blk ! i)) =
        Ok (Some (slb_Tmstmp blk, res_Success (slb_Results blk ! i), res_Units (slb_Results blk ! i), res_Fee (slb_Results blk ! i)))"
    if "res = Ok ()" "Config_GetStoreTransactions (c_config c)" "distinct (map tx_ID (slb_Txs blk))" "i < length (slb_Txs blk)"
    unfolding Controller_GetTransaction_def
    by (rule GetTransaction_record) (use assms(1) that len puts_found [OF len that(3,4), of E "slb_Tmstmp blk"] get in \<open>auto simp: tx_sizes_def\<close>)
  show "Controller_GetTransaction E D c' txid = Controller_GetTransaction E D c txid"
    if "length txid = IDLen E" "res \<noteq> Ok () \<or> \<not> Config_GetStoreTransactions (c_config c) \<or> txid \<notin> set (map tx_ID (slb_Txs blk))"
  proof -
    have "kv_Get D (c_metaDB c') (0 # txid) = kv_Get D (c_metaDB c) (0 # txid)"
      using get [of "0 # txid"] that(2) puts_other [of txid "slb_Txs blk" E "slb_Tmstmp blk" "slb_Results blk"] by (auto split: if_splits)
    then show ?thesis using that(1) by (simp add: Controller_GetTransaction_def GetTransaction_def TxKey_eq)
  qed
qed

end

text \<open>
  C14: accepting a block, with one result per transaction and the sizes the index relies on, hands it to
  the archiver exactly once, whatever it returns. It panics only when the epoch length is zero, and on a
  database that accepts every write, with an epoch length that is not zero, it succeeds. When it succeeds
  and transaction storage is on, every transaction of the block is found afterwards with the timestamp of
  the block and its own outcome, units and fee (no ID being in the block twice). All other transactions
  are found as before, and so are all of them when storage is off or the call does not succeed.
\<close>

theorem accepted_block_indexed:
  assumes "kv_batches D pending" "tx_sizes E blk" "Accepted E D blk c = (res, c')"
  shows "c_spawned c' = c_spawned c @ [blk]
    \<and> (is_panic res \<longrightarrow> GetEpochLength (Controller_Rules c (slb_Tmstmp blk)) = 0)
    \<and> (kv_accepts D \<and> GetEpochLength (Controller_Rules c (slb_Tmstmp blk)) \<noteq> 0 \<longrightarrow> res = Ok ())
    \<and> (res = Ok () \<and> Config_GetStoreTransactions (c_config c) \<and> distinct (map tx_ID (slb_Txs blk)) \<longrightarrow>
        (\<forall>i<length (slb_Txs blk). let r = slb_Results blk ! i in
          Controller_GetTransaction E D c' (tx_ID (slb_Txs blk ! i)) = Ok (Some (slb_Tmstmp blk, res_Success r, res_Units r, res_Fee r))))
    \<and> (\<forall>txid. length txid = IDLen E \<and>
          (res \<noteq> Ok () \<or> \<not> Config_GetStoreTransactions (c_config c) \<or> txid \<notin> set (map tx_ID (slb_Txs blk))) \<longrightarrow>
        Controller_GetTransaction E D c' txid = Controller_GetTransaction E D c txid)"
  using kv_batches.Accepted_outcome(1,2,3) [OF assms] kv_batches.Accepted_finds [OF assms] unfolding Let_def by blast

text \<open>A node that goes on: further blocks are accepted, and blocks accepted before are archived in between.\<close>

inductive goes_on ::
    "('p, 'x) hactions_scheme \<Rightarrow> ('k, 'b) kvdb \<Rightarrow> 'q chain \<Rightarrow> ('d, 't) gorm \<Rightarrow> ('f, 'k, 'd) Controller \<Rightarrow> StatelessBlock list
      \<Rightarrow> ('f, 'k, 'd) Controller \<Rightarrow> bool"
  for E D C G c where
  stays: "goes_on E D C G c [] c"
| accepts: "goes_on E D C G c bs c1 \<Longrightarrow> Accepted E D blk c1 = (Ok (), c2) \<Longrightarrow> goes_on E D C G c (bs @ [blk]) c2"
| archives: "goes_on E D C G c bs c1 \<Longrightarrow> goes_on E D C G c bs (archive_spawned C G blk c1)"

context kv_batches
begin

lemma goes_on_finds:
  assumes "goes_on E D C G c bs c'" "length txid = IDLen E"
    and "\<forall>blk\<in>set bs. tx_sizes E blk \<and> txid \<notin> set (map tx_ID (slb_Txs blk))"
  shows "Controller_GetTransaction E D c' txid = Controller_GetTransaction E D c txid"
  using assms
proof induction
  case (accepts bs c1 blk c2)
  then show ?case using Accepted_finds(2) [OF _ accepts(2), of txid] by simp
next
  case (archives bs c1 blk)
  then show ?case by (simp add: Controller_GetTransaction_def archive_spawned_def)
qed simp

end

definition demo_tx :: Transaction where
  "demo_tx = \<lparr>tx_ID = replicate 32 5, tx_Actions = [ARollupRegistration demo_registration]\<rparr>"

definition demo_result :: Result where
  "demo_result = \<lparr>res_Success = True, res_Units = [1, 2, 3, 4, 5], res_Fee = 99\<rparr>"

definition demo_accepted :: StatelessBlock where
  "demo_accepted = \<lparr>slb_ID = [1], slb_Prnt = [0], slb_Tmstmp = 1700, slb_Hght = 7, slb_L1Head = 0,
     slb_Txs = [demo_tx], slb_Results = [demo_result]\<rparr>"

definition demo_controller :: "(unit, kv, DBBlock list) Controller" where
  "demo_controller = \<lparr>c_networkID = 1, c_chainID = [], c_genesis = Default ref,
     c_config = setDefault demo_hconfig (zero_Config () ''node''), c_archiver = [], c_rollupRegistry = NewRollupRegistr,
     c_metrics = \<lparr>mt_transfer = 0, mt_sequencerMsg = 0, mt_auction = 0, mt_rollupRegister = 0, mt_epochExit = 0\<rparr>,
     c_metaDB = Map.empty, c_spawned = []\<rparr>"

lemma demo_stores: "Config_GetStoreTransactions (c_config demo_controller)"
  by (simp add: demo_controller_def Config_GetStoreTransactions_def setDefault_def defaultStoreTransactions_def Let_def)

lemma demo_controller_epochs: "GetEpochLength (Controller_Rules demo_controller t) = 6"
  by (simp add: demo_controller_def Controller_Rules_def Genesis_Rules_def GetEpochLength_def Default_def)

lemma demo_sizes: "tx_sizes ref demo_accepted"
proof -
  have "UnpackDimensions ref (Dimensions_Bytes ref [1, 2, 3, 4, 5]) = Inr [1, 2, 3, 4, 5]"
    by (simp add: drop_append)
  then show ?thesis by (simp add: tx_sizes_def demo_accepted_def demo_tx_def demo_result_def)
qed

theorem accepted_block_indexed_witness:
  "\<exists>c'. Accepted ref map_kvdb demo_accepted demo_controller = (Ok (), c')
     \<and> Controller_GetTransaction ref map_kvdb c' (replicate 32 5) = Ok (Some (1700, True, [1, 2, 3, 4, 5], 99))"
proof -
  obtain res c' where run: "Accepted ref map_kvdb demo_accepted demo_controller = (res, c')" by fastforce
  have d: "distinct (map tx_ID (slb_Txs demo_accepted))" by (simp add: demo_accepted_def)
  have e: "GetEpochLength (Controller_Rules demo_controller (slb_Tmstmp demo_accepted)) \<noteq> 0"
    by (simp add: demo_controller_epochs)
  show ?thesis
    using accepted_block_indexed [OF map_batches.kv_batches_axioms demo_sizes run] map_kvdb_accepts d demo_stores e run
    by (auto simp: demo_accepted_def demo_tx_def demo_result_def Let_def)
qed

section \<open>Memory and state\<close>

text \<open>
  The registrations of a block as they are executed on the state: \<open>registers m is m'\<close> when the
  successful ones recorded the infos \<open>is\<close>, in between steps that leave the registered rollups as they are.
\<close>

inductive registers ::
    "('p, 'x) hactions_scheme \<Rightarrow> 'm Mutable \<Rightarrow> Rules \<Rightarrow> u64 \<Rightarrow> 'm \<Rightarrow> RollupInfo list \<Rightarrow> 'm \<Rightarrow> bool"
  for E S rules h m where
  none: "registers E S rules h m [] m"
| registration: "registers E S rules h m is m1 \<Longrightarrow>
     RollupRegistration_Execute E S r rules ts h actor aid m1 = (Ok (out, r'), m2) \<Longrightarrow>
     registers E S rules h m (is @ [rr_Info r']) m2"
| other: "registers E S rules h m is m1 \<Longrightarrow> rollups_of E S m2 = rollups_of E S m1 \<Longrightarrow> registry_ok E S m2 \<Longrightarrow>
     registers E S rules h m is m2"

text \<open>
  A node from its genesis on: blocks are executed on the state and then accepted, their epochs do not
  go back. The history lists the epoch and the recorded infos of every block.
\<close>

inductive node_run ::
    "('p, 'x) hactions_scheme \<Rightarrow> 'm Mutable \<Rightarrow> ('k, 'b) kvdb \<Rightarrow> 'm \<Rightarrow> ('f, 'k, 'd) Controller \<Rightarrow> (u64 \<times> RollupInfo list) list \<Rightarrow> bool"
  for E S D where
  genesis: "registry_of E S m = Ok [] \<Longrightarrow> c_rollupRegistry c = NewRollupRegistr \<Longrightarrow> node_run E S D m c []"
| accepted: "node_run E S D m c hist \<Longrightarrow> registers E S (Controller_Rules c (slb_Tmstmp blk)) (slb_Hght blk) m (block_infos blk) m' \<Longrightarrow>
     Accepted E D blk c = (Ok (), c') \<Longrightarrow> e = slb_Hght blk div GetEpochLength (Controller_Rules c (slb_Tmstmp blk)) \<Longrightarrow>
     \<forall>(e', _)\<in>set hist. e' \<le> e \<Longrightarrow> node_run E S D m' c' (hist @ [(e, block_infos blk)])"

text \<open>The latest info recorded for a namespace.\<close>

definition recorded :: "RollupInfo list \<Rightarrow> (bytes \<Rightarrow> RollupInfo option) \<Rightarrow> bytes \<Rightarrow> RollupInfo option" where
  "recorded is f ns = (case find (\<lambda>i. ri_Namespace i = ns) (rev is) of None \<Rightarrow> f ns | Some i \<Rightarrow> Some i)"

lemma recorded_simps: "recorded [] f = f" "recorded (is @ [i]) f = (recorded is f)(ri_Namespace i \<mapsto> i)"
  by (auto simp: recorded_def find_append fun_eq_iff split: option.splits)

lemma recorded_append: "recorded (is @ js) f = recorded js (recorded is f)"
  by (auto simp: recorded_def find_append fun_eq_iff split: option.splits)

context rollups
begin

lemma registers_rollups:
  assumes "registers E S rules h m is m'" "registry_ok E S m" "GetEpochLength rules \<noteq> 0"
  shows "registry_ok E S m' \<and> rollups_of E S m' = recorded is (rollups_of E S m)
    \<and> (\<forall>i\<in>set is. length (ri_Namespace i) \<le> MaxNamespaceLen E)"
  using assms(1)
proof induction
  case (registration "is" m1 r ts actor aid out r' m2)
  then have ok: "registry_ok E S m1" by simp
  then obtain nss where nss: "registry_of E S m1 = Ok nss" by (auto simp: registry_ok_def)
  show ?case
    using ok nss assms(3)
  proof (cases rule: Execute_cases [where r = r and hght = h and actor = actor and ts = ts and aid = aid])
    case (recorded new w)
    then have rec: "record_rollup E S w r (register nss (rr_Namespace r)) new m1 = (Ok (out, r'), m2)"
      using registration(2) by simp
    have r': "rr_Info r' = new" and ns: "ri_Namespace new = rr_Namespace r"
      using record_rollup_views(4) [OF rec recorded(3) refl] recorded(4) by (auto simp: info_ok_def)
    show ?thesis
      using record_rollup_ok [OF ok nss recorded(3,4) rec] record_rollup_rollups [OF ok nss recorded(3) rec]
        registration.IH recorded(3) by (simp add: r' ns recorded_simps)
  qed (use registration(2) in simp)
qed (simp_all add: recorded_simps assms(2))

lemma node_run_inv:
  assumes "node_run E S D m c hist"
  shows "registry_ok E S m \<and> rollups_of E S m = recorded (infos_of hist) Map.empty
    \<and> c_rollupRegistry c = registry_after E NewRollupRegistr hist \<and> sorted (map fst hist)
    \<and> (\<forall>i\<in>set (infos_of hist). length (ri_Namespace i) \<le> MaxNamespaceLen E)"
  using assms
proof induction
  case (genesis m c)
  then show ?case by (simp add: registry_ok_def rollups_of_def fun_eq_iff recorded_simps registry_after_def)
next
  case (accepted m c hist blk m' c' e)
  note acc = Accepted_registry [OF accepted(3)]
  have "registry_ok E S m' \<and> rollups_of E S m' = recorded (block_infos blk) (rollups_of E S m)
      \<and> (\<forall>i\<in>set (block_infos blk). length (ri_Namespace i) \<le> MaxNamespaceLen E)"
    using registers_rollups [OF accepted(2)] accepted.IH acc by blast
  then show ?case
    using accepted.IH acc accepted(4,5) by (auto simp: recorded_append registry_after_def sorted_append)
qed

end

lemma latest_recorded:
  assumes "rollup_ids E" "\<forall>i\<in>set is. length (ri_Namespace i) \<le> MaxNamespaceLen E"
  shows "(\<exists>k. latest E is k = Some i) \<longleftrightarrow> (\<exists>ns. recorded is Map.empty ns = Some i)"
proof -
  have eq: "find (\<lambda>j. RollupInfo_ID E j = RollupInfo_ID E i) (rev is) = find (\<lambda>j. ri_Namespace j = ri_Namespace i) (rev is)"
    if "i \<in> set is" for i
    using rollup_ids.ID_iff [OF assms(1)] assms(2) that by (intro find_cong) auto
  have find: "find P (rev is) = Some i \<Longrightarrow> i \<in> set is \<and> P i" for P
    by (metis find_Some_iff length_rev nth_mem set_rev)
  have rec: "recorded is Map.empty ns = find (\<lambda>j. ri_Namespace j = ns) (rev is)" for ns
    by (simp add: recorded_def split: option.splits)
  show ?thesis
  proof
    assume "\<exists>k. latest E is k = Some i"
    then obtain k where k: "find (\<lambda>j. RollupInfo_ID E j = k) (rev is) = Some i" by (auto simp: latest_def)
    with find [OF k] eq [of i] show "\<exists>ns. recorded is Map.empty ns = Some i" by (auto simp: rec)
  next
    assume "\<exists>ns. recorded is Map.empty ns = Some i"
    then obtain ns where ns: "find (\<lambda>j. ri_Namespace j = ns) (rev is) = Some i" by (auto simp: rec)
    with find [OF ns] eq [of i] show "\<exists>k. latest E is k = Some i" by (auto simp: latest_def)
  qed
qed

text \<open>
  C4: the in-memory registry of a node that runs from genesis agrees with the state after any sequence of
  executed and accepted blocks. For an epoch not before the last block's, the rollups it returns as valid
  are exactly those rollups of the state that are valid then. For an earlier epoch the rollups that had
  exited by the last block are missing, and only those: it returns exactly the rollups of the state that
  are valid at that epoch and had not exited at the epoch of any block.
\<close>

theorem memory_agrees_with_state:
  assumes "rollups S E" "rollup_epochs E" "rollup_ids E" "node_run E S D m c hist"
    and "set order = dom (rg_rollups (Controller_RollupRegistry c))"
  shows "((\<forall>(e, _)\<in>set hist. e \<le> epoch) \<longrightarrow>
      set (RollupsValidAtEpoch E order (Controller_RollupRegistry c) epoch)
        = {i. (\<exists>ns. rollups_of E S m ns = Some i) \<and> ValidAtEpoch E i epoch})
    \<and> set (RollupsValidAtEpoch E order (Controller_RollupRegistry c) epoch)
        = {i. (\<exists>ns. rollups_of E S m ns = Some i) \<and> ValidAtEpoch E i epoch \<and> (\<forall>(e, _)\<in>set hist. \<not> Exited E i e)}"
proof -
  note inv = rollups.node_run_inv [OF assms(1,4)]
  have "set (RollupsValidAtEpoch E order (Controller_RollupRegistry c) epoch)
      = {i. (\<exists>k. latest E (infos_of hist) k = Some i) \<and> ValidAtEpoch E i epoch \<and> (\<forall>(e, _)\<in>set hist. \<not> Exited E i e)}"
    using rollup_epochs.registry_after_valid [OF assms(2), of hist order] inv assms(5)
    by (simp add: Controller_RollupRegistry_def)
  moreover have "(\<exists>k. latest E (infos_of hist) k = Some i) \<longleftrightarrow> (\<exists>ns. rollups_of E S m ns = Some i)" for i
    using latest_recorded [OF assms(3)] inv by simp
  ultimately have "set (RollupsValidAtEpoch E order (Controller_RollupRegistry c) epoch)
      = {i. (\<exists>ns. rollups_of E S m ns = Some i) \<and> ValidAtEpoch E i epoch \<and> (\<forall>(e, _)\<in>set hist. \<not> Exited E i e)}" by simp
  then show ?thesis
    using rollup_epochs.valid_not_exited [OF assms(2), of hist epoch] by blast
qed

text \<open>The block of the example registers a rollup from genesis on.\<close>

text \<open>The registration of the example's block, executed on the empty state.\<close>

lemma demo_registered:
  "\<exists>m. RollupRegistration_Execute ref map_store demo_registration (Controller_Rules demo_controller 1700) 0 7 alice [] Map.empty
     = (Ok ([], demo_registration), m)"
proof -
  let ?rules = "Controller_Rules demo_controller 1700"
  have sp: "info_recorded (MaxNamespaceLen ref) (7 div GetEpochLength ?rules) alice demo_registration
      (old_info [] (rr_Namespace demo_registration) demo_info) = Some demo_info"
    by (simp add: info_recorded_def demo_registration_def demo_controller_epochs old_info_def)
      (simp add: demo_info_def demo_ns_def)
  have L: "GetEpochLength ?rules \<noteq> 0" by (simp add: demo_controller_epochs)
  obtain w where w: "RollupRegistration_Execute ref map_store demo_registration ?rules 0 7 alice [] Map.empty
      = record_rollup ref map_store w demo_registration (register [] (rr_Namespace demo_registration)) demo_info Map.empty"
    using Execute_records [OF L empty_registry(1) _ sp, of 0 "[]"] by auto
  have enc: "packer_Err ref (RollupInfo_Marshal ref demo_info (NewWriter ref (RollupInfo_Size ref demo_info) (NetworkSizeLimit ref))) = None"
    by (simp add: rp_write_def r_writer_def demo_info_length)
  have pk: "PackNamespaces ref (register [] (rr_Namespace demo_registration)) = Inr (r_enc_list rp_enc_bytes [demo_ns])"
    using demo_packed by (simp add: register_def demo_registration_def)
  show ?thesis
    using record_rollup_accepted [OF map_kv.kv_total_axioms enc pk, of w demo_registration Map.empty] w
    by (auto simp: demo_registration_def)
qed

lemma demo_node_run:
  "\<exists>m (c :: (unit, kv, DBBlock list) Controller). node_run ref map_store map_kvdb m c [(1, [demo_info])] \<and> rg_rollups (c_rollupRegistry c) = [RollupInfo_ID ref demo_info \<mapsto> demo_info]"
proof -
  let ?rules = "Controller_Rules demo_controller 1700"
  obtain m where m: "RollupRegistration_Execute ref map_store demo_registration ?rules 0 7 alice [] Map.empty = (Ok ([], demo_registration), m)"
    using demo_registered by blast
  have infos: "block_infos demo_accepted = [demo_info]"
    by (simp add: block_infos_def demo_accepted_def demo_tx_def demo_result_def demo_registration_def)
  have "registers ref map_store ?rules 7 Map.empty ([] @ [rr_Info demo_registration]) m"
    by (rule registers.registration [OF registers.none m])
  then have regs: "registers ref map_store (Controller_Rules demo_controller (slb_Tmstmp demo_accepted)) (slb_Hght demo_accepted)
      Map.empty (block_infos demo_accepted) m"
    by (simp only: infos) (simp add: demo_accepted_def demo_registration_def)
  obtain res c where run: "Accepted ref map_kvdb demo_accepted demo_controller = (res, c)" by fastforce
  have "res = Ok ()"
    by (rule map_batches.Accepted_outcome(3) [OF demo_sizes run map_kvdb_accepts]) (simp add: demo_controller_epochs)
  with run have c: "Accepted ref map_kvdb demo_accepted demo_controller = (Ok (), c)" by simp
  have e: "(1 :: u64) = slb_Hght demo_accepted div GetEpochLength (Controller_Rules demo_controller (slb_Tmstmp demo_accepted))"
    by (simp add: demo_controller_epochs) (simp add: demo_accepted_def)
  have start: "node_run ref map_store map_kvdb Map.empty demo_controller []"
    using empty_registry(1) by (rule node_run.genesis) (simp add: demo_controller_def)
  have "node_run ref map_store map_kvdb m c ([] @ [(1, block_infos demo_accepted)])"
    by (rule node_run.accepted [OF start regs c e]) simp
  moreover have "c_rollupRegistry c = RollupRegistry_Update ref (c_rollupRegistry demo_controller) 1 [demo_info]"
    using Accepted_registry [OF c] e infos by simp
  moreover have "c_rollupRegistry demo_controller = NewRollupRegistr" by (simp add: demo_controller_def)
  moreover have "\<not> Exited ref demo_info 1" by (simp add: demo_info_def)
  ultimately have "rg_rollups (c_rollupRegistry c) = [RollupInfo_ID ref demo_info \<mapsto> demo_info]"
      "node_run ref map_store map_kvdb m c [(1, [demo_info])]"
    by (simp_all add: infos fun_eq_iff Update_rollups latest_def NewRollupRegistr_def del: ref_simps)
  then show ?thesis by blast
qed

theorem memory_agrees_with_state_witness:
  "\<exists>m (c :: (unit, kv, DBBlock list) Controller). node_run ref map_store map_kvdb m c [(1, [demo_info])]
     \<and> {i. (\<exists>ns. rollups_of ref map_store m ns = Some i) \<and> ValidAtEpoch ref i 4} = {demo_info}"
proof -
  obtain m and c :: "(unit, kv, DBBlock list) Controller" where run: "node_run ref map_store map_kvdb m c [(1, [demo_info])]"
    and reg: "rg_rollups (c_rollupRegistry c) = [RollupInfo_ID ref demo_info \<mapsto> demo_info]"
    using demo_node_run by blast
  have dom: "set [RollupInfo_ID ref demo_info] = dom (rg_rollups (Controller_RollupRegistry c))"
    by (simp add: Controller_RollupRegistry_def reg)
  have v: "ValidAtEpoch ref demo_info 4" by (simp add: demo_info_def)
  have "\<forall>(e, _)\<in>set [(1, [demo_info])]. e \<le> (4 :: u64)" by simp
  with memory_agrees_with_state [OF ref_rollups.rollups_axioms ref_epochs.rollup_epochs_axioms ref_ids.rollup_ids_axioms run dom, of 4]
  have "set (RollupsValidAtEpoch ref [RollupInfo_ID ref demo_info] (Controller_RollupRegistry c) 4)
      = {i. (\<exists>ns. rollups_of ref map_store m ns = Some i) \<and> ValidAtEpoch ref i 4}" by blast
  then have "{i. (\<exists>ns. rollups_of ref map_store m ns = Some i) \<and> ValidAtEpoch ref i 4} = {demo_info}"
    using reg v by (simp add: RollupsValidAtEpoch_eq List.map_filter_simps Controller_RollupRegistry_def del: ref_simps)
  with run show ?thesis by blast
qed

end
