(* ===== verification/Seq_Auth.thy ===== *)
theory Seq_Auth
  imports Seq_Transfer "HOL-Library.Signed_Division"
begin

text \<open>
  Authentication of transactions: \<open>src/auth/bls.go\<close>, \<open>src/auth/ed25519.go\<close> and
  \<open>src/auth/consts.go\<close>. The signature schemes are parameters (\<open>crypto\<close>), and so is the batch of
  \<open>crypto/ed25519\<close>. Shown: what a factory signs verifies, also after a trip over the wire, and
  acts for the address of the factory; the batch verifier accepts exactly when every signature
  added to it verifies.
\<close>

abbreviation EmptyAddress :: "'x sdk_scheme \<Rightarrow> Address" where
  "EmptyAddress E \<equiv> make_bytes (AddressLen E)"

section \<open>bls.go\<close>

definition BLSComputeUnits :: u64 where "BLSComputeUnits = 10"

definition BLSSize :: "'x sdk_scheme \<Rightarrow> nat" where
  "BLSSize E = bls_PublicKeyLen E + bls_SignatureLen E"

record ('pk, 'sg) BLS =
  bls_Signer :: 'pk
  bls_Signature :: 'sg
  bls_addr :: Address

definition NewBLSAddress :: "('p, 'pk, 'sg, 'sk, 'x) crypto_scheme \<Rightarrow> 'pk \<Rightarrow> Address" where
  "NewBLSAddress E pk = CreateAddress E BLSID (ToID E (bls_PublicKeyToBytes E pk))"

text \<open>The address is computed once and kept in the struct.\<close>

definition BLS_address ::
    "('p, 'pk, 'sg, 'sk, 'x) crypto_scheme \<Rightarrow> ('pk, 'sg) BLS \<Rightarrow> Address \<times> ('pk, 'sg) BLS" where
  "BLS_address E b =
     (let b = (if bls_addr b = EmptyAddress E then b\<lparr>bls_addr := NewBLSAddress E (bls_Signer b)\<rparr> else b) in
      (bls_addr b, b))"

definition BLS_GetTypeID :: u8 where "BLS_GetTypeID = BLSID"

definition BLS_ComputeUnits :: u64 where "BLS_ComputeUnits = BLSComputeUnits"

definition BLS_ValidRange :: "i64 \<times> i64" where "BLS_ValidRange = (-1, -1)"

definition BLS_Verify ::
    "('p, 'pk, 'sg, 'sk, 'x) crypto_scheme \<Rightarrow> ('pk, 'sg) BLS \<Rightarrow> bytes \<Rightarrow> err option" where
  "BLS_Verify E b msg =
     (if \<not> bls_Verify E msg (bls_Signer b) (bls_Signature b) then Some ErrCryptoInvalidSignature else None)"

definition BLS_Actor ::
    "('p, 'pk, 'sg, 'sk, 'x) crypto_scheme \<Rightarrow> ('pk, 'sg) BLS \<Rightarrow> Address \<times> ('pk, 'sg) BLS" where
  "BLS_Actor E b = BLS_address E b"

definition BLS_Sponsor ::
    "('p, 'pk, 'sg, 'sk, 'x) crypto_scheme \<Rightarrow> ('pk, 'sg) BLS \<Rightarrow> Address \<times> ('pk, 'sg) BLS" where
  "BLS_Sponsor E b = BLS_address E b"

definition BLS_Size :: "'x sdk_scheme \<Rightarrow> int" where "BLS_Size E = int (BLSSize E)"

definition BLS_Marshal ::
    "('p, 'pk, 'sg, 'sk, 'x) crypto_scheme \<Rightarrow> ('pk, 'sg) BLS \<Rightarrow> 'p \<Rightarrow> 'p" where
  "BLS_Marshal E b p =
     (let p = PackFixedBytes E (bls_PublicKeyToBytes E (bls_Signer b)) p in
      PackFixedBytes E (bls_SignatureToBytes E (bls_Signature b)) p)"

definition UnmarshalBLS ::
    "('p, 'pk, 'sg, 'sk, 'x) crypto_scheme \<Rightarrow> 'p \<Rightarrow> ('pk, 'sg) BLS returned \<times> 'p" where
  "UnmarshalBLS E p =
     (case UnpackFixedBytes E (bls_PublicKeyLen E) p of (signer, p) \<Rightarrow>
      case UnpackFixedBytes E (bls_SignatureLen E) p of (signature, p) \<Rightarrow>
      (case bls_PublicKeyFromBytes E signer of Inl e \<Rightarrow> (None, Some e)
       | Inr pk \<Rightarrow> (case bls_SignatureFromBytes E signature of Inl e \<Rightarrow> (None, Some e)
          | Inr sig \<Rightarrow> (Some \<lparr>bls_Signer = pk, bls_Signature = sig, bls_addr = EmptyAddress E\<rparr>,
              packer_Err E p)), p))"

record 'sk BLSFactory =
  bls_priv :: 'sk

definition NewBLSFactory :: "'sk \<Rightarrow> 'sk BLSFactory" where
  "NewBLSFactory priv = \<lparr>bls_priv = priv\<rparr>"

definition BLSFactory_Sign ::
    "('p, 'pk, 'sg, 'sk, 'x) crypto_scheme \<Rightarrow> 'sk BLSFactory \<Rightarrow> bytes \<Rightarrow> ('pk, 'sg) BLS returned" where
  "BLSFactory_Sign E b msg =
     (Some \<lparr>bls_Signer = bls_PublicFromPrivateKey E (bls_priv b), bls_Signature = bls_Sign E msg (bls_priv b),
        bls_addr = EmptyAddress E\<rparr>, None)"

definition BLSFactory_MaxUnits :: "'x sdk_scheme \<Rightarrow> u64 \<times> u64" where
  "BLSFactory_MaxUnits E = (of_nat (BLSSize E), BLSComputeUnits)"

definition BLSFactory_Address :: "('p, 'pk, 'sg, 'sk, 'x) crypto_scheme \<Rightarrow> 'sk BLSFactory \<Rightarrow> Address" where
  "BLSFactory_Address E b = NewBLSAddress E (bls_PublicFromPrivateKey E (bls_priv b))"

section \<open>ed25519.go\<close>

definition ED25519ComputeUnits :: u64 where "ED25519ComputeUnits = 5"

definition ED25519Size :: "'x sdk_scheme \<Rightarrow> nat" where
  "ED25519Size E = ed25519_PublicKeyLen E + ed25519_SignatureLen E"

text \<open>The keys and signatures are arrays of bytes.\<close>

record ED25519 =
  ed_Signer :: bytes
  ed_Signature :: bytes
  ed_addr :: Address

definition NewED25519Address :: "'x sdk_scheme \<Rightarrow> bytes \<Rightarrow> Address" where
  "NewED25519Address E pk = CreateAddress E Ed25519ID (ToID E pk)"

definition ED25519_address :: "'x sdk_scheme \<Rightarrow> ED25519 \<Rightarrow> Address \<times> ED25519" where
  "ED25519_address E d =
     (let d = (if ed_addr d = EmptyAddress E then d\<lparr>ed_addr := NewED25519Address E (ed_Signer d)\<rparr> else d) in
      (ed_addr d, d))"

definition ED25519_GetTypeID :: u8 where "ED25519_GetTypeID = Ed25519ID"

definition ED25519_ComputeUnits :: u64 where "ED25519_ComputeUnits = ED25519ComputeUnits"

definition ED25519_ValidRange :: "i64 \<times> i64" where "ED25519_ValidRange = (-1, -1)"

definition ED25519_Verify ::
    "('p, 'pk, 'sg, 'sk, 'x) crypto_scheme \<Rightarrow> ED25519 \<Rightarrow> bytes \<Rightarrow> err option" where
  "ED25519_Verify E d msg =
     (if \<not> ed25519_Verify E msg (ed_Signer d) (ed_Signature d) then Some ErrCryptoInvalidSignature else None)"

definition ED25519_Actor :: "'x sdk_scheme \<Rightarrow> ED25519 \<Rightarrow> Address \<times> ED25519" where
  "ED25519_Actor E d = ED25519_address E d"

definition ED25519_Sponsor :: "'x sdk_scheme \<Rightarrow> ED25519 \<Rightarrow> Address \<times> ED25519" where
  "ED25519_Sponsor E d = ED25519_address E d"

definition ED25519_Size :: "'x sdk_scheme \<Rightarrow> int" where "ED25519_Size E = int (ED25519Size E)"

definition ED25519_Marshal :: "('p, 'x) codec_scheme \<Rightarrow> ED25519 \<Rightarrow> 'p \<Rightarrow> 'p" where
  "ED25519_Marshal E d p =
     (let p = PackFixedBytes E (ed_Signer d) p in
      PackFixedBytes E (ed_Signature d) p)"

definition UnmarshalED25519 :: "('p, 'x) codec_scheme \<Rightarrow> 'p \<Rightarrow> ED25519 returned \<times> 'p" where
  "UnmarshalED25519 E p =
     (case UnpackFixedBytes E (ed25519_PublicKeyLen E) p of (signer, p) \<Rightarrow>
      case UnpackFixedBytes E (ed25519_SignatureLen E) p of (signature, p) \<Rightarrow>
      ((Some \<lparr>ed_Signer = signer, ed_Signature = signature, ed_addr = EmptyAddress E\<rparr>, packer_Err E p), p))"

record ED25519Factory =
  ed_priv :: bytes

definition NewED25519Factory :: "bytes \<Rightarrow> ED25519Factory" where
  "NewED25519Factory priv = \<lparr>ed_priv = priv\<rparr>"

definition ED25519Factory_Sign ::
    "('p, 'pk, 'sg, 'sk, 'x) crypto_scheme \<Rightarrow> ED25519Factory \<Rightarrow> bytes \<Rightarrow> ED25519 returned" where
  "ED25519Factory_Sign E e msg =
     (let sig = ed25519_Sign E msg (ed_priv e) in
      (Some \<lparr>ed_Signer = ed25519_PublicKey E (ed_priv e), ed_Signature = sig, ed_addr = EmptyAddress E\<rparr>, None))"

definition ED25519Factory_MaxUnits :: "'x sdk_scheme \<Rightarrow> u64 \<times> u64" where
  "ED25519Factory_MaxUnits E = (of_nat (ED25519Size E), ED25519ComputeUnits)"

definition ED25519Factory_Address :: "('p, 'pk, 'sg, 'sk, 'x) crypto_scheme \<Rightarrow> ED25519Factory \<Rightarrow> Address" where
  "ED25519Factory_Address E e = NewED25519Address E (ed25519_PublicKey E (ed_priv e))"

section \<open>Batch verification\<close>

text \<open>The values of \<open>chain.Auth\<close>.\<close>

datatype ('pk, 'sg) Auth = AuthED25519 ED25519 | AuthBLS "('pk, 'sg) BLS"

text \<open>
  \<open>ed25519.Batch\<close>: \<open>VerifyAsync\<close> is what the returned function gives when it is called. The batches
  are heap objects: a pointer is an index into the list of batches allocated so far, and a function
  that verifies a batch is that batch's pointer, since it sees the batch as it is when it runs.
\<close>

record 'b ed25519_batch =
  NewBatch :: "i64 \<Rightarrow> 'b"
  Batch_Add :: "bytes \<Rightarrow> bytes \<Rightarrow> bytes \<Rightarrow> 'b \<Rightarrow> 'b"
  VerifyAsync :: "'b \<Rightarrow> err option"

record ED25519Batch =
  eb_batchSize :: i64
  eb_total :: i64
  eb_counter :: i64
  eb_totalCounter :: i64
  eb_batch :: "nat option"

definition GetBatchVerifier :: "('p, 'pk, 'sg, 'sk, 'x) crypto_scheme \<Rightarrow> i64 \<Rightarrow> i64 \<Rightarrow> ED25519Batch res" where
  "GetBatchVerifier E cores count =
     (if cores = 0 then Panic DivideByZero
      else let quotient = of_int (sint count sdiv sint cores) :: i64;
               batchSize = of_int (max (sint quotient) (ed25519_MinBatchSize E)) in
        Ok \<lparr>eb_batchSize = batchSize, eb_total = count, eb_counter = 0, eb_totalCounter = 0, eb_batch = None\<rparr>)"

datatype AuthEngine = ED25519AuthEngine

definition ED25519AuthEngine_Cache :: "('pk, 'sg) Auth \<Rightarrow> unit" where
  "ED25519AuthEngine_Cache a = ()"

definition Engines :: "u8 \<Rightarrow> AuthEngine option" where
  "Engines = [Ed25519ID \<mapsto> ED25519AuthEngine]"

text \<open>\<open>b.batch = ed25519.NewBatch(b.batchSize)\<close>.\<close>

fun new_batch :: "'b ed25519_batch \<Rightarrow> ED25519Batch \<times> 'b list \<Rightarrow> ED25519Batch \<times> 'b list" where
  "new_batch B (b, h) = (b\<lparr>eb_batch := Some (length h)\<rparr>, h @ [NewBatch B (eb_batchSize b)])"

fun add_signature ::
    "'b ed25519_batch \<Rightarrow> bytes \<Rightarrow> ED25519 \<Rightarrow> ED25519Batch \<times> 'b list \<Rightarrow> nat option res \<times> (ED25519Batch \<times> 'b list)" where
  "add_signature B msg auth (b, h) =
     (case eb_batch b of None \<Rightarrow> (Panic NilDereference, (b, h))
      | Some ptr \<Rightarrow>
        (let h = h[ptr := Batch_Add B msg (ed_Signer auth) (ed_Signature auth) (h ! ptr)];
             b = b\<lparr>eb_counter := eb_counter b + 1, eb_totalCounter := eb_totalCounter b + 1\<rparr> in
         if eb_counter b = eb_batchSize b
         then let b = b\<lparr>eb_counter := 0\<rparr> in
           (Ok (Some ptr), if sint (eb_totalCounter b) < sint (eb_total b) then new_batch B (b, h) else (b, h))
         else (Ok None, (b, h))))"

definition ED25519Batch_Add ::
    "'b ed25519_batch \<Rightarrow> bytes \<Rightarrow> ('pk, 'sg) Auth \<Rightarrow> (ED25519Batch \<times> 'b list, nat option) go" where
  "ED25519Batch_Add B msg rauth s =
     (case rauth of AuthBLS b \<Rightarrow> (Panic TypeAssertion, s)
      | AuthED25519 auth \<Rightarrow> add_signature B msg auth (if eb_batch (fst s) = None then new_batch B s else s))"

definition ED25519Batch_Done :: "ED25519Batch \<Rightarrow> nat list" where
  "ED25519Batch_Done b = (case eb_batch b of None \<Rightarrow> [] | Some ptr \<Rightarrow> [ptr])"

section \<open>What the sources rely on\<close>

text \<open>
  A signature verifies under the public key of the private key that made it; keys and signatures
  have their fixed length as bytes, and those of BLS are parsed back from their bytes.
\<close>

locale signing =
  fixes E :: "('p, 'pk, 'sg, 'sk, 'x) crypto_scheme"
  assumes ed_verifies: "ed25519_Verify E msg (ed25519_PublicKey E k) (ed25519_Sign E msg k)"
    and ed_lengths: "length (ed25519_PublicKey E k) = ed25519_PublicKeyLen E"
        "length (ed25519_Sign E msg k) = ed25519_SignatureLen E"
    and bls_verifies: "bls_Verify E msg (bls_PublicFromPrivateKey E sk) (bls_Sign E msg sk)"
    and bls_lengths: "length (bls_PublicKeyToBytes E (bls_PublicFromPrivateKey E sk)) = bls_PublicKeyLen E"
        "length (bls_SignatureToBytes E (bls_Sign E msg sk)) = bls_SignatureLen E"
    and bls_parse: "bls_PublicKeyFromBytes E (bls_PublicKeyToBytes E (bls_PublicFromPrivateKey E sk))
          = Inr (bls_PublicFromPrivateKey E sk)"
        "bls_SignatureFromBytes E (bls_SignatureToBytes E (bls_Sign E msg sk)) = Inr (bls_Sign E msg sk)"

text \<open>
  A batch starts empty and collects what is added (\<open>contents\<close>); verifying a batch that holds
  something succeeds exactly when every signature in it verifies.
\<close>

locale batch_verifier =
  fixes E :: "('p, 'pk, 'sg, 'sk, 'x) crypto_scheme"
    and B :: "'b ed25519_batch"
    and contents :: "'b \<Rightarrow> (bytes \<times> bytes \<times> bytes) list"
  assumes contents_new: "contents (NewBatch B n) = []"
    and contents_add: "contents (Batch_Add B msg pk sg b) = contents b @ [(msg, pk, sg)]"
    and verify_batch: "contents b \<noteq> [] \<Longrightarrow>
        VerifyAsync B b = None \<longleftrightarrow> (\<forall>(msg, pk, sg)\<in>set (contents b). ed25519_Verify E msg pk sg)"

lemma length_pad [simp]: "length (pad n b) = n"
  by (simp add: pad_def)

lemma pad_pad [simp]: "pad n (pad n b) = pad n b"
  by (simp add: pad_def)

interpretation ref_signing: signing ref
  by unfold_locales (simp_all add: pad_def)

text \<open>A batch of the instance is the list of what it holds.\<close>

definition ref_batch :: "(bytes \<times> bytes \<times> bytes) list ed25519_batch" where
  "ref_batch = \<lparr>NewBatch = (\<lambda>n. []), Batch_Add = (\<lambda>msg pk sg b. b @ [(msg, pk, sg)]),
     VerifyAsync = (\<lambda>b. if b \<noteq> [] \<and> (\<forall>(msg, pk, sg)\<in>set b. ed25519_Verify ref msg pk sg) then None
        else Some ErrCryptoInvalidSignature)\<rparr>"

interpretation ref_batches: batch_verifier ref ref_batch "\<lambda>b. b"
  by unfold_locales (auto simp: ref_batch_def)

section \<open>Signing and the wire\<close>

context packer
begin

lemma ED25519_packs: "packs E (ED25519_Marshal E d) (ed_Signer d @ ed_Signature d)"
  unfolding ED25519_Marshal_def Let_def by (intro packs_comp packs_basic)

lemma ED25519_unpacks:
  assumes "length (ed_Signer d) = ed25519_PublicKeyLen E" "length (ed_Signature d) = ed25519_SignatureLen E"
    and "ed_addr d = EmptyAddress E"
  shows "unpacks E left (UnmarshalED25519 E) (Some d, None) (ed_Signer d @ ed_Signature d @ [])"
  unfolding UnmarshalED25519_def using assms
  by (intro unpacks_steps unpacks_return) simp_all

end

locale signed_wire = packer E left enc_u64 enc_int enc_bytes + signing E
  for E :: "('p, 'pk, 'sg, 'sk, 'x) crypto_scheme" and left :: "'p \<Rightarrow> bytes"
    and enc_u64 :: "u64 \<Rightarrow> bytes" and enc_int :: "i64 \<Rightarrow> bytes" and enc_bytes :: "bytes \<Rightarrow> bytes"
begin

lemma BLS_packs:
  "packs E (BLS_Marshal E b) (bls_PublicKeyToBytes E (bls_Signer b) @ bls_SignatureToBytes E (bls_Signature b))"
  unfolding BLS_Marshal_def Let_def by (intro packs_comp packs_basic)

lemma BLS_unpacks:
  assumes "BLSFactory_Sign E f msg = (Some b, e)"
  shows "unpacks E left (UnmarshalBLS E) (Some b, None)
    (bls_PublicKeyToBytes E (bls_Signer b) @ bls_SignatureToBytes E (bls_Signature b) @ [])"
proof -
  have b: "b = \<lparr>bls_Signer = bls_PublicFromPrivateKey E (bls_priv f), bls_Signature = bls_Sign E msg (bls_priv f),
      bls_addr = EmptyAddress E\<rparr>"
    using assms by (simp add: BLSFactory_Sign_def)
  show ?thesis
    unfolding UnmarshalBLS_def b by (intro unpacks_steps unpacks_return) (simp_all add: bls_lengths bls_parse)
qed

end

interpretation ref_wire: signed_wire ref rp_in be64 rp_enc_int rp_enc_bytes
  by unfold_locales

text \<open>
  C11: a message signed by a factory, of either scheme, marshalled and unmarshalled, is the same
  authentication: it verifies for the message, and both its actor and its sponsor, also when asked
  after one another, are the address of the factory.
\<close>

theorem signed_auth_over_wire:
  assumes "signed_wire E left enc_u64 enc_int enc_bytes"
    and "p = ED25519_Marshal E d (NewWriter E n lim)" "ED25519Factory_Sign E fe msg = (Some d, None)"
    and "packer_Err E p = None" "int (length (packer_Bytes E p)) \<le> lim'"
    and "q = BLS_Marshal E b (NewWriter E n lim)" "BLSFactory_Sign E fb msg = (Some b, None)"
    and "packer_Err E q = None" "int (length (packer_Bytes E q)) \<le> lim'"
  shows "fst (UnmarshalED25519 E (NewReader E (packer_Bytes E p) lim')) = (Some d, None)
    \<and> ED25519_Verify E d msg = None
    \<and> fst (ED25519_Actor E d) = ED25519Factory_Address E fe
    \<and> fst (ED25519_Sponsor E (snd (ED25519_Actor E d))) = ED25519Factory_Address E fe
    \<and> fst (UnmarshalBLS E (NewReader E (packer_Bytes E q) lim')) = (Some b, None)
    \<and> BLS_Verify E b msg = None
    \<and> fst (BLS_Actor E b) = BLSFactory_Address E fb
    \<and> fst (BLS_Sponsor E (snd (BLS_Actor E b))) = BLSFactory_Address E fb"
proof -
  have w: "packer E left enc_u64 enc_int enc_bytes" and s: "signing E"
    using assms(1) by (simp_all add: signed_wire_def)
  have d: "ed_Signer d = ed25519_PublicKey E (ed_priv fe)" "ed_Signature d = ed25519_Sign E msg (ed_priv fe)"
    "ed_addr d = EmptyAddress E"
    using assms(3) by (auto simp: ED25519Factory_Sign_def Let_def)
  have b: "bls_Signer b = bls_PublicFromPrivateKey E (bls_priv fb)" "bls_Signature b = bls_Sign E msg (bls_priv fb)"
    "bls_addr b = EmptyAddress E"
    using assms(7) by (auto simp: BLSFactory_Sign_def)
  have "\<exists>p'. UnmarshalED25519 E (NewReader E (packer_Bytes E p) lim') = ((Some d, None), p') \<and> packer_Err E p' = None"
    using packer.roundtrip [OF w packer.ED25519_packs [OF w] packer.ED25519_unpacks [OF w, of d, unfolded append_Nil2]]
      assms(2,4,5) d signing.ed_lengths [OF s] by simp
  moreover have "\<exists>p'. UnmarshalBLS E (NewReader E (packer_Bytes E q) lim') = ((Some b, None), p') \<and> packer_Err E p' = None"
    using packer.roundtrip [OF w signed_wire.BLS_packs [OF assms(1)]
        signed_wire.BLS_unpacks [OF assms(1) assms(7), unfolded append_Nil2]] assms(6,8,9) by simp
  moreover have "ED25519_Verify E d msg = None" "BLS_Verify E b msg = None"
    using signing.ed_verifies [OF s] signing.bls_verifies [OF s]
    by (simp_all add: ED25519_Verify_def BLS_Verify_def d b)
  ultimately show ?thesis
    by (auto simp: ED25519_Actor_def ED25519_Sponsor_def ED25519_address_def Let_def d ED25519Factory_Address_def
        BLS_Actor_def BLS_Sponsor_def BLS_address_def b BLSFactory_Address_def)
qed

definition demo_ed :: ED25519 where
  "demo_ed = \<lparr>ed_Signer = pad 32 [1, 2], ed_Signature = pad 64 (pad 32 [1, 2] @ [7]), ed_addr = make_bytes 33\<rparr>"

definition demo_bls :: "(bytes, bytes) BLS" where
  "demo_bls = \<lparr>bls_Signer = pad 48 [3], bls_Signature = pad 96 (pad 48 [3] @ [7]), bls_addr = make_bytes 33\<rparr>"

theorem signed_auth_over_wire_witness:
  "ED25519_Verify ref demo_ed [7] = None \<and> BLS_Verify ref demo_bls [7] = None
    \<and> fst (ED25519_Actor ref demo_ed) = 0 # pad 32 [1, 2] \<and> fst (BLS_Actor ref demo_bls) = 1 # pad 32 (pad 48 [3])"
proof -
  let ?p = "ED25519_Marshal ref demo_ed (NewWriter ref 200 300)" and ?q = "BLS_Marshal ref demo_bls (NewWriter ref 200 300)"
  have p: "packer_Err ref ?p = None" "int (length (packer_Bytes ref ?p)) \<le> 1000"
    by (simp_all add: ED25519_Marshal_def demo_ed_def rp_write_def r_writer_def)
  have q: "packer_Err ref ?q = None" "int (length (packer_Bytes ref ?q)) \<le> 1000"
    by (simp_all add: BLS_Marshal_def demo_bls_def rp_write_def r_writer_def)
  have d: "ED25519Factory_Sign ref (NewED25519Factory [1, 2]) [7] = (Some demo_ed, None)"
    and b: "BLSFactory_Sign ref (NewBLSFactory [3]) [7] = (Some demo_bls, None)"
    by (simp_all add: ED25519Factory_Sign_def NewED25519Factory_def demo_ed_def BLSFactory_Sign_def
        NewBLSFactory_def demo_bls_def)
  show ?thesis
    using signed_auth_over_wire [OF ref_wire.signed_wire_axioms refl d p refl b q]
    by (simp add: ED25519Factory_Address_def NewED25519Address_def Ed25519ID_def NewED25519Factory_def
        BLSFactory_Address_def NewBLSAddress_def BLSID_def NewBLSFactory_def)
qed

section \<open>The batch verifier\<close>

text \<open>All signatures of a block, added one after the other; the jobs in the order they are returned.\<close>

fun add_all ::
    "'b ed25519_batch \<Rightarrow> (bytes \<times> ED25519) list \<Rightarrow> ED25519Batch \<times> 'b list \<Rightarrow> nat list res \<times> (ED25519Batch \<times> 'b list)" where
  "add_all B [] s = (Ok [], s)"
| "add_all B ((msg, a) # rest) s =
     go_bind (ED25519Batch_Add B msg (AuthED25519 a :: (unit, unit) Auth)) (\<lambda>job.
     go_bind (add_all B rest) (\<lambda>jobs. go_return (case job of None \<Rightarrow> jobs | Some p \<Rightarrow> p # jobs))) s"

definition entry :: "bytes \<times> ED25519 \<Rightarrow> bytes \<times> bytes \<times> bytes" where
  "entry x = (fst x, ed_Signer (snd x), ed_Signature (snd x))"

text \<open>
  After the signatures \<open>xs\<close> of \<open>n\<close>, with the jobs \<open>js\<close> returned: the batches of the jobs and the
  batch being filled hold the signatures in order. The batch being filled is a job itself only when
  all signatures are there.
\<close>

fun batch_inv ::
    "('b \<Rightarrow> (bytes \<times> bytes \<times> bytes) list) \<Rightarrow> nat \<Rightarrow> (bytes \<times> bytes \<times> bytes) list \<Rightarrow> nat list
      \<Rightarrow> ED25519Batch \<times> 'b list \<Rightarrow> bool" where
  "batch_inv contents n xs js (b, h) \<longleftrightarrow>
     eb_total b = of_nat n \<and> eb_totalCounter b = of_nat (length xs) \<and> length xs \<le> n
     \<and> (\<forall>q\<in>set js. q < length h \<and> contents (h ! q) \<noteq> [])
     \<and> (case eb_batch b of None \<Rightarrow> xs = [] \<and> js = []
        | Some p \<Rightarrow> p < length h \<and>
          (if p \<in> set js then length xs = n \<and> concat (map (\<lambda>q. contents (h ! q)) js) = xs
           else concat (map (\<lambda>q. contents (h ! q)) js) @ contents (h ! p) = xs
             \<and> (contents (h ! p) = [] \<longrightarrow> length xs < n)))"

lemma sint_of_nat_i64: "k < 2 ^ 63 \<Longrightarrow> sint (of_nat k :: i64) = int k"
  by (simp add: signed_of_nat signed_take_bit_int_eq_self)

context batch_verifier
begin

lemma new_batch_inv:
  assumes "batch_inv contents n xs js (b, h)" "eb_batch b = None" "0 < n"
  shows "batch_inv contents n xs js (new_batch B (b, h))"
  using assms by (simp add: contents_new nth_append)

text \<open>The heap after a signature was added to the current batch \<open>p\<close>.\<close>

lemma added:
  assumes "batch_inv contents n xs js (b, h)" "eb_batch b = Some p" "length xs < n"
    and h': "h' = h[p := Batch_Add B msg (ed_Signer a) (ed_Signature a) (h ! p)]"
  shows "p < length h" "p \<notin> set js" "\<forall>q\<in>set js. h' ! q = h ! q"
    and "\<forall>q\<in>set js. q < length h' \<and> contents (h' ! q) \<noteq> []" "contents (h' ! p) \<noteq> []"
    and "concat (map (\<lambda>q. contents (h' ! q)) js) @ contents (h' ! p) = xs @ [entry (msg, a)]"
proof -
  show cur: "p < length h" "p \<notin> set js" using assms(1-3) by (auto split: if_splits)
  show same: "\<forall>q\<in>set js. h' ! q = h ! q" unfolding h' using cur(2) by (metis nth_list_update_neq)
  then show "\<forall>q\<in>set js. q < length h' \<and> contents (h' ! q) \<noteq> []" using assms(1-3) by (auto simp: h' split: if_splits)
  have new: "contents (h' ! p) = contents (h ! p) @ [entry (msg, a)]"
    using cur(1) by (simp add: h' contents_add entry_def)
  then show "contents (h' ! p) \<noteq> []" by simp
  have "concat (map (\<lambda>q. contents (h ! q)) js) @ contents (h ! p) = xs"
    using assms(1-3) by (auto split: if_splits)
  moreover have "map (\<lambda>q. contents (h' ! q)) js = map (\<lambda>q. contents (h ! q)) js" using same by simp
  ultimately show "concat (map (\<lambda>q. contents (h' ! q)) js) @ contents (h' ! p) = xs @ [entry (msg, a)]"
    by (simp only: new) simp
qed

text \<open>A full batch is handed out and, when more signatures are to come, a new one is started.\<close>

lemma next_batch_inv:
  assumes "batch_inv contents n xs js (b, h)" "eb_batch b = Some p" "Suc (length xs) < n"
    and h': "h' = h[p := Batch_Add B msg (ed_Signer a) (ed_Signature a) (h ! p)]"
  shows "batch_inv contents n (xs @ [entry (msg, a)]) (js @ [p])
    (new_batch B (b\<lparr>eb_totalCounter := eb_totalCounter b + 1, eb_counter := 0\<rparr>, h'))"
proof -
  note h = added [OF assms(1,2) _ h']
  have len: "length h' = length h" by (simp add: h')
  have fresh: "length h \<notin> set js" "length h \<noteq> p" using h(1,4) assms(3) len by auto
  have "concat (map (\<lambda>q. contents ((h' @ [z]) ! q)) js) = concat (map (\<lambda>q. contents (h' ! q)) js)" for z
    by (rule arg_cong [where f = concat]) (use h(4) assms(3) in \<open>simp add: nth_append\<close>)
  moreover have "(h' @ [z]) ! p = h' ! p" "(h' @ [z]) ! length h = z" for z
    using h(1) assms(3) len by (simp_all add: nth_append)
  moreover have "\<forall>q\<in>set js. q < Suc (length h) \<and> contents ((h' @ [z]) ! q) \<noteq> []" for z
    using h(4) assms(3) len by (auto simp: nth_append)
  ultimately show ?thesis
    using assms(1,3) h(1,5,6) fresh len by (simp add: contents_new)
qed

lemma add_signature_inv:
  assumes inv: "batch_inv contents n xs js (b, h)" and p: "eb_batch b = Some p"
    and n: "length xs < n" "n < 2 ^ 63" and run: "add_signature B msg a (b, h) = (r, s')"
  shows "\<exists>job. r = Ok job \<and> batch_inv contents n (xs @ [entry (msg, a)]) (js @ (case job of None \<Rightarrow> [] | Some q \<Rightarrow> [q])) s'
    \<and> (\<forall>q\<in>set js. snd s' ! q = h ! q)"
proof -
  let ?h = "h[p := Batch_Add B msg (ed_Signer a) (ed_Signature a) (h ! p)]"
  let ?b = "b\<lparr>eb_totalCounter := eb_totalCounter b + 1, eb_counter := 0\<rparr>"
  note h = added [OF inv p n(1) refl]
  have "eb_totalCounter b + 1 = of_nat (Suc (length xs))" "eb_total b = of_nat n" using inv by simp_all
  then have less: "sint (eb_totalCounter b + 1) < sint (eb_total b) \<longleftrightarrow> Suc (length xs) < n"
    using n by (simp add: sint_of_nat_i64 del: of_nat_Suc)
  consider (more) "eb_counter b + 1 = eb_batchSize b" "Suc (length xs) < n"
    | (last) "eb_counter b + 1 = eb_batchSize b" "\<not> Suc (length xs) < n"
    | (room) "eb_counter b + 1 \<noteq> eb_batchSize b" by blast
  then show ?thesis
  proof cases
    case more
    have "r = Ok (Some p)" "s' = new_batch B (?b, ?h)" using run p more less by (simp_all add: Let_def)
    moreover have "\<forall>q\<in>set js. (?h @ [z]) ! q = h ! q" for z using h(3,4) by (simp add: nth_append)
    ultimately show ?thesis
      using next_batch_inv [OF inv p more(2) refl] by (intro exI [of _ "Some p"]) (simp del: batch_inv.simps)
  next
    case last
    have "r = Ok (Some p)" "s' = (?b, ?h)" using run p last less by (simp_all add: Let_def)
    moreover have "batch_inv contents n (xs @ [entry (msg, a)]) (js @ [p]) (?b, ?h)"
      using inv h(1,4-6) last(2) n p by auto
    ultimately show ?thesis using h(3) by (intro exI [of _ "Some p"]) (simp del: batch_inv.simps)
  next
    case room
    let ?c = "b\<lparr>eb_counter := eb_counter b + 1, eb_totalCounter := eb_totalCounter b + 1\<rparr>"
    have "r = Ok None" "s' = (?c, ?h)" using run p room by (simp_all add: Let_def)
    moreover have "batch_inv contents n (xs @ [entry (msg, a)]) js (?c, ?h)"
      using inv h(1,2,4-6) n p by auto
    ultimately show ?thesis using h(3) by (intro exI [of _ None]) (simp del: batch_inv.simps)
  qed
qed

text \<open>Adding one signature before all are there.\<close>

lemma Add_inv:
  assumes inv: "batch_inv contents n xs js s" and n: "length xs < n" "n < 2 ^ 63"
    and run: "ED25519Batch_Add B msg (AuthED25519 a :: ('u, 'v) Auth) s = (r, s')"
  shows "\<exists>job. r = Ok job \<and> batch_inv contents n (xs @ [entry (msg, a)]) (js @ (case job of None \<Rightarrow> [] | Some q \<Rightarrow> [q])) s'
    \<and> (\<forall>q\<in>set js. snd s' ! q = snd s ! q)"
proof -
  obtain b h where s: "s = (b, h)" by (cases s)
  show ?thesis
  proof (cases "eb_batch b")
    case None
    have "js = []" using inv None by (simp add: s)
    moreover have "\<exists>job. r = Ok job \<and> batch_inv contents n (xs @ [entry (msg, a)]) (js @ (case job of None \<Rightarrow> [] | Some q \<Rightarrow> [q])) s'"
      using add_signature_inv [OF _ _ n, where b = "b\<lparr>eb_batch := Some (length h)\<rparr>" and p = "length h"
          and h = "h @ [NewBatch B (eb_batchSize b)]" and js = js and r = r and s' = s' and msg = msg and a = a]
        new_batch_inv [of n xs js b h] inv run n None
      by (auto simp: ED25519Batch_Add_def s simp del: batch_inv.simps add_signature.simps)
    ultimately show ?thesis by simp
  next
    case (Some p)
    show ?thesis
      using add_signature_inv [OF inv [unfolded s] Some n, of msg a r s'] run Some
      by (simp add: ED25519Batch_Add_def s del: batch_inv.simps add_signature.simps)
  qed
qed

text \<open>Adding several: the jobs already returned keep their batches.\<close>

lemma add_all_inv:
  assumes "batch_inv contents n xs js s" "length xs + length sigs \<le> n" "n < 2 ^ 63"
    and "add_all B sigs s = (r, s')"
  shows "\<exists>jobs. r = Ok jobs \<and> batch_inv contents n (xs @ map entry sigs) (js @ jobs) s'
    \<and> (\<forall>q\<in>set js. snd s' ! q = snd s ! q)"
  using assms
proof (induction sigs arbitrary: xs js s r s')
  case (Cons x sigs)
  obtain msg a where x: "x = (msg, a)" by (cases x)
  obtain r1 s1 where add: "ED25519Batch_Add B msg (AuthED25519 a :: (unit, unit) Auth) s = (r1, s1)"
    by (cases "ED25519Batch_Add B msg (AuthED25519 a :: (unit, unit) Auth) s")
  obtain job where r1: "r1 = Ok job"
    and inv1: "batch_inv contents n (xs @ [entry x]) (js @ (case job of None \<Rightarrow> [] | Some q \<Rightarrow> [q])) s1"
    and keep1: "\<forall>q\<in>set js. snd s1 ! q = snd s ! q"
    using Add_inv [OF Cons.prems(1) _ Cons.prems(3) add] Cons.prems(2) by (auto simp: x simp del: batch_inv.simps)
  obtain r2 s2 where rest: "add_all B sigs s1 = (r2, s2)" by (cases "add_all B sigs s1")
  obtain jobs where r2: "r2 = Ok jobs"
    and inv2: "batch_inv contents n ((xs @ [entry x]) @ map entry sigs) ((js @ (case job of None \<Rightarrow> [] | Some q \<Rightarrow> [q])) @ jobs) s2"
    and keep2: "\<forall>q\<in>set (js @ (case job of None \<Rightarrow> [] | Some q \<Rightarrow> [q])). snd s2 ! q = snd s1 ! q"
    using Cons.IH [OF inv1 _ Cons.prems(3) rest] Cons.prems(2) by (auto simp del: batch_inv.simps)
  have run: "r = Ok ((case job of None \<Rightarrow> [] | Some q \<Rightarrow> [q]) @ jobs)" "s' = s2"
    using Cons.prems(4) by (auto simp: x go_bind_def add r1 rest r2 go_return_def split: option.splits)
  then show ?case using inv2 keep1 keep2 by (simp del: batch_inv.simps)
qed (auto simp del: batch_inv.simps)

text \<open>When all signatures are there, the jobs together with the one of \<open>Done\<close> cover them.\<close>

lemma batch_inv_done:
  assumes "batch_inv contents n xs js (b, h)" "length xs = n" "0 < n"
  shows "(\<forall>q\<in>set (js @ ED25519Batch_Done b). VerifyAsync B (h ! q) = None)
    \<longleftrightarrow> (\<forall>(msg, pk, sg)\<in>set xs. ed25519_Verify E msg pk sg)"
proof -
  obtain p where p: "eb_batch b = Some p" using assms by (cases "eb_batch b") auto
  let ?all = "js @ [p]"
  have ne: "\<forall>q\<in>set ?all. contents (h ! q) \<noteq> []"
    using assms p by (auto split: if_splits)
  have "(\<Union>q\<in>set ?all. set (contents (h ! q))) = set xs"
    using assms(1) p by (auto split: if_splits)
  moreover have "(\<forall>q\<in>set ?all. VerifyAsync B (h ! q) = None)
      \<longleftrightarrow> (\<forall>x\<in>(\<Union>q\<in>set ?all. set (contents (h ! q))). case x of (msg, pk, sg) \<Rightarrow> ed25519_Verify E msg pk sg)"
    using ne by (simp only: ball_UN) (rule ball_cong [OF refl], rule verify_batch, erule bspec)
  ultimately show ?thesis by (simp add: ED25519Batch_Done_def p)
qed

end

text \<open>
  C10: the batch verifier neither loses nor invents a signature: for a block of \<open>n\<close> ED25519 signatures
  added one after the other, \<open>Add\<close> never panics, and the functions that \<open>Add\<close> and \<open>Done\<close> returned
  succeed together exactly when every single signature verifies; the batch behind a function that
  was returned along the way is not changed by later additions, so it does not matter when the
  functions run. With no cores the verifier cannot be made: the division panics.
\<close>

theorem batch_verifies_exactly:
  assumes "batch_verifier E B contents" "GetBatchVerifier E cores (of_nat n) = Ok b"
    and "length (first @ rest) = n" "0 < n" "n < 2 ^ 63"
    and "add_all B first (b, h) = (r1, s1)" "add_all B rest s1 = (r2, (b', h'))"
  shows "(\<exists>js1 js2. r1 = Ok js1 \<and> r2 = Ok js2
      \<and> (\<forall>q\<in>set js1. snd s1 ! q = h' ! q)
      \<and> (\<forall>q\<in>set (js1 @ js2 @ ED25519Batch_Done b'). VerifyAsync B (h' ! q) = None)
        = (\<forall>(msg, a)\<in>set (first @ rest). ED25519_Verify E a msg = None))
    \<and> GetBatchVerifier E 0 (of_nat n) = Panic DivideByZero"
proof -
  note B = batch_verifier.add_all_inv [OF assms(1) _ _ assms(5)]
  have "batch_inv contents n [] [] (b, h)"
    using assms(2) by (auto simp: GetBatchVerifier_def Let_def split: if_splits)
  from B [OF this _ assms(6)] obtain js1 where 1: "r1 = Ok js1" "batch_inv contents n (map entry first) js1 s1"
    using assms(3) by (auto simp del: batch_inv.simps)
  from B [OF 1(2) _ assms(7)] obtain js2 where 2: "r2 = Ok js2"
    "batch_inv contents n (map entry (first @ rest)) (js1 @ js2) (b', h')" "\<forall>q\<in>set js1. h' ! q = snd s1 ! q"
    using assms(3) by (auto simp del: batch_inv.simps)
  have "(\<forall>q\<in>set ((js1 @ js2) @ ED25519Batch_Done b'). VerifyAsync B (h' ! q) = None)
      = (\<forall>(msg, pk, sg)\<in>set (map entry (first @ rest)). ed25519_Verify E msg pk sg)"
    by (rule batch_verifier.batch_inv_done [OF assms(1) 2(2)]) (use assms(3,4) in simp_all)
  moreover have "(case entry x of (msg, pk, sg) \<Rightarrow> ed25519_Verify E msg pk sg)
      = (case x of (msg, a) \<Rightarrow> ED25519_Verify E a msg = None)" for x
    by (simp add: entry_def ED25519_Verify_def split_def)
  ultimately have "(\<forall>q\<in>set (js1 @ js2 @ ED25519Batch_Done b'). VerifyAsync B (h' ! q) = None)
      = (\<forall>(msg, a)\<in>set (first @ rest). ED25519_Verify E a msg = None)"
    by (simp only: append_assoc set_map ball_simps)
  then show ?thesis
    using 1(1) 2(1,3) by (simp add: GetBatchVerifier_def)
qed

text \<open>Seventeen signatures on four cores: one full batch of sixteen, and one more.\<close>

definition demo_block :: "(bytes \<times> ED25519) list" where
  "demo_block = replicate 17 ([7], demo_ed)"

theorem batch_verifies_exactly_witness:
  "\<exists>b r s'. GetBatchVerifier ref 4 17 = Ok b \<and> add_all ref_batch demo_block (b, []) = (r, s')
     \<and> (\<exists>js. r = Ok js \<and> (\<forall>q\<in>set (js @ ED25519Batch_Done (fst s')). VerifyAsync ref_batch (snd s' ! q) = None))"
proof -
  obtain b where b: "GetBatchVerifier ref 4 (of_nat 17) = Ok b"
    by (simp add: GetBatchVerifier_def)
  obtain r b' h' where run: "add_all ref_batch demo_block (b, []) = (r, (b', h'))"
    by (cases "add_all ref_batch demo_block (b, [])" rule: prod.exhaust) (metis prod.exhaust)
  have "ED25519_Verify ref demo_ed [7] = None"
    by (simp add: ED25519_Verify_def demo_ed_def)
  then have "\<forall>(msg, a)\<in>set demo_block. ED25519_Verify ref a msg = None"
    by (simp add: demo_block_def)
  then show ?thesis
    using batch_verifies_exactly [OF ref_batches.batch_verifier_axioms b, where first = demo_block and rest = "[]"] b run
    by (auto simp: demo_block_def)
qed

end
