(* ===== verification/Seq_Rpc.thy ===== *)
theory Seq_Rpc
  imports Seq_Controller Seq_Auth Seq_U256 "HOL-Library.Multiset"
begin

text \<open>
  \<open>src/rpc/jsonrpc_server.go\<close>: the JSON-RPC handlers. A handler works on its reply, which it fills
  before it returns; the state of a handler is the reply. Shown: the transactions of a block by
  namespace are those of the block filtered by namespace; the listing of all rollups lists every
  registered rollup under its start epoch without a nil dereference; the fee of a submitted message
  is the exact sum when that fits in 64 bits.
\<close>

section \<open>Reply and argument types\<close>

record GenesisReply =
  gr_Genesis :: "Genesis option"

record SubmitMsgTxArgs =
  sa_ChainID :: string
  sa_NetworkID :: u32
  sa_SecondaryChainID :: bytes
  sa_Data :: "bytes list"

record SubmitMsgTxReply =
  sr_TxID :: string

record TxArgs =
  ta_TxID :: ID

record TxReply =
  txr_Timestamp :: i64
  txr_Success :: bool
  txr_Units :: "u64 list"
  txr_Fee :: u64

record BalanceArgs =
  ba_Address :: string

record BalanceReply =
  br_Amount :: u64

record SEQTransaction =
  st_Namespace :: string
  st_TxID :: string
  st_Index :: u64
  st_Transaction :: bytes

record SEQTransactionResponse =
  sq_Txs :: "SEQTransaction list"
  sq_BlockID :: string

record GetBlockTransactionsArgs =
  gt_ID :: string

record GetBlockTransactionsByNamespaceArgs =
  gn_Height :: u64
  gn_Namespace :: string

record EpochExitsArgs =
  ee_Epoch :: u64

record EpochExitsReply =
  er_Info :: "EpochExitInfo option"

record GetBuilderArgs =
  gb_Epoch :: u64

record GetBuilderReply =
  gb_BuilderPubKey :: "bytes option"

record RegistryReply =
  rp_Namespaces :: "bytes list"

record GetRollupInfoArgs =
  gi_Namespace :: bytes

record GetRollupInfoReply =
  gi_Info :: RollupInfo

text \<open>A Go map of slices: a missing key reads as the empty slice.\<close>

record GetAllRollupInfoReply =
  ga_Info :: "u64 \<Rightarrow> RollupInfo list option"

record GetRollupsInfoAtEpochArgs =
  gv_Epoch :: u64

record GetRollupsInfoAtEpochReply =
  gv_Rollups :: "RollupInfo list"

section \<open>The endpoint and the parser of the server\<close>

definition JSONRPCEndpoint :: string where "JSONRPCEndpoint = ''/seqapi''"

record ServerParser =
  sp_networkID :: u32
  sp_chainID :: ID
  sp_genesis :: Genesis

definition ServerParser_ChainID :: "ServerParser \<Rightarrow> ID" where
  "ServerParser_ChainID p = sp_chainID p"

definition ServerParser_Rules :: "ServerParser \<Rightarrow> i64 \<Rightarrow> Rules" where
  "ServerParser_Rules p t = Genesis_Rules (sp_genesis p) t (sp_networkID p) (sp_chainID p) []"

definition JSONRPCServer_ServerParser :: "('f, 'k, 'd) Controller \<Rightarrow> u32 \<Rightarrow> ID \<Rightarrow> ServerParser" where
  "JSONRPCServer_ServerParser c networkID chainID =
     (let g = Controller_Genesis c in \<lparr>sp_networkID = networkID, sp_chainID = chainID, sp_genesis = g\<rparr>)"

section \<open>Handlers\<close>

definition reply_set :: "('r \<Rightarrow> 'r) \<Rightarrow> ('r, unit) go" where
  "reply_set f = (\<lambda>reply. (Ok (), f reply))"

definition JSONRPCServer_Genesis :: "('f, 'k, 'd) Controller \<Rightarrow> (GenesisReply, unit) go" where
  "JSONRPCServer_Genesis c = reply_set (\<lambda>reply. reply\<lparr>gr_Genesis := Some (Controller_Genesis c)\<rparr>)"

definition JSONRPCServer_Tx ::
    "'x sdk_scheme \<Rightarrow> ('k, 'b) kvdb \<Rightarrow> ('f, 'k, 'd) Controller \<Rightarrow> TxArgs \<Rightarrow> (TxReply, unit) go" where
  "JSONRPCServer_Tx E D c args =
     go_bind (go_lift (Controller_GetTransaction E D c (ta_TxID args))) (\<lambda>r.
     case r of
       None \<Rightarrow> go_error ErrTxNotFound
     | Some (t, success, units, fee) \<Rightarrow>
         reply_set (\<lambda>reply. reply\<lparr>txr_Timestamp := t, txr_Success := success, txr_Units := units, txr_Fee := fee\<rparr>))"

definition JSONRPCServer_Balance :: "'x sdk_scheme \<Rightarrow> 'tx vm \<Rightarrow> BalanceArgs \<Rightarrow> (BalanceReply, unit) go" where
  "JSONRPCServer_Balance E V args =
     go_bind (go_lift (of_sum (ParseAddressBech32 E HRP (ba_Address args)))) (\<lambda>addr.
     go_bind (go_lift (Controller_GetBalanceFromState E V addr)) (\<lambda>balance.
     reply_set (\<lambda>reply. reply\<lparr>br_Amount := balance\<rparr>)))"

definition copy_headers :: "BlockHeadersResponse \<Rightarrow> BlockHeadersResponse \<Rightarrow> BlockHeadersResponse" where
  "copy_headers headers reply =
     reply\<lparr>hr_From := hr_From headers, hr_Blocks := hr_Blocks headers, hr_Prev := hr_Prev headers, hr_Next := hr_Next headers\<rparr>"

definition JSONRPCServer_GetBlockHeadersByHeight ::
    "('d, 't) gorm \<Rightarrow> ('f, 'k, 'd) Controller \<Rightarrow> GetBlockHeadersByHeightArgs \<Rightarrow> (BlockHeadersResponse, unit) go" where
  "JSONRPCServer_GetBlockHeadersByHeight G c args =
     go_bind (go_lift (GetBlockHeadersByHeight G (Controller_Archiver c) args)) (\<lambda>headers. reply_set (copy_headers headers))"

definition JSONRPCServer_GetBlockHeadersID ::
    "('d, 't) gorm \<Rightarrow> ('f, 'k, 'd) Controller \<Rightarrow> GetBlockHeadersIDArgs \<Rightarrow> (BlockHeadersResponse, unit) go" where
  "JSONRPCServer_GetBlockHeadersID G c args =
     go_bind (go_lift (GetBlockHeadersByID G (Controller_Archiver c) args)) (\<lambda>headers. reply_set (copy_headers headers))"

definition JSONRPCServer_GetBlockHeadersByStartTimeStamp ::
    "('d, 't) gorm \<Rightarrow> ('f, 'k, 'd) Controller \<Rightarrow> GetBlockHeadersByStartTimeStampArgs \<Rightarrow> (BlockHeadersResponse, unit) go" where
  "JSONRPCServer_GetBlockHeadersByStartTimeStamp G c args =
     go_bind (go_lift (GetBlockHeadersAfterTimestamp G (Controller_Archiver c) args)) (\<lambda>headers. reply_set (copy_headers headers))"

text \<open>\<open>hex.EncodeToString\<close>.\<close>

definition hex_EncodeToString :: "bytes \<Rightarrow> string" where
  "hex_EncodeToString bs = concat (map (\<lambda>b. [hex_digit (unat b div 16), hex_digit (unat b mod 16)]) bs)"

text \<open>The loops over the actions of a transaction (with their index) and over the transactions;
  \<open>skip\<close> is the condition of the \<open>continue\<close>.\<close>

fun seq_actions ::
    "('p, 'x) hactions_scheme \<Rightarrow> (string \<Rightarrow> bool) \<Rightarrow> string \<Rightarrow> nat \<Rightarrow> Action list \<Rightarrow> (SEQTransactionResponse, unit) go" where
  "seq_actions E skip txid k [] = go_return ()"
| "seq_actions E skip txid k (action # rest) =
     go_bind (if Action_GetTypeID E action = MsgID then
         (let ns = hex_EncodeToString (Action_NMTNamespace action) in
          if skip ns then go_return ()
          else (case action of
              ASequencerMsg m \<Rightarrow> reply_set (\<lambda>reply. reply\<lparr>sq_Txs := sq_Txs reply @
                [\<lparr>st_Namespace = ns, st_TxID = txid, st_Index = of_nat k, st_Transaction = sm_Data m\<rparr>]\<rparr>)
            | _ \<Rightarrow> go_panic TypeAssertion))
       else go_return ()) (\<lambda>_.
     seq_actions E skip txid (Suc k) rest)"

fun seq_txs ::
    "('p, 'x) hactions_scheme \<Rightarrow> 'q chain \<Rightarrow> (string \<Rightarrow> bool) \<Rightarrow> Transaction list \<Rightarrow> (SEQTransactionResponse, unit) go" where
  "seq_txs E C skip [] = go_return ()"
| "seq_txs E C skip (tx # txs) =
     go_bind (seq_actions E skip (ID_String C (tx_ID tx)) 0 (tx_Actions tx)) (\<lambda>_. seq_txs E C skip txs)"

definition JSONRPCServer_GetBlockTransactions ::
    "('p, 'x) hactions_scheme \<Rightarrow> ServerParser chain \<Rightarrow> ('d, 't) gorm \<Rightarrow> ('f, 'k, 'd) Controller \<Rightarrow> GetBlockTransactionsArgs
      \<Rightarrow> (SEQTransactionResponse, unit) go" where
  "JSONRPCServer_GetBlockTransactions E C G c args =
     go_bind (go_guard (\<not> gt_ID args = []) (Errorf ''block id not provided'' [])) (\<lambda>_.
     let parser = JSONRPCServer_ServerParser c (Controller_NetworkID c) (Controller_ChainID c) in
     go_bind (go_lift (GetBlockByID C G (Controller_Archiver c) (gt_ID args) parser)) (\<lambda>blk.
     go_bind (seq_txs E C (\<lambda>ns. False) (sfb_Txs blk)) (\<lambda>_.
     reply_set (\<lambda>reply. reply\<lparr>sq_BlockID := gt_ID args\<rparr>))))"

definition JSONRPCServer_GetCommitmentBlocks ::
    "ServerParser chain \<Rightarrow> ('d, 't) gorm \<Rightarrow> 'h keccak \<Rightarrow> ('f, 'k, 'd) Controller \<Rightarrow> GetBlockCommitmentArgs
      \<Rightarrow> (SequencerWarpBlockResponse, unit) go" where
  "JSONRPCServer_GetCommitmentBlocks C G K c args =
     (let parser = JSONRPCServer_ServerParser c (Controller_NetworkID c) (Controller_ChainID c) in
      go_bind (go_lift (GetCommitmentBlocks C G K (Controller_Archiver c) args parser)) (\<lambda>warpResp.
      reply_set (\<lambda>reply. reply\<lparr>wr_Blocks := wr_Blocks warpResp\<rparr>)))"

definition JSONRPCServer_GetBlockTransactionsByNamespace ::
    "('p, 'x) hactions_scheme \<Rightarrow> ServerParser chain \<Rightarrow> ('d, 't) gorm \<Rightarrow> ('f, 'k, 'd) Controller
      \<Rightarrow> GetBlockTransactionsByNamespaceArgs \<Rightarrow> (SEQTransactionResponse, unit) go" where
  "JSONRPCServer_GetBlockTransactionsByNamespace E C G c args =
     (let parser = JSONRPCServer_ServerParser c (Controller_NetworkID c) (Controller_ChainID c) in
      go_bind (go_lift (GetBlockByHeight C G (Controller_Archiver c) (gn_Height args) parser)) (\<lambda>blk.
      go_bind (go_lift (of_sum (StatefulBlock_ID C blk))) (\<lambda>blkID.
      go_bind (seq_txs E C (\<lambda>ns. gn_Namespace args \<noteq> ns) (sfb_Txs blk)) (\<lambda>_.
      reply_set (\<lambda>reply. reply\<lparr>sq_BlockID := ID_String C blkID\<rparr>)))))"

definition JSONRPCServer_GetEpochExits ::
    "('p, 'x) hactions_scheme \<Rightarrow> 'tx vm \<Rightarrow> EpochExitsArgs \<Rightarrow> (EpochExitsReply, unit) go" where
  "JSONRPCServer_GetEpochExits E V args =
     go_bind (go_lift (Controller_GetEpochExitsFromState E V (ee_Epoch args))) (\<lambda>info.
     reply_set (\<lambda>reply. reply\<lparr>er_Info := info\<rparr>))"

definition JSONRPCServer_GetBuilder ::
    "('p, 'x) hactions_scheme \<Rightarrow> 'tx vm \<Rightarrow> GetBuilderArgs \<Rightarrow> (GetBuilderReply, unit) go" where
  "JSONRPCServer_GetBuilder E V args =
     go_bind (go_lift (Controller_GetBuilderFromState E V (gb_Epoch args))) (\<lambda>builder.
     reply_set (\<lambda>reply. reply\<lparr>gb_BuilderPubKey := builder\<rparr>))"

definition JSONRPCServer_GetRollupRegistry :: "('p, 'x) hactions_scheme \<Rightarrow> 'tx vm \<Rightarrow> (RegistryReply, unit) go" where
  "JSONRPCServer_GetRollupRegistry E V =
     go_bind (go_lift (Controller_GetRollupRegistryFromState E V)) (\<lambda>namespaces.
     reply_set (\<lambda>reply. reply\<lparr>rp_Namespaces := namespaces\<rparr>))"

definition JSONRPCServer_GetRollupInfo ::
    "('p, 'x) hactions_scheme \<Rightarrow> 'tx vm \<Rightarrow> GetRollupInfoArgs \<Rightarrow> (GetRollupInfoReply, unit) go" where
  "JSONRPCServer_GetRollupInfo E V args =
     go_bind (go_lift (Controller_GetRollupInfoFromState E V (gi_Namespace args))) (\<lambda>info.
     case info of
       None \<Rightarrow> go_error (Errorf ''not such rollup in state'' [])
     | Some i \<Rightarrow> reply_set (\<lambda>reply. reply\<lparr>gi_Info := i\<rparr>))"

fun all_rollup_infos ::
    "('p, 'x) hactions_scheme \<Rightarrow> 'tx vm \<Rightarrow> bytes list \<Rightarrow> (GetAllRollupInfoReply, unit) go" where
  "all_rollup_infos E V [] = go_return ()"
| "all_rollup_infos E V (ns # rest) =
     go_bind (go_lift (Controller_GetRollupInfoFromState E V ns)) (\<lambda>p.
     go_bind (go_deref p) (\<lambda>info.
     go_bind (reply_set (\<lambda>reply.
       let l = (case ga_Info reply (ri_StartEpoch info) of None \<Rightarrow> [] | Some l \<Rightarrow> l);
           l = l @ [info] in
       reply\<lparr>ga_Info := (ga_Info reply)(ri_StartEpoch info \<mapsto> l)\<rparr>)) (\<lambda>_.
     all_rollup_infos E V rest)))"

definition JSONRPCServer_GetAllRollupInfo ::
    "('p, 'x) hactions_scheme \<Rightarrow> 'tx vm \<Rightarrow> (GetAllRollupInfoReply, unit) go" where
  "JSONRPCServer_GetAllRollupInfo E V =
     go_bind (go_lift (Controller_GetRollupRegistryFromState E V)) (\<lambda>namespaces.
     go_bind (reply_set (\<lambda>reply. reply\<lparr>ga_Info := Map.empty\<rparr>)) (\<lambda>_.
     all_rollup_infos E V namespaces))"

definition JSONRPCServer_GetValidRollupsAtEpoch ::
    "('p, 'x) hactions_scheme \<Rightarrow> ID list \<Rightarrow> ('f, 'k, 'd) Controller \<Rightarrow> GetRollupsInfoAtEpochArgs
      \<Rightarrow> (GetRollupsInfoAtEpochReply, unit) go" where
  "JSONRPCServer_GetValidRollupsAtEpoch E order c args =
     reply_set (\<lambda>reply. reply\<lparr>gv_Rollups := RollupsValidAtEpoch E order (Controller_RollupRegistry c) (gv_Epoch args)\<rparr>)"

definition JSONRPCServer_GetAcceptedBlockWindow :: "i64 \<Rightarrow> (i64, unit) go" where
  "JSONRPCServer_GetAcceptedBlockWindow window = reply_set (\<lambda>_. Controller_GetAcceptedBlockWindow window)"

section \<open>Submitting a message\<close>

text \<open>\<open>chain.Base\<close> of the SDK.\<close>

record Base =
  bs_Timestamp :: i64
  bs_ChainID :: ID
  bs_PriorityFee :: u64
  bs_MaxFee :: u64

text \<open>The code outside the repository that \<open>SubmitMsgTx\<close> calls: \<open>'tx\<close> is a transaction, \<open>'fac\<close> a factory of signatures. \<open>EstimateUnits\<close>
  returns the units of the fee market per namespace in the order in which the Go map is iterated,
  \<open>Now\<close> the two times the clock is read.\<close>

record ('fac, 'tx) submitter =
  sub_FromString :: "string \<Rightarrow> err + ID"
  LoadHex :: "string \<Rightarrow> err + bytes"
  GeneratePrivateKey :: "err + bytes"
  EstimateUnits :: "Rules \<Rightarrow> Action list \<Rightarrow> 'fac \<Rightarrow> err + (u64 list \<times> (string \<times> u64) list)"
  MulSum :: "u64 list \<Rightarrow> u64 list \<Rightarrow> err + u64"
  Now :: "i64 \<times> i64"
  UnixRMilli :: "i64 \<Rightarrow> i64 \<Rightarrow> i64"
  NewTx :: "Base \<Rightarrow> Action list \<Rightarrow> 'tx"
  tx_Sign :: "'tx \<Rightarrow> 'fac \<Rightarrow> err + 'tx"
  tx_Digest :: "'tx \<Rightarrow> err + bytes"
  tx_AuthVerify :: "'tx \<Rightarrow> bytes \<Rightarrow> err option"
  tx_StringID :: "'tx \<Rightarrow> string"
  tx_Bytes :: "'tx \<Rightarrow> bytes"

text \<open>The loop that adds the price of every namespace, without a check for overflow.\<close>

fun namespace_fees :: "u64 \<Rightarrow> (string \<times> u64) list \<Rightarrow> u64 list \<Rightarrow> u64 res" where
  "namespace_fees maxFee [] nsPrices = Ok maxFee"
| "namespace_fees maxFee ((ns, units) # rest) [] = Panic IndexOutOfRange"
| "namespace_fees maxFee ((ns, units) # rest) (price # prices) = namespace_fees (maxFee + price * units) rest prices"

text \<open>\<open>maxFee += (maxFee / 5)\<close>.\<close>

definition with_margin :: "u64 \<Rightarrow> u64" where
  "with_margin maxFee = maxFee + maxFee div 5"

definition msg_actions :: "Address \<Rightarrow> SubmitMsgTxArgs \<Rightarrow> Action list" where
  "msg_actions rsender args = map (\<lambda>data. ASequencerMsg
     \<lparr>sm_ChainID = sa_SecondaryChainID args, sm_Data = data, sm_FromAddress = rsender, sm_RelayerID = 0\<rparr>) (sa_Data args)"

definition server_key :: string where
  "server_key = ''323b1d8f4eed5f0da9da93071b034f2dce9d2d22692c172f3cb252a64ddfafd01b057de320297c29ad0c1f589ea216869cf1938d88c9fbd70d6748323dbf2fa7''"

definition SubmitMsgTx ::
    "('p, 'pk, 'sg, 'sk, 'x) crypto_scheme \<Rightarrow> 'tx vm \<Rightarrow> (ED25519Factory, 'tx) submitter \<Rightarrow> ('f, 'k, 'd) Controller \<Rightarrow> SubmitMsgTxArgs
      \<Rightarrow> (SubmitMsgTxReply, unit) go" where
  "SubmitMsgTx E V B c args =
     go_bind (go_lift (of_sum (sub_FromString B (sa_ChainID args)))) (\<lambda>chainID.
     go_bind (go_lift (of_sum (Controller_UnitPrices V))) (\<lambda>unitPrices.
     let parser = JSONRPCServer_ServerParser c (sa_NetworkID args) chainID in
     go_bind (go_lift (of_sum (LoadHex B server_key))) (\<lambda>priv.
     let factory = NewED25519Factory priv in
     go_bind (go_lift (of_sum (GeneratePrivateKey B))) (\<lambda>tpriv.
     let rsender = NewED25519Address E (ed25519_PublicKey E tpriv);
         acts = msg_actions rsender args in
     go_bind (go_lift (of_sum (EstimateUnits B (ServerParser_Rules parser (fst (Now B))) acts factory))) (\<lambda>(maxUnits, feeMarketUnits).
     go_bind (go_lift (of_sum (MulSum B unitPrices maxUnits))) (\<lambda>maxFee.
     let nss = map fst feeMarketUnits in
     go_bind (go_lift (of_sum (Controller_NameSpacesPrice V nss))) (\<lambda>nsPrices.
     go_bind (go_lift (namespace_fees maxFee feeMarketUnits nsPrices)) (\<lambda>maxFee.
     let maxFee = with_margin maxFee;
         now = snd (Now B);
         rules = ServerParser_Rules parser now;
         base = \<lparr>bs_Timestamp = UnixRMilli B now (GetValidityWindow rules), bs_ChainID = chainID, bs_PriorityFee = 0, bs_MaxFee = maxFee\<rparr>;
         tx = NewTx B base acts in
     go_bind (go_lift (case tx_Sign B tx factory of Inl e \<Rightarrow> Error (Wrap ''%w: failed to sign transaction'' [] e) | Inr tx \<Rightarrow> Ok tx)) (\<lambda>tx.
     go_bind (go_lift (of_sum (tx_Digest B tx))) (\<lambda>msg.
     go_bind (case tx_AuthVerify B tx msg of Some e \<Rightarrow> go_error e | None \<Rightarrow> go_return ()) (\<lambda>_.
     go_bind (reply_set (\<lambda>reply. reply\<lparr>sr_TxID := tx_StringID B tx\<rparr>)) (\<lambda>_.
     (case Controller_Submit V False [tx] of
        [] \<Rightarrow> go_panic IndexOutOfRange
      | Some e # _ \<Rightarrow> go_error e
      | None # _ \<Rightarrow> go_return ())))))))))))))"

section \<open>Transactions of a block\<close>

text \<open>The messages among the actions of a transaction, with their index.\<close>

fun message_of :: "string \<Rightarrow> nat \<times> Action \<Rightarrow> SEQTransaction option" where
  "message_of txid (k, ASequencerMsg m) = Some \<lparr>st_Namespace = hex_EncodeToString (sm_ChainID m), st_TxID = txid,
     st_Index = of_nat k, st_Transaction = sm_Data m\<rparr>"
| "message_of txid (k, _) = None"

definition tx_messages :: "'q chain \<Rightarrow> Transaction \<Rightarrow> SEQTransaction list" where
  "tx_messages C tx = List.map_filter (message_of (ID_String C (tx_ID tx))) (enumerate 0 (tx_Actions tx))"

definition block_messages :: "'q chain \<Rightarrow> Transaction list \<Rightarrow> SEQTransaction list" where
  "block_messages C txs = concat (map (tx_messages C) txs)"

text \<open>The types of the actions of the SDK are not that of a message.\<close>

definition msg_type_free :: "('p, 'x) hactions_scheme \<Rightarrow> bool" where
  "msg_type_free E \<longleftrightarrow> RollupRegisterID E \<noteq> MsgID \<and> EpochExitID E \<noteq> MsgID"

lemma seq_actions_run:
  assumes "msg_type_free E"
  shows "seq_actions E skip txid k acts reply = (Ok (), reply\<lparr>sq_Txs := sq_Txs reply @
     filter (\<lambda>t. \<not> skip (st_Namespace t)) (List.map_filter (message_of txid) (enumerate k acts))\<rparr>)"
proof (induction acts arbitrary: k reply)
  case (Cons a acts)
  have ids: "Action_GetTypeID E a = MsgID \<longleftrightarrow> (\<exists>m. a = ASequencerMsg m)"
    using assms by (cases a) (auto simp: msg_type_free_def Transfer_GetTypeID_def TransferID_def SequencerMsg_GetTypeID_def
        Auction_GetTypeID_def AuctionID_def MsgID_def RollupRegistration_GetTypeID_def EpochExit_GetTypeID_def)
  show ?case
    using ids by (cases a) (auto simp: Cons.IH reply_set_def go_bind_run SequencerMsg_NMTNamespace_def List.map_filter_simps Let_def)
qed (simp add: List.map_filter_simps)

lemma seq_txs_run:
  assumes "msg_type_free E"
  shows "seq_txs E C skip txs reply = (Ok (), reply\<lparr>sq_Txs := sq_Txs reply @
     filter (\<lambda>t. \<not> skip (st_Namespace t)) (block_messages C txs)\<rparr>)"
  by (induction txs arbitrary: reply)
    (simp_all add: block_messages_def tx_messages_def go_bind_run seq_actions_run [OF assms])

text \<open>
  C15: asking for the transactions of an archived block returns, in the order of the block, exactly the
  messages of its transactions with their data, index and namespace, and asking by height and
  namespace returns those of them that have the namespace; no handler panics on another action.
\<close>

theorem block_transactions_served:
  assumes "orm_up G rows db_ok" "db_ok (c_archiver c)" "b \<in> rows (c_archiver c)" "msg_type_free E"
    and "UnmarshalBlock C (b_Bytes b) (JSONRPCServer_ServerParser c (c_networkID c) (c_chainID c)) = Inr blk"
    and "StatefulBlock_ID C blk = Inr i" "b_BlockID b = ID_String C i" "b_BlockID b \<noteq> []"
  shows "JSONRPCServer_GetBlockTransactions E C G c \<lparr>gt_ID = b_BlockID b\<rparr> \<lparr>sq_Txs = [], sq_BlockID = []\<rparr>
      = (Ok (), \<lparr>sq_Txs = block_messages C (sfb_Txs blk), sq_BlockID = b_BlockID b\<rparr>)
    \<and> JSONRPCServer_GetBlockTransactionsByNamespace E C G c \<lparr>gn_Height = b_Height b, gn_Namespace = ns\<rparr> \<lparr>sq_Txs = [], sq_BlockID = []\<rparr>
      = (Ok (), \<lparr>sq_Txs = filter (\<lambda>t. st_Namespace t = ns) (block_messages C (sfb_Txs blk)), sq_BlockID = b_BlockID b\<rparr>)"
proof -
  note stored = orm_up.stored_block [OF assms(1-3)]
  note handlers = JSONRPCServer_GetBlockTransactions_def JSONRPCServer_GetBlockTransactionsByNamespace_def
    Controller_Archiver_def Controller_NetworkID_def Controller_ChainID_def
  show ?thesis
    using assms(5-8)
    by (simp add: handlers stored(1) [unfolded assms(7)] stored(2) Let_def go_bind_run seq_txs_run [OF assms(4)] reply_set_def eq_commute [of ns])
qed

definition demo_message :: SequencerMsg where
  "demo_message = \<lparr>sm_ChainID = [171, 1], sm_Data = [7, 8], sm_FromAddress = alice, sm_RelayerID = 0\<rparr>"

definition demo_server_chain :: "ServerParser chain" where
  "demo_server_chain = \<lparr>StatelessBlock_Marshal = (\<lambda>b. Inr (slb_Prnt b)),
     UnmarshalBlock = (\<lambda>b q. Inr \<lparr>sfb_Prnt = b, sfb_Txs = [demo_tx, \<lparr>tx_ID = [6],
       tx_Actions = [ARollupRegistration demo_registration, ASequencerMsg demo_message]\<rparr>]\<rparr>),
     StatefulBlock_ID = (\<lambda>b. Inr (0 # sfb_Prnt b)), ID_String = (\<lambda>i. map (\<lambda>x. CHR ''x'') i), ids_FromString = (\<lambda>s. Inr (map of_char s))\<rparr>"

theorem block_transactions_served_witness:
  "JSONRPCServer_GetBlockTransactionsByNamespace ref demo_server_chain list_gorm
      (demo_controller\<lparr>c_archiver := [demo_row ''xx'' 2]\<rparr>) \<lparr>gn_Height = 2, gn_Namespace = ''ab01''\<rparr> \<lparr>sq_Txs = [], sq_BlockID = []\<rparr>
    = (Ok (), \<lparr>sq_Txs = [\<lparr>st_Namespace = ''ab01'', st_TxID = ''x'', st_Index = 1, st_Transaction = [7, 8]\<rparr>], sq_BlockID = ''xx''\<rparr>)"
proof -
  let ?c = "demo_controller\<lparr>c_archiver := [demo_row ''xx'' 2]\<rparr>" and ?b = "demo_row ''xx'' 2"
  obtain blk where blk: "UnmarshalBlock demo_server_chain (b_Bytes ?b) (JSONRPCServer_ServerParser ?c (c_networkID ?c) (c_chainID ?c)) = Inr blk"
    "StatefulBlock_ID demo_server_chain blk = Inr [0, 9]"
    and msgs: "block_messages demo_server_chain (sfb_Txs blk)
      = [\<lparr>st_Namespace = ''ab01'', st_TxID = ''x'', st_Index = 1, st_Transaction = [7, 8]\<rparr>]"
    by (simp add: demo_server_chain_def demo_row_def block_messages_def tx_messages_def demo_tx_def demo_message_def
        List.map_filter_simps hex_EncodeToString_def hex_digit_def)
  have ok: "list_ok (c_archiver ?c)" "?b \<in> set (c_archiver ?c)" by (simp_all add: list_ok_def)
  have free: "msg_type_free ref" by (simp add: msg_type_free_def MsgID_def)
  have "b_BlockID ?b = ID_String demo_server_chain [0, 9]" "b_BlockID ?b \<noteq> []" "b_Height ?b = 2"
    by (simp_all add: demo_row_def demo_server_chain_def)
  then show ?thesis
    using block_transactions_served [OF list_orm.orm_up_axioms ok free blk, of "''ab01''"] msgs by (simp add: demo_row_def)
qed

section \<open>Listing the rollups\<close>

lemma queries_state:
  assumes "reads_state S m (vm_ReadState V)"
  shows "Controller_GetRollupInfoFromState E V ns = info_of E S m ns"
    and "Controller_GetRollupRegistryFromState E V = registry_of E S m"
  by (simp_all add: Controller_GetRollupInfoFromState_def Controller_GetRollupRegistryFromState_def
      GetRollupInfoFromState_def GetRollupRegistryFromState_def read_first_state [OF assms] views_eq)

text \<open>The infos filed under an epoch; a missing key reads as no info.\<close>

definition filed :: "GetAllRollupInfoReply \<Rightarrow> u64 \<Rightarrow> RollupInfo list" where
  "filed reply e = (case ga_Info reply e of None \<Rightarrow> [] | Some l \<Rightarrow> l)"

lemma all_rollup_infos_run:
  assumes "reads_state S m (vm_ReadState V)" "\<forall>ns\<in>set nss. info_of E S m ns = Ok (Some (f ns))"
  shows "\<exists>reply'. all_rollup_infos E V nss reply = (Ok (), reply')
     \<and> (\<forall>e. filed reply' e = filed reply e @ filter (\<lambda>i. ri_StartEpoch i = e) (map f nss))"
  using assms(2)
proof (induction nss arbitrary: reply)
  case (Cons ns nss)
  let ?r = "reply\<lparr>ga_Info := (ga_Info reply)(ri_StartEpoch (f ns) \<mapsto> filed reply (ri_StartEpoch (f ns)) @ [f ns])\<rparr>"
  obtain r' where "all_rollup_infos E V nss ?r = (Ok (), r')"
    "\<forall>e. filed r' e = filed ?r e @ filter (\<lambda>i. ri_StartEpoch i = e) (map f nss)"
    using Cons.IH [of ?r] Cons.prems by auto
  with Cons.prems show ?case
    by (auto simp: queries_state [OF assms(1)] reply_set_def go_bind_run Let_def filed_def)
qed simp

text \<open>
  C16: on every state the actions keep (each registered namespace has a well-formed info), the listing of
  all rollups answers without a nil dereference, files every registered rollup under its start epoch
  and nothing else, no rollup twice, and the query for a single registered rollup answers with the
  same info.
\<close>

theorem all_rollups_listed:
  assumes "reads_state S m (vm_ReadState V)" "registry_ok E S m"
  shows "(\<exists>reply'. JSONRPCServer_GetAllRollupInfo E V reply = (Ok (), reply')
      \<and> (\<forall>e. set (filed reply' e) = {i. (\<exists>ns. rollups_of E S m ns = Some i) \<and> ri_StartEpoch i = e} \<and> distinct (filed reply' e)))
    \<and> (\<forall>ns i. rollups_of E S m ns = Some i \<longrightarrow>
        JSONRPCServer_GetRollupInfo E V \<lparr>gi_Namespace = ns\<rparr> r = (Ok (), r\<lparr>gi_Info := i\<rparr>))"
proof -
  obtain nss where nss: "registry_of E S m = Ok nss" "distinct nss"
    and infos: "\<forall>ns\<in>set nss. \<exists>i. info_of E S m ns = Ok (Some i) \<and> info_ok ns i"
    using assms(2) by (auto simp: registry_ok_def)
  define f where "f ns = the (rollups_of E S m ns)" for ns
  have f: "\<forall>ns\<in>set nss. info_of E S m ns = Ok (Some (f ns)) \<and> ri_Namespace (f ns) = ns"
    using infos by (fastforce simp: f_def rollups_of_def nss info_ok_def)
  have listed: "rollups_of E S m ns = Some i \<longleftrightarrow> ns \<in> set nss \<and> i = f ns" for ns i
    using f by (auto simp: rollups_of_def nss)
  have inj: "inj_on f (set nss)" using f by (metis inj_onI)
  obtain reply' where "all_rollup_infos E V nss (reply\<lparr>ga_Info := Map.empty\<rparr>) = (Ok (), reply')"
    and "\<forall>e. filed reply' e = filter (\<lambda>i. ri_StartEpoch i = e) (map f nss)"
    using all_rollup_infos_run [OF assms(1), of nss E f "reply\<lparr>ga_Info := Map.empty\<rparr>"] f by (auto simp: filed_def)
  then have "JSONRPCServer_GetAllRollupInfo E V reply = (Ok (), reply')"
    "\<forall>e. set (filed reply' e) = {i. (\<exists>ns. rollups_of E S m ns = Some i) \<and> ri_StartEpoch i = e} \<and> distinct (filed reply' e)"
    using nss(1,2) inj
    by (auto simp: JSONRPCServer_GetAllRollupInfo_def queries_state [OF assms(1)] reply_set_def go_bind_run listed distinct_map)
  moreover have "JSONRPCServer_GetRollupInfo E V \<lparr>gi_Namespace = ns\<rparr> r = (Ok (), r\<lparr>gi_Info := i\<rparr>)"
    if "rollups_of E S m ns = Some i" for ns i
    using that f by (simp add: JSONRPCServer_GetRollupInfo_def queries_state [OF assms(1)] listed reply_set_def)
  ultimately show ?thesis by blast
qed

text \<open>The example's state with one rollup, as the virtual machine reads it.\<close>

definition demo_vm :: "unit vm" where
  "demo_vm = \<lparr>vm_ReadState = (\<lambda>ks. (map (\<lambda>k. case GetValue map_store demo_rollup_state k of Inr v \<Rightarrow> v | Inl _ \<Rightarrow> []) ks,
       map (\<lambda>k. case GetValue map_store demo_rollup_state k of Inr _ \<Rightarrow> None | Inl e \<Rightarrow> Some e) ks)),
     vm_UnitPrices = Inr [], vm_NameSpacesPrice = (\<lambda>_. Inr []), vm_Submit = (\<lambda>_ _. [None])\<rparr>"

lemma demo_vm_reads: "reads_state map_store demo_rollup_state (vm_ReadState demo_vm)"
  by (simp add: reads_state_def demo_vm_def split: sum.splits)

theorem all_rollups_listed_witness:
  "\<exists>reply. JSONRPCServer_GetAllRollupInfo ref demo_vm \<lparr>ga_Info = Map.empty\<rparr> = (Ok (), reply)
     \<and> set (filed reply (ri_StartEpoch demo_info)) = {demo_info}"
proof -
  obtain reply where reply: "JSONRPCServer_GetAllRollupInfo ref demo_vm \<lparr>ga_Info = Map.empty\<rparr> = (Ok (), reply)"
    "set (filed reply (ri_StartEpoch demo_info))
      = {i. (\<exists>ns. rollups_of ref map_store demo_rollup_state ns = Some i) \<and> ri_StartEpoch i = ri_StartEpoch demo_info}"
    using conjunct1 [OF all_rollups_listed [OF demo_vm_reads demo_rollup_views(4)], of "\<lparr>ga_Info = Map.empty\<rparr>"] by blast
  have "rollups_of ref map_store demo_rollup_state ns = (if ns = demo_ns then Some demo_info else None)" for ns
    by (simp add: rollups_of_def demo_rollup_views(1,2) del: ref_simps)
  with reply show ?thesis by auto
qed

section \<open>The fee of a submitted message\<close>

definition exact_fee :: "nat \<Rightarrow> ((string \<times> u64) \<times> u64) list \<Rightarrow> nat" where
  "exact_fee maxFee priced = maxFee + sum_list (map (\<lambda>((_, units), price). unat price * unat units) priced)"

lemma namespace_fees_run:
  "length prices = length fmu \<Longrightarrow>
     namespace_fees maxFee fmu prices = Ok (of_nat (exact_fee (unat maxFee) (zip fmu prices)))"
proof (induction maxFee fmu prices rule: namespace_fees.induct)
  case (3 maxFee ns units rest price prices)
  then show ?case by (simp add: exact_fee_def)
qed (simp_all add: exact_fee_def)

lemma exact_fee_mset: "mset xs = mset ys \<Longrightarrow> exact_fee n xs = exact_fee n ys"
  unfolding exact_fee_def by (simp flip: sum_mset_sum_list)

lemma with_margin_exact:
  assumes "n + n div 5 < 2 ^ 64"
  shows "unat (with_margin (of_nat n)) = n + n div 5"
proof -
  have n: "unat (of_nat n :: u64) = n" using assms by (simp add: unat_of_nat take_bit_eq_mod)
  have "unat ((of_nat n :: u64) div 5) = n div 5" by (simp add: unat_div n)
  with n assms show ?thesis by (simp add: with_margin_def unat_word_ariths)
qed

text \<open>The order in which the Go map of the namespaces is iterated does not matter.\<close>

lemma namespace_fees_order:
  assumes "length prices = length fmu" "length prices' = length fmu'" "mset (zip fmu' prices') = mset (zip fmu prices)"
  shows "namespace_fees maxFee fmu' prices' = namespace_fees maxFee fmu prices"
  using exact_fee_mset [OF assms(3)] by (simp add: namespace_fees_run assms(1,2))

lemma with_margin_wraps:
  "unat (with_margin (of_nat n)) = (let f = n mod 2 ^ 64 in (f + f div 5) mod 2 ^ 64)"
proof -
  have "unat (of_nat n :: u64) = n mod 2 ^ 64" by (simp add: unat_of_nat take_bit_eq_mod)
  then show ?thesis by (simp add: with_margin_def Let_def unat_word_ariths unat_div)
qed

text \<open>When the last steps of \<open>SubmitMsgTx\<close> succeed.\<close>

lemma sum_case_Ok_iff [simp]: "(case x of Inl e \<Rightarrow> Error (f e) | Inr y \<Rightarrow> Ok y) = Ok z \<longleftrightarrow> x = Inr z"
  by (cases x) auto

lemma submit_steps_Ok_iff:
  "(case v of Some e \<Rightarrow> go_error e | None \<Rightarrow> go_return ()) s = (Ok x, s') \<longleftrightarrow> v = None \<and> s' = s"
  "(case errs of [] \<Rightarrow> go_panic q | Some e # _ \<Rightarrow> go_error e | None # _ \<Rightarrow> go_return ()) s = (Ok x, s') \<longleftrightarrow> (\<exists>es. errs = None # es) \<and> s' = s"
  "reply_set f r = (Ok x, r') \<longleftrightarrow> r' = f r"
  by (auto simp: reply_set_def split: option.splits list.splits)

text \<open>
  C38: a message that \<open>SubmitMsgTx\<close> has submitted is a transaction with one message action for each piece of
  data, for the chain of the request, without a priority fee, signed with the key of the server; the reply
  carries its ID. Its maximum fee is the price of the estimated units, plus units times price for each
  namespace, plus a fifth of that sum: exactly when this fits in 64 bits, else with both additions wrapped
  around.
\<close>

theorem submit_fee_exact:
  assumes "SubmitMsgTx E V B c args reply = (Ok u, reply')"
    and "\<forall>nss prices. vm_NameSpacesPrice V nss = Inr prices \<longrightarrow> length prices = length nss"
  shows "\<exists>chainID up priv tpriv units fmu fee prices base tx.
    (let acts = msg_actions (NewED25519Address E (ed25519_PublicKey E tpriv)) args;
         rules = ServerParser_Rules (JSONRPCServer_ServerParser c (sa_NetworkID args) chainID) (fst (Now B));
         n = exact_fee (unat fee) (zip fmu prices) in
      sub_FromString B (sa_ChainID args) = Inr chainID \<and> vm_UnitPrices V = Inr up
      \<and> LoadHex B server_key = Inr priv \<and> GeneratePrivateKey B = Inr tpriv
      \<and> EstimateUnits B rules acts (NewED25519Factory priv) = Inr (units, fmu) \<and> MulSum B up units = Inr fee
      \<and> vm_NameSpacesPrice V (map fst fmu) = Inr prices
      \<and> tx_Sign B (NewTx B base acts) (NewED25519Factory priv) = Inr tx
      \<and> (\<exists>errs. vm_Submit V False [tx] = None # errs) \<and> sr_TxID reply' = tx_StringID B tx
      \<and> bs_ChainID base = chainID \<and> bs_PriorityFee base = 0
      \<and> (n + n div 5 < 2 ^ 64 \<longrightarrow> unat (bs_MaxFee base) = n + n div 5)
      \<and> unat (bs_MaxFee base) = (let f = n mod 2 ^ 64 in (f + f div 5) mod 2 ^ 64))"
proof -
  obtain chainID up priv tpriv units fmu fee prices maxFee rules tx where
    est: "sub_FromString B (sa_ChainID args) = Inr chainID" "vm_UnitPrices V = Inr up" "LoadHex B server_key = Inr priv"
      "GeneratePrivateKey B = Inr tpriv" "EstimateUnits B (ServerParser_Rules (JSONRPCServer_ServerParser c (sa_NetworkID args) chainID) (fst (Now B)))
         (msg_actions (NewED25519Address E (ed25519_PublicKey E tpriv)) args) (NewED25519Factory priv) = Inr (units, fmu)"
      "MulSum B up units = Inr fee" "vm_NameSpacesPrice V (map fst fmu) = Inr prices"
    and fees: "namespace_fees fee fmu prices = Ok maxFee"
    and tx: "tx_Sign B (NewTx B \<lparr>bs_Timestamp = UnixRMilli B (snd (Now B)) (GetValidityWindow rules), bs_ChainID = chainID, bs_PriorityFee = 0,
         bs_MaxFee = with_margin maxFee\<rparr> (msg_actions (NewED25519Address E (ed25519_PublicKey E tpriv)) args)) (NewED25519Factory priv) = Inr tx"
      "\<exists>errs. vm_Submit V False [tx] = None # errs" "sr_TxID reply' = tx_StringID B tx"
    using assms(1)
    by (clarsimp simp: SubmitMsgTx_def go_bind_Ok_iff Let_def Controller_UnitPrices_def Controller_NameSpacesPrice_def Controller_Submit_def
        submit_steps_Ok_iff split: prod.splits)
  have "length prices = length fmu" using assms(2) est(7) by fastforce
  then have fee: "maxFee = of_nat (exact_fee (unat fee) (zip fmu prices))"
    using fees by (simp add: namespace_fees_run)
  obtain errs where errs: "vm_Submit V False [tx] = None # errs" using tx(2) by blast
  show ?thesis
    unfolding Let_def
    by (intro exI conjI impI, rule est(1), rule est(2), rule est(3), rule est(4), rule est(5), rule est(6), rule est(7), rule tx(1), rule errs)
      (simp_all add: tx(3) fee with_margin_exact with_margin_wraps Let_def)
qed

text \<open>A virtual machine with two namespaces priced 10 and 20; the ID of a transaction is its maximum fee in hexadecimal.\<close>

definition demo_submit_vm :: "(Base \<times> Action list) vm" where
  "demo_submit_vm = \<lparr>vm_ReadState = (\<lambda>ks. ([], [])), vm_UnitPrices = Inr [1],
     vm_NameSpacesPrice = (\<lambda>nss. Inr (map (\<lambda>ns. if ns = ''a'' then 10 else 20) nss)), vm_Submit = (\<lambda>_ _. [None])\<rparr>"

definition demo_sub :: "(ED25519Factory, Base \<times> Action list) submitter" where
  "demo_sub = \<lparr>sub_FromString = (\<lambda>s. Inr [9]), LoadHex = (\<lambda>s. Inr []), GeneratePrivateKey = Inr [],
     EstimateUnits = (\<lambda>r a f. Inr ([1], [(''a'', 2), (''b'', 3)])), MulSum = (\<lambda>p u. Inr 100), Now = (7, 8), UnixRMilli = (\<lambda>n v. n + v),
     NewTx = Pair, tx_Sign = (\<lambda>t f. Inr t), tx_Digest = (\<lambda>t. Inr []), tx_AuthVerify = (\<lambda>t m. None),
     tx_StringID = (\<lambda>(b, a). hex_EncodeToString (be64 (bs_MaxFee b))), tx_Bytes = (\<lambda>t. [])\<rparr>"

theorem submit_fee_exact_witness:
  "\<exists>reply' fee. SubmitMsgTx ref demo_submit_vm demo_sub demo_controller \<lparr>sa_ChainID = [], sa_NetworkID = 1, sa_SecondaryChainID = [1], sa_Data = [[2]]\<rparr>
       \<lparr>sr_TxID = []\<rparr> = (Ok (), reply') \<and> sr_TxID reply' = hex_EncodeToString (be64 fee) \<and> unat fee = 216"
proof -
  let ?run = "SubmitMsgTx ref demo_submit_vm demo_sub demo_controller \<lparr>sa_ChainID = [], sa_NetworkID = 1, sa_SecondaryChainID = [1], sa_Data = [[2]]\<rparr>
    \<lparr>sr_TxID = []\<rparr>"
  have "\<exists>reply'. ?run = (Ok (), reply')"
    by (simp add: SubmitMsgTx_def demo_submit_vm_def demo_sub_def Controller_UnitPrices_def Controller_NameSpacesPrice_def
        Controller_Submit_def reply_set_def go_bind_def go_lift_def go_return_def Let_def del: ref_simps)
  then obtain reply' where run: "?run = (Ok (), reply')" by blast
  have prices: "\<forall>nss prices. vm_NameSpacesPrice demo_submit_vm nss = Inr prices \<longrightarrow> length prices = length nss"
    by (auto simp: demo_submit_vm_def)
  show ?thesis
    using submit_fee_exact [OF run prices] run
    by (force simp: demo_submit_vm_def demo_sub_def exact_fee_def Let_def)
qed

end
