(* ===== verification/Seq_Client.thy ===== *)
theory Seq_Client
  imports Seq_Rpc
begin

text \<open>
  \<open>src/rpc/jsonrpc_client.go\<close> and \<open>multi_jsonrpc_client.go\<close>: the clients of the JSON-RPC server. A
  call works on the world outside the client and returns a value and an error. Shown: what a client is
  told about a transaction against what the node has indexed, and that waiting for a transaction ends
  once the node has it.
\<close>

section \<open>Code outside the repository\<close>

text \<open>
  \<open>SendRequest\<close> of the SDK's requester at the types of a method's arguments and reply: endpoint,
  method, arguments and the reply to fill; \<open>'w\<close> is the world. \<open>nil\<close> arguments are \<open>()\<close>.
\<close>

type_synonym ('a, 'r, 'w) sender = "string \<Rightarrow> string \<Rightarrow> 'a \<Rightarrow> 'r \<Rightarrow> 'w \<Rightarrow> ('r \<times> err option) \<times> 'w"

text \<open>A call that returns a value and an error.\<close>

type_synonym ('w, 'v) call = "'w \<Rightarrow> ('v \<times> err option) \<times> 'w"

text \<open>\<open>rpc.Wait\<close> of the SDK with a check on a state; \<open>None\<close> when it does not return.\<close>

type_synonym 's wait = "('s \<Rightarrow> (bool \<times> err option) \<times> 's) \<Rightarrow> 's \<Rightarrow> (err option \<times> 's) option"

section \<open>jsonrpc\_client.go\<close>

text \<open>The endpoint stands for the requester made for it; \<open>cl_g\<close> is the cached genesis.\<close>

record JSONRPCClient =
  cl_endpoint :: string
  cl_networkID :: u32
  cl_chainID :: ID
  cl_g :: "Genesis option"

definition TrimSuffix :: "string \<Rightarrow> string \<Rightarrow> string" where
  "TrimSuffix s suffix = (if length suffix \<le> length s \<and> drop (length s - length suffix) s = suffix
     then take (length s - length suffix) s else s)"

definition NewJSONRPCClient :: "string \<Rightarrow> u32 \<Rightarrow> ID \<Rightarrow> JSONRPCClient" where
  "NewJSONRPCClient uri networkID chainID =
     (let uri = TrimSuffix uri ''/''; uri = uri @ JSONRPCEndpoint in
      \<lparr>cl_endpoint = uri, cl_networkID = networkID, cl_chainID = chainID, cl_g = None\<rparr>)"

text \<open>A request whose reply is projected: \<open>resp := new(T); err := SendRequest(...); return f(resp), err\<close>.\<close>

definition request :: "('a, 'r, 'w) sender \<Rightarrow> JSONRPCClient \<Rightarrow> string \<Rightarrow> 'a \<Rightarrow> 'r \<Rightarrow> ('r \<Rightarrow> 'v) \<Rightarrow> ('w, 'v) call" where
  "request send cli method args resp f w =
     (case send (cl_endpoint cli) method args resp w of ((resp, err), w) \<Rightarrow> ((f resp, err), w))"

definition JSONRPCClient_SubmitMsgTx ::
    "(SubmitMsgTxArgs, SubmitMsgTxReply, 'w) sender \<Rightarrow> JSONRPCClient \<Rightarrow> string \<Rightarrow> u32 \<Rightarrow> bytes \<Rightarrow> bytes list \<Rightarrow> ('w, string) call" where
  "JSONRPCClient_SubmitMsgTx send cli chainID networkID secondaryChainID data =
     request send cli ''submitMsgTx''
       \<lparr>sa_ChainID = chainID, sa_NetworkID = networkID, sa_SecondaryChainID = secondaryChainID, sa_Data = data\<rparr>
       \<lparr>sr_TxID = []\<rparr> sr_TxID"

text \<open>The genesis is cached in the client, which is part of the state.\<close>

definition JSONRPCClient_Genesis ::
    "(unit, GenesisReply, 'w) sender \<Rightarrow> (JSONRPCClient \<times> 'w, Genesis option) call" where
  "JSONRPCClient_Genesis send = (\<lambda>(cli, w).
     case cl_g cli of
       Some g \<Rightarrow> ((Some g, None), (cli, w))
     | None \<Rightarrow> (case send (cl_endpoint cli) ''genesis'' () \<lparr>gr_Genesis = None\<rparr> w of
           ((resp, Some e), w) \<Rightarrow> ((None, Some e), (cli, w))
         | ((resp, None), w) \<Rightarrow> ((gr_Genesis resp, None), (cli\<lparr>cl_g := gr_Genesis resp\<rparr>, w))))"

text \<open>\<open>strings.Contains\<close>, the text of the sentinel error; \<open>etext\<close> is the text of a received error.\<close>

definition strings_Contains :: "string \<Rightarrow> string \<Rightarrow> bool" where
  "strings_Contains s substr \<longleftrightarrow> (\<exists>i\<in>set [0..<Suc (length s)]. take (length substr) (drop i s) = substr)"

definition ErrTxNotFound_Error :: string where "ErrTxNotFound_Error = ''tx not found''"

definition JSONRPCClient_Tx ::
    "(TxArgs, TxReply, 'w) sender \<Rightarrow> (err \<Rightarrow> string) \<Rightarrow> JSONRPCClient \<Rightarrow> ID \<Rightarrow> ('w, bool \<times> bool \<times> i64 \<times> u64) call" where
  "JSONRPCClient_Tx send etext cli i w =
     (case send (cl_endpoint cli) ''tx'' \<lparr>ta_TxID = i\<rparr> \<lparr>txr_Timestamp = 0, txr_Success = False, txr_Units = [0, 0, 0, 0, 0], txr_Fee = 0\<rparr> w of
        ((resp, Some e), w) \<Rightarrow>
          if strings_Contains (etext e) ErrTxNotFound_Error then ((((False, False, - 1, 0), None), w))
          else (((False, False, - 1, 0), Some e), w)
      | ((resp, None), w) \<Rightarrow> (((True, txr_Success resp, txr_Timestamp resp, txr_Fee resp), None), w))"

definition JSONRPCClient_Balance :: "(BalanceArgs, BalanceReply, 'w) sender \<Rightarrow> JSONRPCClient \<Rightarrow> string \<Rightarrow> ('w, u64) call" where
  "JSONRPCClient_Balance send cli addr = request send cli ''balance'' \<lparr>ba_Address = addr\<rparr> \<lparr>br_Amount = 0\<rparr> br_Amount"

definition zero_headers :: BlockHeadersResponse where
  "zero_headers = \<lparr>hr_From = 0, hr_Blocks = [], hr_Prev = zero_BlockInfo, hr_Next = zero_BlockInfo\<rparr>"

definition JSONRPCClient_GetBlockHeadersByHeight ::
    "(GetBlockHeadersByHeightArgs, BlockHeadersResponse, 'w) sender \<Rightarrow> JSONRPCClient \<Rightarrow> u64 \<Rightarrow> i64 \<Rightarrow> ('w, BlockHeadersResponse) call" where
  "JSONRPCClient_GetBlockHeadersByHeight send cli height endTimeStamp =
     request send cli ''getBlockHeadersByHeight'' \<lparr>ha_Height = height, ha_EndTimeStamp = endTimeStamp\<rparr> zero_headers id"

definition JSONRPCClient_GetBlockHeadersID ::
    "(GetBlockHeadersIDArgs, BlockHeadersResponse, 'w) sender \<Rightarrow> JSONRPCClient \<Rightarrow> string \<Rightarrow> i64 \<Rightarrow> ('w, BlockHeadersResponse) call" where
  "JSONRPCClient_GetBlockHeadersID send cli i endTimeStamp =
     request send cli ''getBlockHeadersID'' \<lparr>ha_ID = i, ha_ID_EndTimeStamp = endTimeStamp\<rparr> zero_headers id"

definition JSONRPCClient_GetBlockHeadersByStartTimeStamp ::
    "(GetBlockHeadersByStartTimeStampArgs, BlockHeadersResponse, 'w) sender \<Rightarrow> JSONRPCClient \<Rightarrow> i64 \<Rightarrow> i64
      \<Rightarrow> ('w, BlockHeadersResponse) call" where
  "JSONRPCClient_GetBlockHeadersByStartTimeStamp send cli startTimeStamp endTimeStamp =
     request send cli ''getBlockHeadersByStartTimeStamp'' \<lparr>ha_StartTimeStamp = startTimeStamp, ha_Start_EndTimeStamp = endTimeStamp\<rparr>
       zero_headers id"

definition JSONRPCClient_GetBlockTransactions ::
    "(GetBlockTransactionsArgs, SEQTransactionResponse, 'w) sender \<Rightarrow> JSONRPCClient \<Rightarrow> string \<Rightarrow> ('w, SEQTransactionResponse) call" where
  "JSONRPCClient_GetBlockTransactions send cli i =
     request send cli ''getBlockTransactions'' \<lparr>gt_ID = i\<rparr> \<lparr>sq_Txs = [], sq_BlockID = []\<rparr> id"

definition JSONRPCClient_GetBlockTransactionsByNamespace ::
    "(GetBlockTransactionsByNamespaceArgs, SEQTransactionResponse, 'w) sender \<Rightarrow> JSONRPCClient \<Rightarrow> u64 \<Rightarrow> string
      \<Rightarrow> ('w, SEQTransactionResponse) call" where
  "JSONRPCClient_GetBlockTransactionsByNamespace send cli height namespace =
     request send cli ''getBlockTransactionsByNamespace'' \<lparr>gn_Height = height, gn_Namespace = namespace\<rparr>
       \<lparr>sq_Txs = [], sq_BlockID = []\<rparr> id"

definition JSONRPCClient_GetCommitmentBlocks ::
    "(GetBlockCommitmentArgs, SequencerWarpBlockResponse, 'w) sender \<Rightarrow> JSONRPCClient \<Rightarrow> u64 \<Rightarrow> u64 \<Rightarrow> i64
      \<Rightarrow> ('w, SequencerWarpBlockResponse) call" where
  "JSONRPCClient_GetCommitmentBlocks send cli first height maxBlocks =
     request send cli ''getCommitmentBlocks'' \<lparr>ca_First = first, ca_CurrentHeight = height, ca_MaxBlocks = maxBlocks\<rparr>
       \<lparr>wr_Blocks = []\<rparr> id"

definition JSONRPCClient_GetAcceptedBlockWindow :: "(unit, i64, 'w) sender \<Rightarrow> JSONRPCClient \<Rightarrow> ('w, i64) call" where
  "JSONRPCClient_GetAcceptedBlockWindow send cli = request send cli ''getAcceptedBlockWindow'' () 0 id"

text \<open>The closure that \<open>WaitForBalance\<close> polls; what it prints is left out.\<close>

definition balance_reached ::
    "(BalanceArgs, BalanceReply, 'w) sender \<Rightarrow> JSONRPCClient \<Rightarrow> string \<Rightarrow> u64 \<Rightarrow> ('w, bool) call" where
  "balance_reached send cli addr least w =
     (case JSONRPCClient_Balance send cli addr w of
        ((balance, Some e), w) \<Rightarrow> ((False, Some e), w)
      | ((balance, None), w) \<Rightarrow> ((least \<le> balance, None), w))"

definition JSONRPCClient_WaitForBalance ::
    "'w wait \<Rightarrow> (BalanceArgs, BalanceReply, 'w) sender \<Rightarrow> JSONRPCClient \<Rightarrow> string \<Rightarrow> u64 \<Rightarrow> 'w \<Rightarrow> (err option \<times> 'w) option" where
  "JSONRPCClient_WaitForBalance wait send cli addr least = wait (balance_reached send cli addr least)"

text \<open>The closure that \<open>WaitForTransaction\<close> polls writes the variables \<open>success\<close> and \<open>fee\<close>.\<close>

definition tx_found ::
    "(TxArgs, TxReply, 'w) sender \<Rightarrow> (err \<Rightarrow> string) \<Rightarrow> JSONRPCClient \<Rightarrow> ID \<Rightarrow> ('w \<times> bool \<times> u64, bool) call" where
  "tx_found send etext cli txID = (\<lambda>(w, success, fee).
     case JSONRPCClient_Tx send etext cli txID w of
       ((_, Some e), w) \<Rightarrow> ((False, Some e), (w, success, fee))
     | (((found, isuccess, _, ifee), None), w) \<Rightarrow> ((found, None), (w, isuccess, ifee)))"

definition JSONRPCClient_WaitForTransaction ::
    "('w \<times> bool \<times> u64) wait \<Rightarrow> (TxArgs, TxReply, 'w) sender \<Rightarrow> (err \<Rightarrow> string) \<Rightarrow> JSONRPCClient \<Rightarrow> ID \<Rightarrow> 'w
      \<Rightarrow> (((bool \<times> u64) \<times> err option) \<times> 'w) option" where
  "JSONRPCClient_WaitForTransaction wait send etext cli txID w =
     (case wait (tx_found send etext cli txID) (w, False, 0) of
        None \<Rightarrow> None
      | Some (Some e, (w, _)) \<Rightarrow> Some (((False, 0), Some e), w)
      | Some (None, (w, success, fee)) \<Rightarrow> Some (((success, fee), None), w))"

definition JSONRPCClient_RollupRegistry :: "(unit, RegistryReply, 'w) sender \<Rightarrow> JSONRPCClient \<Rightarrow> ('w, bytes list) call" where
  "JSONRPCClient_RollupRegistry send cli = request send cli ''getRollupRegistry'' () \<lparr>rp_Namespaces = []\<rparr> rp_Namespaces"

definition zero_RollupInfo :: "'x sdk_scheme \<Rightarrow> RollupInfo" where
  "zero_RollupInfo E = \<lparr>ri_FeeRecipient = make_bytes (AddressLen E), ri_Namespace = [],
     ri_AuthoritySEQAddress = make_bytes (AddressLen E), ri_SequencerPublicKey = [], ri_StartEpoch = 0, ri_ExitEpoch = 0\<rparr>"

definition JSONRPCClient_GetRollupInfo ::
    "'x sdk_scheme \<Rightarrow> (GetRollupInfoArgs, GetRollupInfoReply, 'w) sender \<Rightarrow> JSONRPCClient \<Rightarrow> bytes \<Rightarrow> ('w, RollupInfo) call" where
  "JSONRPCClient_GetRollupInfo E send cli namespace =
     request send cli ''getRollupInfo'' \<lparr>gi_Namespace = namespace\<rparr> \<lparr>gi_Info = zero_RollupInfo E\<rparr> gi_Info"

definition JSONRPCClient_GetAllRollupInfo ::
    "(unit, GetAllRollupInfoReply, 'w) sender \<Rightarrow> JSONRPCClient \<Rightarrow> ('w, GetAllRollupInfoReply) call" where
  "JSONRPCClient_GetAllRollupInfo send cli = request send cli ''getAllRollupInfo'' () \<lparr>ga_Info = Map.empty\<rparr> id"

definition JSONRPCClient_GetValidRollupsAtEpoch ::
    "(GetRollupsInfoAtEpochArgs, GetRollupsInfoAtEpochReply, 'w) sender \<Rightarrow> JSONRPCClient \<Rightarrow> u64
      \<Rightarrow> ('w, GetRollupsInfoAtEpochReply) call" where
  "JSONRPCClient_GetValidRollupsAtEpoch send cli epoch =
     request send cli ''getValidRollupsAtEpoch'' \<lparr>gv_Epoch = epoch\<rparr> \<lparr>gv_Rollups = []\<rparr> id"

definition JSONRPCClient_GetEpochExits ::
    "(EpochExitsArgs, EpochExitsReply, 'w) sender \<Rightarrow> JSONRPCClient \<Rightarrow> u64 \<Rightarrow> ('w, EpochExitInfo option) call" where
  "JSONRPCClient_GetEpochExits send cli epoch =
     request send cli ''getEpochExits'' \<lparr>ee_Epoch = epoch\<rparr> \<lparr>er_Info = None\<rparr> er_Info"

definition JSONRPCClient_GetBuilder ::
    "(GetBuilderArgs, GetBuilderReply, 'w) sender \<Rightarrow> JSONRPCClient \<Rightarrow> u64 \<Rightarrow> ('w, bytes option) call" where
  "JSONRPCClient_GetBuilder send cli epoch =
     request send cli ''getBuilder'' \<lparr>gb_Epoch = epoch\<rparr> \<lparr>gb_BuilderPubKey = None\<rparr> gb_BuilderPubKey"

text \<open>The parser of a client.\<close>

record Parser =
  pa_networkID :: u32
  pa_chainID :: ID
  pa_genesis :: "Genesis option"

definition Parser_ChainID :: "Parser \<Rightarrow> ID" where
  "Parser_ChainID p = pa_chainID p"

text \<open>The rules of a \<open>nil\<close> genesis panic when they are read, which the estimation of units does first.\<close>

definition Parser_Rules :: "Parser \<Rightarrow> i64 \<Rightarrow> Rules res" where
  "Parser_Rules p t = (case pa_genesis p of
       None \<Rightarrow> Panic NilDereference
     | Some g \<Rightarrow> Ok (Genesis_Rules g t (pa_networkID p) (pa_chainID p) []))"

definition JSONRPCClient_Parser ::
    "(unit, GenesisReply, 'w) sender \<Rightarrow> (JSONRPCClient \<times> 'w, Parser option) call" where
  "JSONRPCClient_Parser send s =
     (case JSONRPCClient_Genesis send s of
        ((g, Some e), s) \<Rightarrow> ((None, Some e), s)
      | ((g, None), (cli, w)) \<Rightarrow>
          ((Some \<lparr>pa_networkID = cl_networkID cli, pa_chainID = cl_chainID cli, pa_genesis = g\<rparr>, None), (cli, w)))"

section \<open>multi\_jsonrpc\_client.go\<close>

text \<open>The calls of the SDK's own client.\<close>

record 'w hclient =
  h_UnitPrices :: "bool \<Rightarrow> ('w, u64 list) call"
  h_NameSpacesPrice :: "string list \<Rightarrow> ('w, u64 list) call"
  h_SubmitTx :: "bytes \<Rightarrow> ('w, ID) call"

text \<open>A factory of either scheme.\<close>

datatype 'sk AuthFactory = FactoryED25519 ED25519Factory | FactoryBLS "'sk BLSFactory"

record ('sk, 'w) MultiJSONRPCClient =
  SeqCli :: JSONRPCClient
  HCli :: "'w hclient"
  AuthFac :: "'sk AuthFactory"

text \<open>\<open>newH\<close> is the constructor of the SDK's client.\<close>

definition NewMultiJSONRPCClientWithED25519Factory ::
    "(string \<Rightarrow> 'w hclient) \<Rightarrow> string \<Rightarrow> u32 \<Rightarrow> ID \<Rightarrow> bytes \<Rightarrow> ('sk, 'w) MultiJSONRPCClient" where
  "NewMultiJSONRPCClientWithED25519Factory newH uri networkID chainID privBytes =
     (let factory = NewED25519Factory privBytes in
      \<lparr>SeqCli = NewJSONRPCClient uri networkID chainID, HCli = newH uri, AuthFac = FactoryED25519 factory\<rparr>)"

text \<open>\<open>fromBytes\<close> is \<open>bls.PrivateKeyFromBytes\<close>, whose error is ignored.\<close>

definition NewMultiJSONRPCClientWithBLSFactory ::
    "(string \<Rightarrow> 'w hclient) \<Rightarrow> (bytes \<Rightarrow> 'sk \<times> err option) \<Rightarrow> string \<Rightarrow> u32 \<Rightarrow> ID \<Rightarrow> bytes \<Rightarrow> ('sk, 'w) MultiJSONRPCClient" where
  "NewMultiJSONRPCClientWithBLSFactory newH fromBytes uri networkID chainID privBytes =
     (let (priv, _) = fromBytes privBytes; factory = NewBLSFactory priv in
      \<lparr>SeqCli = NewJSONRPCClient uri networkID chainID, HCli = newH uri, AuthFac = FactoryBLS factory\<rparr>)"

text \<open>A call inside a function that returns on an error; with the error the function returns the empty ID.\<close>

definition go_call :: "('w, 'v) call \<Rightarrow> ('c \<times> 'w, 'v) go" where
  "go_call f = (\<lambda>(c, w). case f w of
       ((v, Some e), w) \<Rightarrow> (Error e, (c, w))
     | ((v, None), w) \<Rightarrow> (Ok v, (c, w)))"

text \<open>The parser is asked of the client inside, whose cache it may fill.\<close>

definition seq_parser :: "(unit, GenesisReply, 'w) sender \<Rightarrow> (('sk, 'w) MultiJSONRPCClient \<times> 'w, Parser) go" where
  "seq_parser send = (\<lambda>(multi, w). case JSONRPCClient_Parser send (SeqCli multi, w) of
       ((_, Some e), (cli, w)) \<Rightarrow> (Error e, (multi\<lparr>SeqCli := cli\<rparr>, w))
     | ((None, None), (cli, w)) \<Rightarrow> (Panic NilDereference, (multi\<lparr>SeqCli := cli\<rparr>, w))
     | ((Some p, None), (cli, w)) \<Rightarrow> (Ok p, (multi\<lparr>SeqCli := cli\<rparr>, w)))"

definition generated_fee :: "u64 \<Rightarrow> (string \<times> u64) list \<Rightarrow> u64 list \<Rightarrow> u64 \<Rightarrow> u64 res" where
  "generated_fee fee feeMarketUnits nsPrices priorityFee =
     res_bind (namespace_fees fee feeMarketUnits nsPrices) (\<lambda>fee. Ok (with_margin (fee + priorityFee)))"

definition GenerateAndSubmitTx ::
    "(unit, GenesisReply, 'w) sender \<Rightarrow> ('sk AuthFactory, 'tx) submitter \<Rightarrow> Action list \<Rightarrow> u64
      \<Rightarrow> (('sk, 'w) MultiJSONRPCClient \<times> 'w, ID) go" where
  "GenerateAndSubmitTx send B acts priorityFee =
     go_bind (seq_parser send) (\<lambda>parser s. (
     let fac = AuthFac (fst s); H = HCli (fst s) in
     go_bind (go_call (h_UnitPrices H True)) (\<lambda>unitPrices.
     go_bind (go_lift (Parser_Rules parser (fst (Now B)))) (\<lambda>rules.
     go_bind (go_lift (of_sum (EstimateUnits B rules acts fac))) (\<lambda>(units, feeMarketUnits).
     go_bind (go_lift (of_sum (MulSum B unitPrices units))) (\<lambda>fee.
     let nss = map fst feeMarketUnits in
     go_bind (go_call (h_NameSpacesPrice H nss)) (\<lambda>nsPrices.
     go_bind (go_lift (generated_fee fee feeMarketUnits nsPrices priorityFee)) (\<lambda>fee.
     let now = snd (Now B) in
     go_bind (go_lift (Parser_Rules parser now)) (\<lambda>rules.
     let base = \<lparr>bs_Timestamp = UnixRMilli B now (GetValidityWindow rules), bs_ChainID = cl_chainID (SeqCli (fst s)),
           bs_PriorityFee = priorityFee, bs_MaxFee = fee\<rparr>;
         tx = NewTx B base acts in
     go_bind (go_lift (case tx_Sign B tx fac of Inl e \<Rightarrow> Error (Wrap ''%w: failed to sign transaction'' [] e) | Inr tx \<Rightarrow> Ok tx)) (\<lambda>tx.
     go_call (h_SubmitTx H (tx_Bytes B tx)))))))))) s))"

section \<open>What the sources rely on\<close>

text \<open>
  Waiting: unless the context is cancelled the check runs; an error of the check is returned, a check
  that holds ends the waiting, and otherwise some time passes before the next check.
\<close>

locale polling =
  fixes wait :: "'s wait"
    and cancelled :: "'s \<Rightarrow> err option"
    and pass :: "'s \<Rightarrow> 's"
  assumes wait_step: "wait check s = (case cancelled s of
      Some e \<Rightarrow> Some (Some e, s)
    | None \<Rightarrow> (case check s of ((exit, err), s') \<Rightarrow> (case err of
          Some e \<Rightarrow> Some (Some e, s')
        | None \<Rightarrow> if exit then Some (None, s') else wait check (pass s'))))"

text \<open>
  A method of the node: the reply of its handler reaches the client, and the text of the error a client
  receives contains the text of the handler's error.
\<close>

locale served =
  fixes send :: "('a, 'r, 'w) sender"
    and endpoint meth :: string
    and handler :: "'a \<Rightarrow> 'w \<Rightarrow> ('r, unit) go"
    and etext :: "err \<Rightarrow> string"
  assumes replied: "handler args w resp = (Ok (), resp') \<Longrightarrow> send endpoint meth args resp w = ((resp', None), w)"
    and refused: "handler args w resp = (Error e, resp') \<Longrightarrow>
      \<exists>e'. send endpoint meth args resp w = ((resp, Some e'), w) \<and> strings_Contains (etext e') (etext e)"

partial_function (option) poll ::
    "('s \<Rightarrow> err option) \<Rightarrow> ('s \<Rightarrow> 's) \<Rightarrow> ('s \<Rightarrow> (bool \<times> err option) \<times> 's) \<Rightarrow> 's \<Rightarrow> (err option \<times> 's) option" where
  "poll cancelled pass check s = (case cancelled s of
      Some e \<Rightarrow> Some (Some e, s)
    | None \<Rightarrow> (case check s of ((exit, err), s') \<Rightarrow> (case err of
          Some e \<Rightarrow> Some (Some e, s')
        | None \<Rightarrow> if exit then Some (None, s') else poll cancelled pass check (pass s'))))"

interpretation poll_wait: polling "poll cancelled pass" cancelled pass for cancelled pass
  by unfold_locales (rule poll.simps)

text \<open>A node in the same process.\<close>

definition direct_send :: "('a \<Rightarrow> 'w \<Rightarrow> ('r, unit) go) \<Rightarrow> ('a, 'r, 'w) sender" where
  "direct_send handler endpoint meth args resp w =
     (case handler args w resp of
        (Ok _, resp') \<Rightarrow> ((resp', None), w)
      | (Error e, _) \<Rightarrow> ((resp, Some e), w)
      | (Panic p, _) \<Rightarrow> ((resp, Some (ErrExternal 0)), w))"

lemma strings_Contains_self [simp]: "strings_Contains s s"
  by (auto simp: strings_Contains_def intro!: bexI [of _ 0])

interpretation direct: served "direct_send handler" endpoint meth handler etext for handler endpoint meth etext
  by unfold_locales (auto simp: direct_send_def)

section \<open>Waiting for a transaction\<close>

text \<open>\<open>polls check s n s'\<close>: after \<open>n\<close> checks that did not hold the state before the next check is \<open>s'\<close>.\<close>

inductive polls :: "('s \<Rightarrow> err option) \<Rightarrow> ('s \<Rightarrow> 's) \<Rightarrow> ('s \<Rightarrow> (bool \<times> err option) \<times> 's) \<Rightarrow> 's \<Rightarrow> nat \<Rightarrow> 's \<Rightarrow> bool"
  for cancelled pass check where
  first: "polls cancelled pass check s 0 s"
| again: "polls cancelled pass check s n s' \<Longrightarrow> cancelled s' = None \<Longrightarrow> check s' = ((False, None), s'') \<Longrightarrow>
     polls cancelled pass check s (Suc n) (pass s'')"

context polling
begin

lemma wait_polls: "polls cancelled pass check s n s' \<Longrightarrow> wait check s = wait check s'"
proof (induction rule: polls.induct)
  case (again s n s' s'')
  then show ?case using wait_step [of check s'] by simp
qed simp

lemma wait_returns:
  "polls cancelled pass check s n s' \<Longrightarrow> cancelled s' = None \<Longrightarrow> check s' = ((True, None), s'') \<Longrightarrow> wait check s = Some (None, s'')"
  using wait_polls wait_step [of check s'] by simp

end

text \<open>What a client is told about a transaction.\<close>

lemma client_tx:
  assumes "served send (cl_endpoint cli) ''tx'' (\<lambda>args w. JSONRPCServer_Tx E D (node w) args) etext"
    and "etext ErrTxNotFound = ErrTxNotFound_Error"
  shows "Controller_GetTransaction E D (node w) i = Ok None \<Longrightarrow>
      JSONRPCClient_Tx send etext cli i w = (((False, False, - 1, 0), None), w)"
    and "Controller_GetTransaction E D (node w) i = Ok (Some (t, success, units, fee)) \<Longrightarrow>
      JSONRPCClient_Tx send etext cli i w = (((True, success, t, fee), None), w)"
proof -
  let ?args = "\<lparr>ta_TxID = i\<rparr>" and ?resp = "\<lparr>txr_Timestamp = 0, txr_Success = False, txr_Units = [0, 0, 0, 0, 0], txr_Fee = 0\<rparr>"
  assume "Controller_GetTransaction E D (node w) i = Ok None"
  then have "JSONRPCServer_Tx E D (node w) ?args ?resp = (Error ErrTxNotFound, ?resp)" by (simp add: JSONRPCServer_Tx_def)
  from served.refused [OF assms(1) this] show "JSONRPCClient_Tx send etext cli i w = (((False, False, - 1, 0), None), w)"
    using assms(2) by (auto simp: JSONRPCClient_Tx_def)
next
  let ?args = "\<lparr>ta_TxID = i\<rparr>" and ?resp = "\<lparr>txr_Timestamp = 0, txr_Success = False, txr_Units = [0, 0, 0, 0, 0], txr_Fee = 0\<rparr>"
  assume "Controller_GetTransaction E D (node w) i = Ok (Some (t, success, units, fee))"
  then have "JSONRPCServer_Tx E D (node w) ?args ?resp
      = (Ok (), \<lparr>txr_Timestamp = t, txr_Success = success, txr_Units = units, txr_Fee = fee\<rparr>)"
    by (simp add: JSONRPCServer_Tx_def reply_set_def)
  from served.replied [OF assms(1) this] show "JSONRPCClient_Tx send etext cli i w = (((True, success, t, fee), None), w)"
    by (simp add: JSONRPCClient_Tx_def)
qed

lemma wait_until_found:
  assumes "polling wait (\<lambda>(w, _). cancelled w) (\<lambda>(w, x). (tick w, x))"
    and "served send (cl_endpoint cli) ''tx'' (\<lambda>args w. JSONRPCServer_Tx E D (node w) args) etext"
    and "etext ErrTxNotFound = ErrTxNotFound_Error"
    and "\<forall>k\<le>n. cancelled ((tick ^^ k) w) = None"
    and "\<forall>k<n. Controller_GetTransaction E D (node ((tick ^^ k) w)) i = Ok None"
    and found: "Controller_GetTransaction E D (node ((tick ^^ n) w)) i = Ok (Some (t, success, units, fee))"
  shows "JSONRPCClient_WaitForTransaction wait send etext cli i w = Some (((success, fee), None), (tick ^^ n) w)"
proof -
  let ?check = "tx_found send etext cli i" and ?canc = "\<lambda>(w, _). cancelled w"
  note tx = client_tx [OF assms(2,3)]
  have polls: "k \<le> n \<Longrightarrow> polls ?canc (\<lambda>(w, x). (tick w, x)) ?check (w, False, 0) k ((tick ^^ k) w, False, 0)" for k
  proof (induction k)
    case (Suc k)
    then have "?check ((tick ^^ k) w, False, 0) = ((False, None), ((tick ^^ k) w, False, 0))"
      using tx(1) assms(5) by (simp add: tx_found_def)
    moreover have "?canc ((tick ^^ k) w, False, 0) = None" using assms(4) Suc.prems by simp
    ultimately show ?case
      using polls.again [of ?canc "\<lambda>(w, x). (tick w, x)" ?check "(w, False, 0)" k "((tick ^^ k) w, False, 0)"] Suc by simp
  qed (simp add: polls.first)
  have "?check ((tick ^^ n) w, False, 0) = ((True, None), ((tick ^^ n) w, success, fee))"
    using tx(2) [OF found] by (simp add: tx_found_def)
  from polling.wait_returns [OF assms(1) polls [OF order_refl] _ this] show ?thesis
    using assms(4) by (simp add: JSONRPCClient_WaitForTransaction_def)
qed

text \<open>
  C5: a client that waits for a transaction, with a context that is not cancelled, is told its outcome and fee
  by the first poll at which the node has accepted the block with it, however often it asked before (\<open>n\<close> times,
  with \<open>tick\<close> the time that passes in between). The node stores transactions, and it may have accepted further
  blocks without that transaction, and archived blocks, in the meantime. Asking for a transaction that is not there
  yet is not an error.
\<close>

theorem wait_for_transaction_returns:
  assumes "polling wait (\<lambda>(w, _). cancelled w) (\<lambda>(w, x). (tick w, x))"
    and "served send (cl_endpoint cli) ''tx'' (\<lambda>args w. JSONRPCServer_Tx E D (node w) args) etext"
    and "etext ErrTxNotFound = ErrTxNotFound_Error"
    and "\<forall>k\<le>n. cancelled ((tick ^^ k) w) = None"
    and "\<forall>k<n. Controller_GetTransaction E D (node ((tick ^^ k) w)) (tx_ID (slb_Txs blk ! i)) = Ok None"
    and "kv_batches D pending" "tx_sizes E blk" "distinct (map tx_ID (slb_Txs blk))" "i < length (slb_Txs blk)"
    and "Config_GetStoreTransactions (c_config c)" "Accepted E D blk c = (Ok (), c')"
    and "goes_on E D C G c' bs (node ((tick ^^ n) w))"
    and "\<forall>b\<in>set bs. tx_sizes E b \<and> tx_ID (slb_Txs blk ! i) \<notin> set (map tx_ID (slb_Txs b))"
  shows "JSONRPCClient_WaitForTransaction wait send etext cli (tx_ID (slb_Txs blk ! i)) w
    = Some (((res_Success (slb_Results blk ! i), res_Fee (slb_Results blk ! i)), None), (tick ^^ n) w)"
proof (rule wait_until_found [OF assms(1-5)])
  have "length (tx_ID (slb_Txs blk ! i)) = IDLen E" using assms(7,9) by (simp add: tx_sizes_def)
  from kv_batches.goes_on_finds [OF assms(6,12) this assms(13)]
  show "Controller_GetTransaction E D (node ((tick ^^ n) w)) (tx_ID (slb_Txs blk ! i))
      = Ok (Some (slb_Tmstmp blk, res_Success (slb_Results blk ! i), res_Units (slb_Results blk ! i), res_Fee (slb_Results blk ! i)))"
    using kv_batches.Accepted_finds(1) [OF assms(6,7,11) refl assms(10,8,9)] by simp
qed

text \<open>The example's node accepts its block, and another one, while the client waits.\<close>

definition demo_later :: StatelessBlock where
  "demo_later = demo_accepted\<lparr>slb_ID := [2], slb_Hght := 8, slb_Txs := [], slb_Results := []\<rparr>"

definition demo_node :: "nat \<Rightarrow> (unit, kv, DBBlock list) Controller" where
  "demo_node k = (if k = 0 then demo_controller
     else snd (Accepted ref map_kvdb demo_later (snd (Accepted ref map_kvdb demo_accepted demo_controller))))"

lemma demo_accepts:
  "Accepted ref map_kvdb demo_accepted demo_controller = (Ok (), snd (Accepted ref map_kvdb demo_accepted demo_controller))"
  "Accepted ref map_kvdb demo_later (snd (Accepted ref map_kvdb demo_accepted demo_controller)) = (Ok (), demo_node (Suc k))"
  "tx_sizes ref demo_later"
proof -
  have L: "GetEpochLength (Controller_Rules demo_controller t) \<noteq> 0" for t by (simp add: demo_controller_epochs)
  show 1: "Accepted ref map_kvdb demo_accepted demo_controller = (Ok (), snd (Accepted ref map_kvdb demo_accepted demo_controller))"
    using map_batches.Accepted_outcome(3) [OF demo_sizes prod.collapse [symmetric] map_kvdb_accepts L]
    by (metis prod.collapse)
  show sizes: "tx_sizes ref demo_later"
    using demo_sizes by (simp add: tx_sizes_def demo_later_def del: ref_simps)
  let ?c = "snd (Accepted ref map_kvdb demo_accepted demo_controller)"
  have "GetEpochLength (Controller_Rules ?c (slb_Tmstmp demo_later)) = GetEpochLength (Controller_Rules demo_controller 0)"
    using Accepted_registry [OF 1] by (simp add: Controller_Rules_def Genesis_Rules_def GetEpochLength_def)
  then have "GetEpochLength (Controller_Rules ?c (slb_Tmstmp demo_later)) \<noteq> 0" using L by simp
  then show "Accepted ref map_kvdb demo_later ?c = (Ok (), demo_node (Suc k))"
    using map_batches.Accepted_outcome(3) [OF sizes prod.collapse [symmetric] map_kvdb_accepts]
    by (metis demo_node_def nat.distinct(1) prod.collapse)
qed

definition demo_etext :: "err \<Rightarrow> string" where
  "demo_etext e = (if e = ErrTxNotFound then ''tx not found'' else ''other'')"

definition demo_client :: JSONRPCClient where
  "demo_client = NewJSONRPCClient ''http://node/'' 1 []"

theorem wait_for_transaction_returns_witness:
  "JSONRPCClient_WaitForTransaction (poll (\<lambda>(w, _). None) (\<lambda>(w, x). (Suc w, x)))
     (direct_send (\<lambda>args w. JSONRPCServer_Tx ref map_kvdb (demo_node w) args)) demo_etext demo_client (replicate 32 5) 0
   = Some (((True, 99), None), 1)"
proof -
  have d: "distinct (map tx_ID (slb_Txs demo_accepted))" "0 < length (slb_Txs demo_accepted)" by (simp_all add: demo_accepted_def)
  have none: "\<forall>k<1. Controller_GetTransaction ref map_kvdb (demo_node ((Suc ^^ k) 0)) (tx_ID (slb_Txs demo_accepted ! 0)) = Ok None"
    by (simp add: demo_node_def demo_accepted_def demo_tx_def Controller_GetTransaction_def GetTransaction_def TxKey_eq
        demo_controller_def map_kvdb_def)
  have on: "goes_on ref map_kvdb demo_chain list_gorm (snd (Accepted ref map_kvdb demo_accepted demo_controller)) [demo_later] (demo_node ((Suc ^^ 1) 0))"
    using goes_on.accepts [OF goes_on.stays demo_accepts(2) [of 0]] by simp
  have other: "\<forall>b\<in>set [demo_later]. tx_sizes ref b \<and> tx_ID (slb_Txs demo_accepted ! 0) \<notin> set (map tx_ID (slb_Txs b))"
    using demo_accepts(3) by (simp add: demo_later_def del: ref_simps)
  have P: "polling (poll (\<lambda>(w, _). None) (\<lambda>(w, x). (Suc w, x))) (\<lambda>(w, _ :: bool \<times> u64). None) (\<lambda>(w, x). (Suc w, x))"
    by (rule poll_wait.polling_axioms)
  have sv: "served (direct_send (\<lambda>args w. JSONRPCServer_Tx ref map_kvdb (demo_node w) args)) (cl_endpoint demo_client) ''tx''
      (\<lambda>args w. JSONRPCServer_Tx ref map_kvdb (demo_node w) args) demo_etext"
    by (rule direct.served_axioms)
  have t: "demo_etext ErrTxNotFound = ErrTxNotFound_Error" by (simp add: demo_etext_def ErrTxNotFound_Error_def)
  show ?thesis
    using wait_for_transaction_returns [where cancelled = "\<lambda>_. None" and tick = Suc and node = demo_node and n = 1 and w = 0
        and cli = demo_client and i = 0,
        OF P sv t _ none map_batches.kv_batches_axioms demo_sizes d demo_stores demo_accepts(1) on other]
    by (simp add: demo_accepted_def demo_tx_def demo_result_def)
qed

section \<open>Generated transactions\<close>

lemma generated_fee_exact:
  assumes "generated_fee fee fmu prices priorityFee = Ok maxFee" "length prices = length fmu"
    and "(let n = exact_fee (unat fee) (zip fmu prices) + unat priorityFee in n + n div 5 < 2 ^ 64)"
  shows "unat maxFee = (let n = exact_fee (unat fee) (zip fmu prices) + unat priorityFee in n + n div 5)"
proof -
  let ?n = "exact_fee (unat fee) (zip fmu prices) + unat priorityFee"
  have "maxFee = with_margin (of_nat ?n)"
    using assms(1,2) by (simp add: generated_fee_def namespace_fees_run)
  then show ?thesis using with_margin_exact [of ?n] assms(3) by (simp add: Let_def)
qed

lemma go_call_Ok_iff [simp]: "go_call f (c, w) = (Ok v, s') \<longleftrightarrow> (\<exists>w'. f w = ((v, None), w') \<and> s' = (c, w'))"
  by (auto simp: go_call_def split: prod.splits option.splits)

lemma seq_parser_Ok:
  assumes "seq_parser send (multi, w) = (Ok p, (multi', w'))"
  shows "AuthFac multi' = AuthFac multi" "HCli multi' = HCli multi" "cl_chainID (SeqCli multi') = cl_chainID (SeqCli multi)"
    and "pa_chainID p = cl_chainID (SeqCli multi)" "cl_g (SeqCli multi') = pa_genesis p"
  using assms by (auto simp: seq_parser_def JSONRPCClient_Parser_def JSONRPCClient_Genesis_def split: prod.splits option.splits)

text \<open>
  C21: a transaction that the client generates and that the node accepts for submission carries the chain of
  the client and the given actions and priority fee, is signed by the client's factory, and its maximum fee is the
  price of the estimated units and namespaces plus the priority fee plus a fifth of the sum, exactly, when that fits
  in 64 bits. Afterwards the client keeps the genesis, so that the next call does not ask for it again.
\<close>

theorem generated_tx_submitted:
  assumes "GenerateAndSubmitTx send B acts priorityFee (multi, w) = (Ok txid, (multi', w'))"
    and "\<forall>nss w prices w'. h_NameSpacesPrice (HCli multi) nss w = ((prices, None), w') \<longrightarrow> length prices = length nss"
  shows "\<exists>up w0 w1 rules units fmu fee prices w2 base tx. h_UnitPrices (HCli multi) True w0 = ((up, None), w1)
    \<and> EstimateUnits B rules acts (AuthFac multi) = Inr (units, fmu) \<and> MulSum B up units = Inr fee
    \<and> h_NameSpacesPrice (HCli multi) (map fst fmu) w1 = ((prices, None), w2)
    \<and> tx_Sign B (NewTx B base acts) (AuthFac multi) = Inr tx \<and> h_SubmitTx (HCli multi) (tx_Bytes B tx) w2 = ((txid, None), w')
    \<and> bs_ChainID base = cl_chainID (SeqCli multi) \<and> bs_PriorityFee base = priorityFee
    \<and> (let n = exact_fee (unat fee) (zip fmu prices) + unat priorityFee in n + n div 5 < 2 ^ 64 \<longrightarrow> unat (bs_MaxFee base) = n + n div 5)
    \<and> cl_g (SeqCli multi') \<noteq> None"
proof -
  obtain p multi1 w0 where parser: "seq_parser send (multi, w) = (Ok p, (multi1, w0))"
    using assms(1) by (auto simp: GenerateAndSubmitTx_def go_bind_Ok_iff)
  note keep = seq_parser_Ok [OF parser]
  obtain up w1 rules units fmu fee prices w2 maxFee rules' tx where
    est: "h_UnitPrices (HCli multi) True w0 = ((up, None), w1)" "EstimateUnits B rules acts (AuthFac multi) = Inr (units, fmu)"
      "MulSum B up units = Inr fee"
    and calls: "h_NameSpacesPrice (HCli multi) (map fst fmu) w1 = ((prices, None), w2)"
      "generated_fee fee fmu prices priorityFee = Ok maxFee" "Parser_Rules p (snd (Now B)) = Ok rules'"
      "tx_Sign B (NewTx B \<lparr>bs_Timestamp = UnixRMilli B (snd (Now B)) (GetValidityWindow rules'), bs_ChainID = cl_chainID (SeqCli multi),
         bs_PriorityFee = priorityFee, bs_MaxFee = maxFee\<rparr> acts) (AuthFac multi) = Inr tx"
      "h_SubmitTx (HCli multi) (tx_Bytes B tx) w2 = ((txid, None), w')" "multi' = multi1"
    using assms(1) parser keep(1-3)
    by (clarsimp simp: GenerateAndSubmitTx_def go_bind_Ok_iff Let_def split: prod.splits)
  have len: "length prices = length fmu" using assms(2) calls(1) by force
  have g: "cl_g (SeqCli multi') \<noteq> None" using keep(5) calls(3,6) by (auto simp: Parser_Rules_def split: option.splits)
  show ?thesis
    by (intro exI conjI, rule est(1), rule est(2), rule est(3), rule calls(1), rule calls(4), rule calls(5))
      (use generated_fee_exact [OF calls(2) len] g in \<open>simp_all add: Let_def\<close>)
qed

definition demo_submitter :: "(bytes AuthFactory, Base \<times> Action list) submitter" where
  "demo_submitter = \<lparr>sub_FromString = (\<lambda>s. Inr []), LoadHex = (\<lambda>s. Inr []), GeneratePrivateKey = Inr [],
     EstimateUnits = (\<lambda>r a f. Inr ([1], [(''a'', 2)])), MulSum = (\<lambda>p u. Inr 100), Now = (7, 8), UnixRMilli = (\<lambda>n v. n + v),
     NewTx = Pair, tx_Sign = (\<lambda>t f. Inr t), tx_Digest = (\<lambda>t. Inr []), tx_AuthVerify = (\<lambda>t m. None), tx_StringID = (\<lambda>t. []),
     tx_Bytes = (\<lambda>(b, a). be64 (bs_MaxFee b))\<rparr>"

definition demo_hclient :: "unit hclient" where
  "demo_hclient = \<lparr>h_UnitPrices = (\<lambda>_ w. (([1], None), w)), h_NameSpacesPrice = (\<lambda>nss w. ((map (\<lambda>_. 10) nss, None), w)),
     h_SubmitTx = (\<lambda>b w. ((b, None), w))\<rparr>"

definition demo_multi :: "(bytes, unit) MultiJSONRPCClient" where
  "demo_multi = NewMultiJSONRPCClientWithED25519Factory (\<lambda>_. demo_hclient) ''http://node/'' 1 [9] [1, 2]"

theorem generated_tx_submitted_witness:
  "\<exists>txid multi'. GenerateAndSubmitTx (direct_send (\<lambda>_ _. JSONRPCServer_Genesis demo_controller)) demo_submitter [] 5 (demo_multi, ())
       = (Ok txid, (multi', ())) \<and> (\<exists>fee. txid = be64 fee \<and> unat fee = 150)"
proof -
  let ?run = "GenerateAndSubmitTx (direct_send (\<lambda>_ _. JSONRPCServer_Genesis demo_controller)) demo_submitter [] 5 (demo_multi, ())"
  have H: "HCli demo_multi = demo_hclient" by (simp add: demo_multi_def NewMultiJSONRPCClientWithED25519Factory_def Let_def)
  have "\<exists>txid multi'. ?run = (Ok txid, (multi', ()))"
    by (simp add: GenerateAndSubmitTx_def seq_parser_def JSONRPCClient_Parser_def JSONRPCClient_Genesis_def direct_send_def
        JSONRPCServer_Genesis_def reply_set_def demo_multi_def NewMultiJSONRPCClientWithED25519Factory_def NewJSONRPCClient_def
        demo_hclient_def demo_submitter_def go_bind_def go_call_def go_lift_def Parser_Rules_def generated_fee_def Let_def)
  then obtain txid multi' where run: "?run = (Ok txid, (multi', ()))" by blast
  have prices: "\<forall>nss w prices w'. h_NameSpacesPrice (HCli demo_multi) nss w = ((prices, None), w') \<longrightarrow> length prices = length nss"
    by (auto simp: H demo_hclient_def)
  show ?thesis
    using generated_tx_submitted [OF run prices] run
    by (force simp: H demo_hclient_def demo_submitter_def exact_fee_def)
qed

end
