(* ===== verification/Seq_Contract.thy ===== *)
theory Seq_Contract
  imports Seq_Client
begin

text \<open>
  \<open>src/sequencer/sequencer.go\<close>: the binding of the contract that stores the commitments of the
  blocks. Calls and transactions go through the bound contract of the Ethereum library, which is a parameter.
  The two iterators over events and the two watchers are the same code at two event types, and so is
  the model. Shown: an iterator delivers the found logs, parsed and in order, and ends without an error only when
  it has delivered all of them, whichever way its \<open>select\<close> chooses; a watcher forwards the same.
\<close>

section \<open>Code outside the repository\<close>

text \<open>The values passed to and returned by methods of the contract (\<open>interface{}\<close>).\<close>

record ContractWarpBlock =
  cw_Height :: "int option"
  cw_BlockRoot :: "int option"
  cw_ParentRoot :: "int option"

datatype abi_value = AbiInt "int option" | AbiBlock ContractWarpBlock | AbiBlocks "ContractWarpBlock list"

text \<open>
  The bound contract \<open>'c\<close> over backends \<open>'be\<close>, made for an address and a parsed ABI; \<open>'co\<close> and \<open>'to\<close> are the
  options of calls and transactions. A backend that is \<open>nil\<close> is \<open>None\<close>.
\<close>

record ('abi, 'addr, 'be, 'c, 'co, 'to, 'tx, 'w) binding =
  GetAbi :: "err + 'abi option"
  FromHex :: "string \<Rightarrow> bytes"
  NewBoundContract :: "'addr \<Rightarrow> 'abi \<Rightarrow> 'be option \<Rightarrow> 'be option \<Rightarrow> 'be option \<Rightarrow> 'c"
  DeployContract :: "'to \<Rightarrow> 'abi \<Rightarrow> bytes \<Rightarrow> 'be \<Rightarrow> ('w, 'addr \<times> 'tx \<times> 'c) call"
  bc_Call :: "'c \<Rightarrow> 'co \<Rightarrow> string \<Rightarrow> abi_value list \<Rightarrow> ('w, abi_value list) call"
  bc_Transfer :: "'c \<Rightarrow> 'to \<Rightarrow> ('w, 'tx) call"
  bc_Transact :: "'c \<Rightarrow> 'to \<Rightarrow> string \<Rightarrow> abi_value list \<Rightarrow> ('w, 'tx) call"
  ConvertBig :: "abi_value \<Rightarrow> int option res"

definition go_ext :: "('w, 'v) call \<Rightarrow> ('w, 'v) go" where
  "go_ext f w = (case f w of ((v, Some e), w) \<Rightarrow> (Error e, w) | ((v, None), w) \<Rightarrow> (Ok v, w))"

section \<open>Binding\<close>

text \<open>The metadata has an ABI, which \<open>GetAbi\<close> parses, and no byte code.\<close>

definition SequencerMetaData_Bin :: string where "SequencerMetaData_Bin = []"

record 'c SequencerCaller = sc_contract :: 'c
record 'c SequencerTransactor = st_contract :: 'c
record 'c SequencerFilterer = sf_contract :: 'c

record 'c Sequencer =
  seq_Caller :: "'c SequencerCaller"
  seq_Transactor :: "'c SequencerTransactor"
  seq_Filterer :: "'c SequencerFilterer"

record ('c, 'co, 'to) SequencerSession =
  ss_Contract :: "'c Sequencer"
  ss_CallOpts :: 'co
  ss_TransactOpts :: 'to

record ('c, 'co) SequencerCallerSession =
  scs_Contract :: "'c SequencerCaller"
  scs_CallOpts :: 'co

record ('c, 'to) SequencerTransactorSession =
  sts_Contract :: "'c SequencerTransactor"
  sts_TransactOpts :: 'to

definition bound :: "'c \<Rightarrow> 'c Sequencer" where
  "bound contract = \<lparr>seq_Caller = \<lparr>sc_contract = contract\<rparr>, seq_Transactor = \<lparr>st_contract = contract\<rparr>,
     seq_Filterer = \<lparr>sf_contract = contract\<rparr>\<rparr>"

definition DeploySequencerContract ::
    "('abi, 'addr, 'be, 'c, 'co, 'to, 'tx, 'w) binding \<Rightarrow> 'to \<Rightarrow> 'be \<Rightarrow> ('w, 'addr \<times> 'tx \<times> 'c Sequencer) go" where
  "DeploySequencerContract B auth backend =
     go_bind (go_lift (of_sum (GetAbi B))) (\<lambda>parsed.
     go_bind (case parsed of None \<Rightarrow> go_error (Errorf ''GetABI returned nil'' []) | Some abi \<Rightarrow> go_return abi) (\<lambda>abi.
     go_bind (go_ext (DeployContract B auth abi (FromHex B SequencerMetaData_Bin) backend)) (\<lambda>(address, tx, contract).
     go_return (address, tx, bound contract))))"

definition bindSequencer ::
    "('abi, 'addr, 'be, 'c, 'co, 'to, 'tx, 'w) binding \<Rightarrow> 'addr \<Rightarrow> 'be option \<Rightarrow> 'be option \<Rightarrow> 'be option \<Rightarrow> 'c res" where
  "bindSequencer B address caller transactor filterer =
     res_bind (of_sum (GetAbi B)) (\<lambda>parsed. case parsed of
       None \<Rightarrow> Panic NilDereference
     | Some abi \<Rightarrow> Ok (NewBoundContract B address abi caller transactor filterer))"

definition NewSequencer ::
    "('abi, 'addr, 'be, 'c, 'co, 'to, 'tx, 'w) binding \<Rightarrow> 'addr \<Rightarrow> 'be \<Rightarrow> 'c Sequencer res" where
  "NewSequencer B address backend =
     res_bind (bindSequencer B address (Some backend) (Some backend) (Some backend)) (\<lambda>contract. Ok (bound contract))"

definition NewSequencerCaller ::
    "('abi, 'addr, 'be, 'c, 'co, 'to, 'tx, 'w) binding \<Rightarrow> 'addr \<Rightarrow> 'be \<Rightarrow> 'c SequencerCaller res" where
  "NewSequencerCaller B address caller =
     res_bind (bindSequencer B address (Some caller) None None) (\<lambda>contract. Ok \<lparr>sc_contract = contract\<rparr>)"

definition NewSequencerTransactor ::
    "('abi, 'addr, 'be, 'c, 'co, 'to, 'tx, 'w) binding \<Rightarrow> 'addr \<Rightarrow> 'be \<Rightarrow> 'c SequencerTransactor res" where
  "NewSequencerTransactor B address transactor =
     res_bind (bindSequencer B address None (Some transactor) None) (\<lambda>contract. Ok \<lparr>st_contract = contract\<rparr>)"

definition NewSequencerFilterer ::
    "('abi, 'addr, 'be, 'c, 'co, 'to, 'tx, 'w) binding \<Rightarrow> 'addr \<Rightarrow> 'be \<Rightarrow> 'c SequencerFilterer res" where
  "NewSequencerFilterer B address filterer =
     res_bind (bindSequencer B address None None (Some filterer)) (\<lambda>contract. Ok \<lparr>sf_contract = contract\<rparr>)"

section \<open>Calls and transactions\<close>

text \<open>The raw bindings hold a binding and pass everything on.\<close>

definition SequencerRaw_Call ::
    "('abi, 'addr, 'be, 'c, 'co, 'to, 'tx, 'w) binding \<Rightarrow> 'c Sequencer \<Rightarrow> 'co \<Rightarrow> string \<Rightarrow> abi_value list \<Rightarrow> ('w, abi_value list) call" where
  "SequencerRaw_Call B s opts method params = bc_Call B (sc_contract (seq_Caller s)) opts method params"

definition SequencerRaw_Transfer ::
    "('abi, 'addr, 'be, 'c, 'co, 'to, 'tx, 'w) binding \<Rightarrow> 'c Sequencer \<Rightarrow> 'to \<Rightarrow> ('w, 'tx) call" where
  "SequencerRaw_Transfer B s opts = bc_Transfer B (st_contract (seq_Transactor s)) opts"

definition SequencerRaw_Transact ::
    "('abi, 'addr, 'be, 'c, 'co, 'to, 'tx, 'w) binding \<Rightarrow> 'c Sequencer \<Rightarrow> 'to \<Rightarrow> string \<Rightarrow> abi_value list \<Rightarrow> ('w, 'tx) call" where
  "SequencerRaw_Transact B s opts method params = bc_Transact B (st_contract (seq_Transactor s)) opts method params"

definition SequencerCallerRaw_Call ::
    "('abi, 'addr, 'be, 'c, 'co, 'to, 'tx, 'w) binding \<Rightarrow> 'c SequencerCaller \<Rightarrow> 'co \<Rightarrow> string \<Rightarrow> abi_value list \<Rightarrow> ('w, abi_value list) call" where
  "SequencerCallerRaw_Call B s opts method params = bc_Call B (sc_contract s) opts method params"

definition SequencerTransactorRaw_Transfer ::
    "('abi, 'addr, 'be, 'c, 'co, 'to, 'tx, 'w) binding \<Rightarrow> 'c SequencerTransactor \<Rightarrow> 'to \<Rightarrow> ('w, 'tx) call" where
  "SequencerTransactorRaw_Transfer B s opts = bc_Transfer B (st_contract s) opts"

definition SequencerTransactorRaw_Transact ::
    "('abi, 'addr, 'be, 'c, 'co, 'to, 'tx, 'w) binding \<Rightarrow> 'c SequencerTransactor \<Rightarrow> 'to \<Rightarrow> string \<Rightarrow> abi_value list \<Rightarrow> ('w, 'tx) call" where
  "SequencerTransactorRaw_Transact B s opts method params = bc_Transact B (st_contract s) opts method params"

text \<open>The three views share their code: the first output is converted, and a missing one panics.\<close>

definition call_big ::
    "('abi, 'addr, 'be, 'c, 'co, 'to, 'tx, 'w) binding \<Rightarrow> 'c SequencerCaller \<Rightarrow> 'co \<Rightarrow> string \<Rightarrow> abi_value list \<Rightarrow> ('w, int option) go" where
  "call_big B s opts method params =
     go_bind (go_ext (bc_Call B (sc_contract s) opts method params)) (\<lambda>out.
     case out of [] \<Rightarrow> go_panic IndexOutOfRange | out0 # _ \<Rightarrow> go_lift (ConvertBig B out0))"

definition SequencerCaller_MAXBLOCKS ::
    "('abi, 'addr, 'be, 'c, 'co, 'to, 'tx, 'w) binding \<Rightarrow> 'c SequencerCaller \<Rightarrow> 'co \<Rightarrow> ('w, int option) go" where
  "SequencerCaller_MAXBLOCKS B s opts = call_big B s opts ''MAX_BLOCKS'' []"

definition SequencerSession_MAXBLOCKS ::
    "('abi, 'addr, 'be, 'c, 'co, 'to, 'tx, 'w) binding \<Rightarrow> ('c, 'co, 'to) SequencerSession \<Rightarrow> ('w, int option) go" where
  "SequencerSession_MAXBLOCKS B s = SequencerCaller_MAXBLOCKS B (seq_Caller (ss_Contract s)) (ss_CallOpts s)"

definition SequencerCallerSession_MAXBLOCKS ::
    "('abi, 'addr, 'be, 'c, 'co, 'to, 'tx, 'w) binding \<Rightarrow> ('c, 'co) SequencerCallerSession \<Rightarrow> ('w, int option) go" where
  "SequencerCallerSession_MAXBLOCKS B s = SequencerCaller_MAXBLOCKS B (scs_Contract s) (scs_CallOpts s)"

definition SequencerCaller_BlockHeight ::
    "('abi, 'addr, 'be, 'c, 'co, 'to, 'tx, 'w) binding \<Rightarrow> 'c SequencerCaller \<Rightarrow> 'co \<Rightarrow> ('w, int option) go" where
  "SequencerCaller_BlockHeight B s opts = call_big B s opts ''blockHeight'' []"

definition SequencerSession_BlockHeight ::
    "('abi, 'addr, 'be, 'c, 'co, 'to, 'tx, 'w) binding \<Rightarrow> ('c, 'co, 'to) SequencerSession \<Rightarrow> ('w, int option) go" where
  "SequencerSession_BlockHeight B s = SequencerCaller_BlockHeight B (seq_Caller (ss_Contract s)) (ss_CallOpts s)"

definition SequencerCallerSession_BlockHeight ::
    "('abi, 'addr, 'be, 'c, 'co, 'to, 'tx, 'w) binding \<Rightarrow> ('c, 'co) SequencerCallerSession \<Rightarrow> ('w, int option) go" where
  "SequencerCallerSession_BlockHeight B s = SequencerCaller_BlockHeight B (scs_Contract s) (scs_CallOpts s)"

definition SequencerCaller_Commitments ::
    "('abi, 'addr, 'be, 'c, 'co, 'to, 'tx, 'w) binding \<Rightarrow> 'c SequencerCaller \<Rightarrow> 'co \<Rightarrow> int option \<Rightarrow> ('w, int option) go" where
  "SequencerCaller_Commitments B s opts blockHeight = call_big B s opts ''commitments'' [AbiInt blockHeight]"

definition SequencerSession_Commitments ::
    "('abi, 'addr, 'be, 'c, 'co, 'to, 'tx, 'w) binding \<Rightarrow> ('c, 'co, 'to) SequencerSession \<Rightarrow> int option \<Rightarrow> ('w, int option) go" where
  "SequencerSession_Commitments B s blockHeight =
     SequencerCaller_Commitments B (seq_Caller (ss_Contract s)) (ss_CallOpts s) blockHeight"

definition SequencerCallerSession_Commitments ::
    "('abi, 'addr, 'be, 'c, 'co, 'to, 'tx, 'w) binding \<Rightarrow> ('c, 'co) SequencerCallerSession \<Rightarrow> int option \<Rightarrow> ('w, int option) go" where
  "SequencerCallerSession_Commitments B s blockHeight = SequencerCaller_Commitments B (scs_Contract s) (scs_CallOpts s) blockHeight"

definition SequencerTransactor_AddBlock ::
    "('abi, 'addr, 'be, 'c, 'co, 'to, 'tx, 'w) binding \<Rightarrow> 'c SequencerTransactor \<Rightarrow> 'to \<Rightarrow> ContractWarpBlock \<Rightarrow> ('w, 'tx) call" where
  "SequencerTransactor_AddBlock B s opts warp = bc_Transact B (st_contract s) opts ''addBlock'' [AbiBlock warp]"

definition SequencerSession_AddBlock ::
    "('abi, 'addr, 'be, 'c, 'co, 'to, 'tx, 'w) binding \<Rightarrow> ('c, 'co, 'to) SequencerSession \<Rightarrow> ContractWarpBlock \<Rightarrow> ('w, 'tx) call" where
  "SequencerSession_AddBlock B s warp = SequencerTransactor_AddBlock B (seq_Transactor (ss_Contract s)) (ss_TransactOpts s) warp"

definition SequencerTransactorSession_AddBlock ::
    "('abi, 'addr, 'be, 'c, 'co, 'to, 'tx, 'w) binding \<Rightarrow> ('c, 'to) SequencerTransactorSession \<Rightarrow> ContractWarpBlock \<Rightarrow> ('w, 'tx) call" where
  "SequencerTransactorSession_AddBlock B s warp = SequencerTransactor_AddBlock B (sts_Contract s) (sts_TransactOpts s) warp"

definition SequencerTransactor_NewBlocks ::
    "('abi, 'addr, 'be, 'c, 'co, 'to, 'tx, 'w) binding \<Rightarrow> 'c SequencerTransactor \<Rightarrow> 'to \<Rightarrow> ContractWarpBlock list \<Rightarrow> ('w, 'tx) call" where
  "SequencerTransactor_NewBlocks B s opts blocks = bc_Transact B (st_contract s) opts ''newBlocks'' [AbiBlocks blocks]"

definition SequencerSession_NewBlocks ::
    "('abi, 'addr, 'be, 'c, 'co, 'to, 'tx, 'w) binding \<Rightarrow> ('c, 'co, 'to) SequencerSession \<Rightarrow> ContractWarpBlock list \<Rightarrow> ('w, 'tx) call" where
  "SequencerSession_NewBlocks B s blocks = SequencerTransactor_NewBlocks B (seq_Transactor (ss_Contract s)) (ss_TransactOpts s) blocks"

definition SequencerTransactorSession_NewBlocks ::
    "('abi, 'addr, 'be, 'c, 'co, 'to, 'tx, 'w) binding \<Rightarrow> ('c, 'to) SequencerTransactorSession \<Rightarrow> ContractWarpBlock list \<Rightarrow> ('w, 'tx) call" where
  "SequencerTransactorSession_NewBlocks B s blocks = SequencerTransactor_NewBlocks B (sts_Contract s) (sts_TransactOpts s) blocks"

section \<open>Events\<close>

text \<open>
  An event type: \<open>new(T)\<close>, \<open>UnpackLog\<close> of a bound contract into a value of it (returning the error), and
  setting its field \<open>Raw\<close>; the zero value of a log is \<open>None\<close>.
\<close>

record ('c, 'log, 'ev) event_type =
  ev_new :: 'ev
  ev_UnpackLog :: "'c \<Rightarrow> string \<Rightarrow> 'log \<Rightarrow> 'ev \<Rightarrow> 'ev \<times> err option"
  ev_setRaw :: "'log \<Rightarrow> 'ev \<Rightarrow> 'ev"

record 'log SequencerNewBlock =
  nb_BlockNumber :: "int option"
  nb_Raw :: "'log option"

record 'log SequencerNewBlocks =
  nbs_FirstBlockNumber :: "int option"
  nbs_NumBlocks :: "int option"
  nbs_Raw :: "'log option"

definition NewBlock_event ::
    "('c \<Rightarrow> string \<Rightarrow> 'log \<Rightarrow> 'log SequencerNewBlock \<Rightarrow> 'log SequencerNewBlock \<times> err option) \<Rightarrow> ('c, 'log, 'log SequencerNewBlock) event_type" where
  "NewBlock_event unpack = \<lparr>ev_new = \<lparr>nb_BlockNumber = None, nb_Raw = None\<rparr>, ev_UnpackLog = unpack,
     ev_setRaw = (\<lambda>log ev. ev\<lparr>nb_Raw := Some log\<rparr>)\<rparr>"

definition NewBlocks_event ::
    "('c \<Rightarrow> string \<Rightarrow> 'log \<Rightarrow> 'log SequencerNewBlocks \<Rightarrow> 'log SequencerNewBlocks \<times> err option) \<Rightarrow> ('c, 'log, 'log SequencerNewBlocks) event_type" where
  "NewBlocks_event unpack = \<lparr>ev_new = \<lparr>nbs_FirstBlockNumber = None, nbs_NumBlocks = None, nbs_Raw = None\<rparr>, ev_UnpackLog = unpack,
     ev_setRaw = (\<lambda>log ev. ev\<lparr>nbs_Raw := Some log\<rparr>)\<rparr>"

text \<open>\<open>ParseNewBlock\<close> and \<open>ParseNewBlocks\<close>.\<close>

definition parse_event :: "('c, 'log, 'ev) event_type \<Rightarrow> 'c \<Rightarrow> string \<Rightarrow> 'log \<Rightarrow> err + 'ev" where
  "parse_event V c name log = (case ev_UnpackLog V c name log (ev_new V) of
       (event, Some e) \<Rightarrow> Inl e
     | (event, None) \<Rightarrow> Inr (ev_setRaw V log event))"

definition ParseNewBlock where
  "ParseNewBlock unpack s log = parse_event (NewBlock_event unpack) (sf_contract s) ''NewBlock'' log"

definition ParseNewBlocks where
  "ParseNewBlocks unpack s log = parse_event (NewBlocks_event unpack) (sf_contract s) ''NewBlocks'' log"

text \<open>
  The iterator. \<open>it_logs\<close> is what the channel of logs holds, \<open>it_sub\<close> what a receive from the error channel
  of the subscription gives: \<open>None\<close> when it would block, an error or \<open>nil\<close> once the subscription has ended. After an error was
  received the channel is closed, which is received as \<open>nil\<close>.
\<close>

record ('c, 'log, 'ev) EventIterator =
  it_Event :: "'ev option"
  it_contract :: 'c
  it_event :: string
  it_logs :: "'log list"
  it_sub :: "err option option"
  it_done :: bool
  it_fail :: "err option"

text \<open>A log was received: it is unpacked into a new event.\<close>

definition deliver :: "('c, 'log, 'ev) event_type \<Rightarrow> 'log \<Rightarrow> ('c, 'log, 'ev) EventIterator \<Rightarrow> bool \<times> ('c, 'log, 'ev) EventIterator" where
  "deliver V log it = (case ev_UnpackLog V (it_contract it) (it_event it) log (ev_new V) of
       (event, Some e) \<Rightarrow> (False, it\<lparr>it_Event := Some event, it_fail := Some e\<rparr>)
     | (event, None) \<Rightarrow> (True, it\<lparr>it_Event := Some (ev_setRaw V log event)\<rparr>))"

text \<open>\<open>Next\<close>; \<open>pick\<close> is the choice of \<open>select\<close> when a log and the end are both there, \<open>None\<close>: it blocks.\<close>

function Next ::
    "('c, 'log, 'ev) event_type \<Rightarrow> bool \<Rightarrow> ('c, 'log, 'ev) EventIterator \<Rightarrow> (bool \<times> ('c, 'log, 'ev) EventIterator) option" where
  "Next V pick it =
     (if it_fail it \<noteq> None then Some (False, it)
      else if it_done it then
        (case it_logs it of
           log # rest \<Rightarrow> Some (deliver V log (it\<lparr>it_logs := rest\<rparr>))
         | [] \<Rightarrow> Some (False, it))
      else (case (it_logs it, it_sub it) of
           (log # rest, None) \<Rightarrow> Some (deliver V log (it\<lparr>it_logs := rest\<rparr>))
         | (log # rest, Some err) \<Rightarrow>
             if pick then Some (deliver V log (it\<lparr>it_logs := rest\<rparr>))
             else Next V pick (it\<lparr>it_sub := Some None, it_done := True, it_fail := err\<rparr>)
         | ([], Some err) \<Rightarrow> Next V pick (it\<lparr>it_sub := Some None, it_done := True, it_fail := err\<rparr>)
         | ([], None) \<Rightarrow> None))"
  by pat_completeness auto

text \<open>The recursive call is made with \<open>done\<close> set.\<close>

termination Next
  by (relation "measure (\<lambda>(V, pick, it). if it_done it then 0 else 1)") auto

declare Next.simps [simp del]

definition iterator_Error :: "('c, 'log, 'ev) EventIterator \<Rightarrow> err option" where
  "iterator_Error it = it_fail it"

text \<open>\<open>Close\<close> unsubscribes, which ends the subscription; its error is always \<open>nil\<close>.\<close>

definition iterator_Close :: "('c, 'log, 'ev) EventIterator \<Rightarrow> err option \<times> ('c, 'log, 'ev) EventIterator" where
  "iterator_Close it = (None, it\<lparr>it_sub := (case it_sub it of None \<Rightarrow> Some None | Some e \<Rightarrow> Some e)\<rparr>)"

text \<open>\<open>filterLogs\<close> is \<open>FilterLogs\<close> of the bound contract: what its channels hold at first.\<close>

definition filter_event ::
    "('c \<Rightarrow> 'fo \<Rightarrow> string \<Rightarrow> ('w, 'log list \<times> err option option) call) \<Rightarrow> string \<Rightarrow> 'c SequencerFilterer \<Rightarrow> 'fo
      \<Rightarrow> ('w, ('c, 'log, 'ev) EventIterator) go" where
  "filter_event filterLogs name s opts =
     go_bind (go_ext (filterLogs (sf_contract s) opts name)) (\<lambda>(logs, sub).
     go_return \<lparr>it_Event = None, it_contract = sf_contract s, it_event = name, it_logs = logs, it_sub = sub,
       it_done = False, it_fail = None\<rparr>)"

definition FilterNewBlock ::
    "('c \<Rightarrow> 'fo \<Rightarrow> string \<Rightarrow> ('w, 'log list \<times> err option option) call) \<Rightarrow> 'c SequencerFilterer \<Rightarrow> 'fo
      \<Rightarrow> ('w, ('c, 'log, 'log SequencerNewBlock) EventIterator) go" where
  "FilterNewBlock filterLogs s opts = filter_event filterLogs ''NewBlock'' s opts"

definition FilterNewBlocks ::
    "('c \<Rightarrow> 'fo \<Rightarrow> string \<Rightarrow> ('w, 'log list \<times> err option option) call) \<Rightarrow> 'c SequencerFilterer \<Rightarrow> 'fo
      \<Rightarrow> ('w, ('c, 'log, 'log SequencerNewBlocks) EventIterator) go" where
  "FilterNewBlocks filterLogs s opts = filter_event filterLogs ''NewBlocks'' s opts"

text \<open>The iterators of the two event types.\<close>

definition SequencerNewBlockIterator_Next where
  "SequencerNewBlockIterator_Next unpack = Next (NewBlock_event unpack)"

definition SequencerNewBlocksIterator_Next where
  "SequencerNewBlocksIterator_Next unpack = Next (NewBlocks_event unpack)"

text \<open>
  The goroutine of a watcher, run on what its \<open>select\<close> statements receive: a log with the outcome of the
  inner \<open>select\<close> that offers the event to the sink, an error of the subscription, or \<open>quit\<close>. The
  result is what the sink got, the returned error once it returns, and whether the subscription was given up.
\<close>

datatype offered = Sent | SubErr "err option" | Quit

datatype 'log received = GotLog 'log offered | GotErr "err option" | GotQuit

fun watch_event ::
    "('c, 'log, 'ev) event_type \<Rightarrow> 'c \<Rightarrow> string \<Rightarrow> 'log received list \<Rightarrow> 'ev list \<Rightarrow> 'ev list \<times> err option option \<times> bool" where
  "watch_event V c name [] sink = (sink, None, False)"
| "watch_event V c name (GotErr e # _) sink = (sink, Some e, True)"
| "watch_event V c name (GotQuit # _) sink = (sink, Some None, True)"
| "watch_event V c name (GotLog log out # rest) sink =
     (case ev_UnpackLog V c name log (ev_new V) of
        (event, Some e) \<Rightarrow> (sink, Some (Some e), True)
      | (event, None) \<Rightarrow> (case out of
            Sent \<Rightarrow> watch_event V c name rest (sink @ [ev_setRaw V log event])
          | SubErr e \<Rightarrow> (sink, Some e, True)
          | Quit \<Rightarrow> (sink, Some None, True)))"

text \<open>\<open>watch\<close> is \<open>WatchLogs\<close>, \<open>ins\<close> what the goroutine of the returned subscription will receive.\<close>

definition WatchNewBlock where
  "WatchNewBlock watch unpack s opts ins =
     go_bind (go_ext (watch (sf_contract s) opts ''NewBlock'')) (\<lambda>_.
     go_return (watch_event (NewBlock_event unpack) (sf_contract s) ''NewBlock'' ins []))"

definition WatchNewBlocks where
  "WatchNewBlocks watch unpack s opts ins =
     go_bind (go_ext (watch (sf_contract s) opts ''NewBlocks'')) (\<lambda>_.
     go_return (watch_event (NewBlocks_event unpack) (sf_contract s) ''NewBlocks'' ins []))"

section \<open>An iterator and its subscription\<close>

text \<open>
  The runs of an iterator \<open>it0\<close> together with the subscription behind it, in any interleaving. The
  subscription has found the logs that are in the channel and \<open>todo0\<close>; it sends them in this order and ends
  without an error only when all are sent, or with an error at any time (\<open>r\<close> is how it ended). The client calls
  \<open>Next\<close>, as often as it likes, and collects the events.
\<close>

inductive iter_run ::
    "('c, 'log, 'ev) event_type \<Rightarrow> ('c, 'log, 'ev) EventIterator \<Rightarrow> 'log list \<Rightarrow> 'log list \<Rightarrow> err option option
      \<Rightarrow> ('c, 'log, 'ev) EventIterator \<Rightarrow> 'ev list \<Rightarrow> bool"
  for V it0 todo0 where
  start: "iter_run V it0 todo0 todo0 None it0 []"
| sent: "iter_run V it0 todo0 (log # todo) None it evs \<Longrightarrow> iter_run V it0 todo0 todo None (it\<lparr>it_logs := it_logs it @ [log]\<rparr>) evs"
| ended: "iter_run V it0 todo0 todo None it evs \<Longrightarrow> e \<noteq> None \<or> todo = [] \<Longrightarrow>
     iter_run V it0 todo0 todo (Some e) (it\<lparr>it_sub := Some e\<rparr>) evs"
| moved: "iter_run V it0 todo0 todo r it evs \<Longrightarrow> Next V pick it = Some (True, it') \<Longrightarrow>
     iter_run V it0 todo0 todo r it' (evs @ [the (it_Event it')])"
| stopped: "iter_run V it0 todo0 todo r it evs \<Longrightarrow> Next V pick it = Some (False, it') \<Longrightarrow> iter_run V it0 todo0 todo r it' evs"

text \<open>The iterator after it received the end of the subscription.\<close>

abbreviation finished :: "err option \<Rightarrow> ('c, 'log, 'ev) EventIterator \<Rightarrow> ('c, 'log, 'ev) EventIterator" where
  "finished e it \<equiv> it\<lparr>it_sub := Some None, it_done := True, it_fail := e\<rparr>"

lemma Next_done:
  "it_fail it \<noteq> None \<Longrightarrow> Next V pick it = Some (False, it)"
  "it_fail it = None \<Longrightarrow> it_done it \<Longrightarrow> it_logs it = [] \<Longrightarrow> Next V pick it = Some (False, it)"
  "it_fail it = None \<Longrightarrow> it_done it \<Longrightarrow> it_logs it = log # rest \<Longrightarrow> Next V pick it = Some (deliver V log (it\<lparr>it_logs := rest\<rparr>))"
  by (simp_all add: Next.simps)

lemma Next_running:
  assumes "it_fail it = None" "\<not> it_done it"
  shows "it_sub it = None \<Longrightarrow> it_logs it = [] \<Longrightarrow> Next V pick it = None"
    and "it_sub it = None \<Longrightarrow> it_logs it = log # rest \<Longrightarrow> Next V pick it = Some (deliver V log (it\<lparr>it_logs := rest\<rparr>))"
    and "it_sub it = Some e \<Longrightarrow> it_logs it = [] \<Longrightarrow> Next V pick it = Next V pick (finished e it)"
    and "it_sub it = Some e \<Longrightarrow> it_logs it = log # rest \<Longrightarrow>
      Next V pick it = (if pick then Some (deliver V log (it\<lparr>it_logs := rest\<rparr>)) else Next V pick (finished e it))"
  using assms by (subst Next.simps, simp)+

lemma Next_finished:
  "Next V pick (finished (Some x) it) = Some (False, finished (Some x) it)"
  "it_logs it = [] \<Longrightarrow> Next V pick (finished None it) = Some (False, finished None it)"
  "it_logs it = log # rest \<Longrightarrow> Next V pick (finished None it) = Some (deliver V log ((finished None it)\<lparr>it_logs := rest\<rparr>))"
  by (simp_all add: Next_done)

lemma Next_blocks_iff:
  "Next V pick it = None \<longleftrightarrow> it_fail it = None \<and> \<not> it_done it \<and> it_logs it = [] \<and> it_sub it = None"
proof (cases "it_fail it = None \<and> \<not> it_done it")
  case True
  then show ?thesis
    by (cases "it_sub it"; cases "it_logs it"; cases "the (it_sub it)") (auto simp: Next_running Next_finished)
next
  case False
  then show ?thesis by (cases "it_logs it"; cases "it_fail it") (auto simp: Next_done)
qed

text \<open>What a call of \<open>Next\<close> did that has received the end of the subscription.\<close>

lemma Next_ended:
  assumes "it_fail it = None" "it_sub it = Some e" "Next V pick (finished e it) = Some (b, it')"
  obtains (log) log rest it1 where "it_logs it = log # rest" "(b, it') = deliver V log (it1\<lparr>it_logs := rest\<rparr>)"
      "it1 = it \<or> it_sub it = Some None \<and> it1 = finished None it"
  | (over) "it_logs it = []" "\<not> b" "it_done it \<and> it' = it \<or> it_sub it = Some None \<and> it' = finished None it"
  | (err) x where "it_sub it = Some (Some x)" "\<not> b" "it' = finished (Some x) it"
proof (cases e)
  case (Some x)
  from assms(3) have "\<not> b" "it' = finished (Some x) it" unfolding Some Next_finished(1) by auto
  with assms(2) Some show thesis by (intro err [of x]) blast+
next
  case None
  show thesis
  proof (cases "it_logs it")
    case Nil
    from assms(3) have "\<not> b" "it' = finished None it" unfolding None Next_finished(2) [OF Nil] by auto
    with Nil assms(2) None show thesis by (intro over) blast+
  next
    case (Cons l ls)
    from assms(3) have "(b, it') = deliver V l ((finished None it)\<lparr>it_logs := ls\<rparr>)"
      unfolding None Next_finished(3) [OF Cons] by (metis option.inject)
    from log [OF Cons this] assms(2) None show thesis by blast
  qed
qed

text \<open>What a call of \<open>Next\<close> did.\<close>

lemma Next_cases:
  assumes "Next V pick it = Some (b, it')"
  obtains (failed) "it_fail it \<noteq> None" "\<not> b" "it' = it"
  | (log) log rest it1 where "it_fail it = None" "it_logs it = log # rest" "(b, it') = deliver V log (it1\<lparr>it_logs := rest\<rparr>)"
      "it1 = it \<or> it_sub it = Some None \<and> it1 = finished None it"
  | (over) "it_fail it = None" "it_logs it = []" "\<not> b" "it_done it \<and> it' = it \<or> it_sub it = Some None \<and> it' = finished None it"
  | (err) e where "it_fail it = None" "it_sub it = Some (Some e)" "\<not> b" "it' = finished (Some e) it"
proof (cases "it_fail it = None")
  case False
  from Next_done(1) [OF this] assms have "\<not> b" "it' = it" by simp_all
  with False show thesis by (rule failed)
next
  case ok: True
  note taken_log = log [OF ok] and is_over = over [OF ok] and is_err = err [OF ok]
  have ended: thesis if e: "it_sub it = Some e" "Next V pick (finished e it) = Some (b, it')" for e
    using ok e
  proof (cases rule: Next_ended)
    case (log l ls it1)
    then show thesis by (rule taken_log)
  next
    case over
    then show thesis by (rule is_over)
  next
    case (err x)
    then show thesis by (rule is_err)
  qed
  show thesis
  proof (cases "it_logs it")
    case Nil
    show thesis
    proof (cases "it_done it")
      case True
      from Next_done(2) [OF ok True Nil] assms have "\<not> b" "it' = it" by simp_all
      with ok Nil True show thesis by (intro over) blast+
    next
      case False
      obtain e where e: "it_sub it = Some e" using assms Next_running(1) [OF ok False _ Nil] by fastforce
      show thesis using assms unfolding Next_running(3) [OF ok False e Nil] by (rule ended [OF e])
    qed
  next
    case logs: (Cons l ls)
    have taken: thesis if "Next V pick it = Some (deliver V l (it\<lparr>it_logs := ls\<rparr>))"
      by (rule log [OF ok logs, of it]) (use assms that in \<open>metis option.inject\<close>, blast)
    show thesis
    proof (cases "it_done it \<or> it_sub it = None")
      case True
      then show thesis using taken Next_done(3) [OF ok _ logs] Next_running(2) [OF ok _ _ logs] by metis
    next
      case False
      then obtain e where e: "\<not> it_done it" "it_sub it = Some e" by blast
      show thesis
      proof (cases pick)
        case True
        then show thesis using taken Next_running(4) [OF ok e logs, of V pick] by presburger
      next
        case False
        then show thesis using assms Next_running(4) [OF ok e logs, of V pick] ended [OF e(2)] by presburger
      qed
    qed
  qed
qed

lemma deliver_parse:
  "deliver V log it = (case parse_event V (it_contract it) (it_event it) log of
     Inl e \<Rightarrow> (False, it\<lparr>it_Event := it_Event (snd (deliver V log it)), it_fail := Some e\<rparr>)
   | Inr ev \<Rightarrow> (True, it\<lparr>it_Event := Some ev\<rparr>))"
  by (auto simp: deliver_def parse_event_def split: prod.splits option.splits)

text \<open>The invariant of a run, with all logs found, \<open>F\<close>.\<close>

definition iter_inv ::
    "('c, 'log, 'ev) event_type \<Rightarrow> 'c \<Rightarrow> string \<Rightarrow> 'log list \<Rightarrow> 'log list \<Rightarrow> err option option \<Rightarrow> ('c, 'log, 'ev) EventIterator \<Rightarrow> 'ev list \<Rightarrow> bool" where
  "iter_inv V c name F todo r it evs \<longleftrightarrow>
     it_contract it = c \<and> it_event it = name \<and> length evs \<le> length F
     \<and> map Inr evs = map (parse_event V c name) (take (length evs) F)
     \<and> (r = None \<longleftrightarrow> it_sub it = None) \<and> (r = None \<longrightarrow> \<not> it_done it)
     \<and> (case it_fail it of
          None \<Rightarrow> it_logs it @ todo = drop (length evs) F \<and> (it_done it \<or> it_sub it = Some None \<longrightarrow> todo = [])
            \<and> (\<forall>e. it_sub it = Some (Some e) \<longrightarrow> r = Some (Some e))
        | Some e \<Rightarrow> r = Some (Some e) \<or> length evs < length F \<and> parse_event V c name (F ! length evs) = Inl e)"

lemma iter_inv_deliver:
  assumes inv: "iter_inv V c name F todo r it evs" and "it_fail it = None" "it_logs it = log # rest"
    and "(b, it') = deliver V log (it\<lparr>it_logs := rest\<rparr>)"
  shows "iter_inv V c name F todo r it' (if b then evs @ [the (it_Event it')] else evs)"
proof -
  have it: "it_contract it = c" "it_event it = name" "log # rest @ todo = drop (length evs) F"
    and evs: "map Inr evs = map (parse_event V c name) (take (length evs) F)"
    using inv assms(2,3) by (simp_all add: iter_inv_def)
  have len: "length evs < length F" using it(3) by (metis drop_all list.distinct(1) not_le)
  then have nth: "F ! length evs = log" "drop (Suc (length evs)) F = rest @ todo"
    using it(3) by (simp_all add: Cons_nth_drop_Suc [symmetric])
  show ?thesis
  proof (cases "parse_event V c name log")
    case (Inl e)
    then have "\<not> b" "it' = it\<lparr>it_logs := rest, it_Event := it_Event it', it_fail := Some e\<rparr>"
      using assms(4) deliver_parse [of V log "it\<lparr>it_logs := rest\<rparr>"] it(1,2) by (auto simp: prod_eq_iff)
    moreover have "iter_inv V c name F todo r (it\<lparr>it_logs := rest, it_Event := x, it_fail := Some e\<rparr>) evs" for x
      using inv len nth(1) Inl by (simp add: iter_inv_def)
    ultimately show ?thesis by metis
  next
    case (Inr ev)
    then have d: "b" "it' = it\<lparr>it_logs := rest, it_Event := Some ev\<rparr>"
      using assms(4) deliver_parse [of V log "it\<lparr>it_logs := rest\<rparr>"] it(1,2) by (auto simp: prod_eq_iff)
    then show ?thesis
      using inv assms(2) evs len nth Inr by (simp add: iter_inv_def take_Suc_conv_app_nth)
  qed
qed

lemma iter_inv_finished:
  "iter_inv V c name F todo r it evs \<Longrightarrow> it_fail it = None \<Longrightarrow> it_sub it = Some e \<Longrightarrow> iter_inv V c name F todo r (finished e it) evs"
  by (auto simp: iter_inv_def split: option.splits)

lemma iter_inv_Next:
  assumes "iter_inv V c name F todo r it evs" "Next V pick it = Some (b, it')"
  shows "iter_inv V c name F todo r it' (if b then evs @ [the (it_Event it')] else evs)"
  using assms(2)
proof (cases rule: Next_cases)
  case failed
  then show ?thesis using assms(1) by simp
next
  case (log log rest it1)
  have "iter_inv V c name F todo r it1 evs"
    using log(4) assms(1) iter_inv_finished [OF assms(1) log(1)] by auto
  then show ?thesis by (rule iter_inv_deliver) (use log in auto)
next
  case over
  then show ?thesis using assms(1) iter_inv_finished [OF assms(1)] by auto
next
  case (err e)
  then show ?thesis using iter_inv_finished [OF assms(1)] by auto
qed

lemma iter_run_inv:
  assumes "iter_run V it0 todo0 todo r it evs" "it_sub it0 = None" "\<not> it_done it0" "it_fail it0 = None"
  shows "iter_inv V (it_contract it0) (it_event it0) (it_logs it0 @ todo0) todo r it evs"
  using assms(1)
proof induction
  case start
  then show ?case using assms(2-4) by (simp add: iter_inv_def)
next
  case (sent log todo it evs)
  then show ?case by (auto simp: iter_inv_def split: option.splits)
next
  case (ended todo it evs e)
  then show ?case by (auto simp: iter_inv_def split: option.splits)
next
  case (moved todo r it evs pick it')
  then show ?case using iter_inv_Next [of V _ _ _ todo r it evs pick True it'] by simp
next
  case (stopped todo r it evs pick it')
  then show ?case using iter_inv_Next [of V _ _ _ todo r it evs pick False it'] by simp
qed

text \<open>What the invariant says about the events collected, and about a call of \<open>Next\<close> that returns false.\<close>

lemma iter_run_delivers:
  assumes "iter_run V it0 todo0 todo r it evs" "it_sub it0 = None" "\<not> it_done it0" "it_fail it0 = None"
    and F: "F = it_logs it0 @ todo0" and P: "P = parse_event V (it_contract it0) (it_event it0)"
  shows "map Inr evs = map P (take (length evs) F)"
    and "Next V pick it = Some (False, it') \<Longrightarrow> (case iterator_Error it' of
        None \<Rightarrow> length evs = length F
      | Some e \<Rightarrow> r = Some (Some e) \<or> length evs < length F \<and> P (F ! length evs) = Inl e)"
    and "r \<noteq> None \<Longrightarrow> Next V pick it \<noteq> None"
proof -
  note inv = iter_run_inv [OF assms(1-4), folded F]
  then show "map Inr evs = map P (take (length evs) F)" by (simp add: iter_inv_def P)
  show "Next V pick it \<noteq> None" if "r \<noteq> None" using inv that by (auto simp: Next_blocks_iff iter_inv_def)
  assume stop: "Next V pick it = Some (False, it')"
  have inv': "iter_inv V (it_contract it0) (it_event it0) F todo r it' evs"
    using iter_inv_Next [OF inv stop] by simp
  show "case iterator_Error it' of
      None \<Rightarrow> length evs = length F
    | Some e \<Rightarrow> r = Some (Some e) \<or> length evs < length F \<and> P (F ! length evs) = Inl e"
  proof (cases "it_fail it'")
    case (Some e)
    then show ?thesis using inv' by (simp add: iter_inv_def iterator_Error_def P)
  next
    case None
    have "it_logs it' = [] \<and> it_done it'"
      using stop
    proof (cases rule: Next_cases)
      case (log log rest it1)
      then show ?thesis using None by (auto simp: deliver_def split: prod.splits option.splits)
    qed (use None in auto)
    then have "drop (length evs) F = []" using inv' None by (auto simp: iter_inv_def)
    then show ?thesis using inv' None by (simp add: iter_inv_def iterator_Error_def)
  qed
qed

lemma filter_event_Ok:
  assumes "filter_event filterLogs name s opts w = (Ok it, w')"
  shows "it_contract it = sf_contract s" "it_event it = name" "\<not> it_done it" "it_fail it = None"
  using assms by (auto simp: filter_event_def go_bind_Ok_iff)

text \<open>
  C27: whatever the interleaving of an iterator with its subscription and the choices of its \<open>select\<close>, the events it has
  delivered are the first of the found logs, parsed and in order. When \<open>Next\<close> returns false without an error, all
  found logs were delivered; an error is the one the subscription ended with, or that of parsing the next log. Once the
  subscription has ended \<open>Next\<close> never blocks.
\<close>

theorem iterator_delivers:
  assumes "FilterNewBlocks filterLogs s opts w = (Ok it0, w')" "it_sub it0 = None"
    and "iter_run (NewBlocks_event unpack) it0 todo0 todo r it evs"
  shows "map Inr evs = map (ParseNewBlocks unpack s) (take (length evs) (it_logs it0 @ todo0))
    \<and> (\<forall>pick it'. SequencerNewBlocksIterator_Next unpack pick it = Some (False, it') \<longrightarrow> (case iterator_Error it' of
          None \<Rightarrow> length evs = length (it_logs it0 @ todo0)
        | Some e \<Rightarrow> r = Some (Some e)
            \<or> length evs < length (it_logs it0 @ todo0) \<and> ParseNewBlocks unpack s ((it_logs it0 @ todo0) ! length evs) = Inl e))
    \<and> (r \<noteq> None \<longrightarrow> (\<forall>pick. SequencerNewBlocksIterator_Next unpack pick it \<noteq> None))"
proof -
  note it0 = filter_event_Ok [OF assms(1) [unfolded FilterNewBlocks_def]]
  have P: "ParseNewBlocks unpack s = parse_event (NewBlocks_event unpack) (it_contract it0) (it_event it0)"
    by (simp add: fun_eq_iff ParseNewBlocks_def it0)
  show ?thesis
    unfolding SequencerNewBlocksIterator_Next_def
    using iter_run_delivers [OF assms(3,2) it0(3,4) refl P] by blast
qed

text \<open>The logs of the example are numbers, and only positive ones can be unpacked.\<close>

definition demo_unpack :: "unit \<Rightarrow> string \<Rightarrow> int \<Rightarrow> int SequencerNewBlocks \<Rightarrow> int SequencerNewBlocks \<times> err option" where
  "demo_unpack c name log ev = (if 0 < log then (ev\<lparr>nbs_FirstBlockNumber := Some log, nbs_NumBlocks := Some 1\<rparr>, None) else (ev, Some (ErrExternal 40)))"

definition demo_event :: "int \<Rightarrow> int SequencerNewBlocks" where
  "demo_event n = \<lparr>nbs_FirstBlockNumber = Some n, nbs_NumBlocks = Some 1, nbs_Raw = Some n\<rparr>"

theorem iterator_delivers_witness:
  "\<exists>it0 it it'. FilterNewBlocks (\<lambda>_ _ _ w. ((([5], None), None), w)) \<lparr>sf_contract = ()\<rparr> () () = (Ok it0, ())
     \<and> iter_run (NewBlocks_event demo_unpack) it0 [0] [] (Some None) it [demo_event 5]
     \<and> SequencerNewBlocksIterator_Next demo_unpack True it = Some (False, it')
     \<and> iterator_Error it' = Some (ErrExternal 40)
     \<and> ParseNewBlocks demo_unpack \<lparr>sf_contract = ()\<rparr> 0 = Inl (ErrExternal 40)"
proof -
  let ?V = "NewBlocks_event demo_unpack" and ?s = "\<lparr>sf_contract = ()\<rparr> :: unit SequencerFilterer"
  define it0 :: "(unit, int, int SequencerNewBlocks) EventIterator" where
    "it0 = \<lparr>it_Event = None, it_contract = (), it_event = ''NewBlocks'', it_logs = [5], it_sub = None, it_done = False, it_fail = None\<rparr>"
  define it1 where "it1 = it0\<lparr>it_Event := Some (demo_event 5), it_logs := []\<rparr>"
  define it2 where "it2 = it1\<lparr>it_logs := it_logs it1 @ [0]\<rparr>\<lparr>it_sub := Some None\<rparr>"
  have F: "FilterNewBlocks (\<lambda>_ _ _ w. ((([5], None), None), w)) ?s () () = (Ok it0, ())"
    by (simp add: FilterNewBlocks_def filter_event_def go_ext_def go_bind_def go_return_def it0_def)
  have "Next ?V True it0 = Some (True, it1)"
    by (subst Next.simps) (simp add: it0_def it1_def deliver_def NewBlocks_event_def demo_unpack_def demo_event_def)
  from iter_run.moved [OF iter_run.start this, of "[0]"] have "iter_run ?V it0 [0] [0] None it1 [demo_event 5]"
    by (simp add: it1_def)
  from iter_run.ended [OF iter_run.sent [OF this], of None] have run: "iter_run ?V it0 [0] [] (Some None) it2 [demo_event 5]"
    by (simp add: it2_def)
  obtain it' where nx: "SequencerNewBlocksIterator_Next demo_unpack True it2 = Some (False, it')" "iterator_Error it' = Some (ErrExternal 40)"
    unfolding SequencerNewBlocksIterator_Next_def
    by (subst (asm) Next.simps) (simp add: it0_def it1_def it2_def deliver_def NewBlocks_event_def demo_unpack_def iterator_Error_def)
  have "it_sub it0 = None" "it_logs it0 = [5]" by (simp_all add: it0_def)
  with iterator_delivers [OF F _ run] nx have "ParseNewBlocks demo_unpack ?s 0 = Inl (ErrExternal 40)" by fastforce
  with F run nx show ?thesis by blast
qed

section \<open>Watching\<close>

text \<open>The last thing a watcher received, and the error it returns for it.\<close>

fun ends_watch :: "('log \<Rightarrow> err + 'ev) \<Rightarrow> 'log received \<Rightarrow> err option \<Rightarrow> bool" where
  "ends_watch P (GotErr e) r \<longleftrightarrow> r = e"
| "ends_watch P GotQuit r \<longleftrightarrow> r = None"
| "ends_watch P (GotLog log out) r \<longleftrightarrow> (case P log of
       Inl e \<Rightarrow> r = Some e
     | Inr ev \<Rightarrow> out = Quit \<and> r = None \<or> out = SubErr r)"

lemma watch_event_run:
  assumes "watch_event V c name ins sink = (sink', r, u)" "P = parse_event V c name"
  shows "\<exists>logs evs rest. ins = map (\<lambda>log. GotLog log Sent) logs @ rest \<and> sink' = sink @ evs \<and> map Inr evs = map P logs
    \<and> (case r of None \<Rightarrow> rest = [] \<and> \<not> u | Some e \<Rightarrow> rest \<noteq> [] \<and> ends_watch P (hd rest) e \<and> u)"
  using assms(1)
proof (induction ins arbitrary: sink)
  case Nil
  then show ?case by auto
next
  case (Cons x ins)
  show ?case
  proof (cases "\<exists>log ev. x = GotLog log Sent \<and> P log = Inr ev")
    case True
    then obtain log ev where x: "x = GotLog log Sent" "P log = Inr ev" by blast
    then have "watch_event V c name ins (sink @ [ev]) = (sink', r, u)"
      using Cons.prems by (auto simp: assms(2) parse_event_def split: prod.splits option.splits)
    from Cons.IH [OF this] obtain logs evs rest where
      "ins = map (\<lambda>log. GotLog log Sent) logs @ rest" "sink' = sink @ [ev] @ evs" "map Inr evs = map P logs"
      "case r of None \<Rightarrow> rest = [] \<and> \<not> u | Some e \<Rightarrow> rest \<noteq> [] \<and> ends_watch P (hd rest) e \<and> u" by auto
    with x show ?thesis by (intro exI [of _ "log # logs"] exI [of _ "ev # evs"] exI [of _ rest]) simp
  next
    case False
    have "\<exists>e. r = Some e \<and> ends_watch P x e \<and> u \<and> sink' = sink"
    proof (cases x)
      case (GotLog log out)
      with False Cons.prems show ?thesis
        by (cases out) (auto simp: assms(2) parse_event_def split: prod.splits option.splits)
    qed (use Cons.prems in auto)
    then show ?thesis by (intro exI [of _ "[]"] exI [of _ "[]"] exI [of _ "x # ins"]) auto
  qed
qed

text \<open>
  C28: a watcher that was started has sent to its sink exactly the events of the logs it received, parsed and in order, except
  for the last thing received: it returns, and gives up its subscription, at the first error of the subscription, the
  first log that cannot be parsed, or when it is told to quit, and then at most that one log is not forwarded.
\<close>

theorem watch_forwards:
  assumes "WatchNewBlocks watch unpack s opts ins w = (Ok (sink, r, unsubscribed), w')"
  shows "\<exists>logs rest. ins = map (\<lambda>log. GotLog log Sent) logs @ rest \<and> map Inr sink = map (ParseNewBlocks unpack s) logs
    \<and> (case r of None \<Rightarrow> rest = [] \<and> \<not> unsubscribed
       | Some e \<Rightarrow> rest \<noteq> [] \<and> ends_watch (ParseNewBlocks unpack s) (hd rest) e \<and> unsubscribed)"
proof -
  have "watch_event (NewBlocks_event unpack) (sf_contract s) ''NewBlocks'' ins [] = (sink, r, unsubscribed)"
    using assms by (auto simp: WatchNewBlocks_def go_bind_Ok_iff)
  moreover have "ParseNewBlocks unpack s = parse_event (NewBlocks_event unpack) (sf_contract s) ''NewBlocks''"
    by (simp add: fun_eq_iff ParseNewBlocks_def)
  ultimately show ?thesis using watch_event_run by (metis append_Nil)
qed

theorem watch_forwards_witness:
  "WatchNewBlocks (\<lambda>_ _ _ w. (((), None), w)) demo_unpack \<lparr>sf_contract = ()\<rparr> () [GotLog 5 Sent, GotLog 6 Quit, GotQuit] ()
     = (Ok ([demo_event 5], Some None, True), ())
   \<and> ends_watch (ParseNewBlocks demo_unpack \<lparr>sf_contract = ()\<rparr>) (GotLog 6 Quit) None"
proof -
  let ?s = "\<lparr>sf_contract = ()\<rparr> :: unit SequencerFilterer"
  have run: "WatchNewBlocks (\<lambda>_ _ _ w. (((), None), w)) demo_unpack ?s () [GotLog 5 Sent, GotLog 6 Quit, GotQuit] ()
     = (Ok ([demo_event 5], Some None, True), ())"
    by (simp add: WatchNewBlocks_def go_ext_def go_bind_def go_return_def NewBlocks_event_def demo_unpack_def demo_event_def)
  then show ?thesis using watch_forwards [OF run] by auto
qed

end
