(* ===== verification/Seq_Cli.thy ===== *)
theory Seq_Cli
  imports Seq_Client
begin

text \<open>
  \<open>src/cmd/seq-cli/cmd\<close>: the command line client, sending actions. A command prompts for its arguments, builds actions, sends
  them in a transaction and listens until the result of the transaction arrives. Prompts, keys and
  connections are those of the SDK and are parameters; what is printed is left out. Shown: when sending
  returns, and whether the chain accepts what the commands send.
\<close>

section \<open>Code outside the repository\<close>

text \<open>
  The SDK's handler of the command line, its JSON client and its websocket client (\<open>cj_\<close>, \<open>ws_\<close>: for an
  endpoint), key generation, and the requester at the types of the methods called here; \<open>'sk\<close> is a private
  key of BLS, \<open>'tx\<close> a transaction, \<open>'w\<close> the world.
\<close>

record ('sk, 'tx, 'w) cli_sdk =
  GetDefaultKey :: "bool \<Rightarrow> ('w, Address \<times> bytes) call"
  GetDefaultChain :: "bool \<Rightarrow> ('w, ID \<times> string list) call"
  StoreKey :: "Address \<times> bytes \<Rightarrow> ('w, unit) call"
  StoreDefaultKey :: "Address \<Rightarrow> ('w, unit) call"
  PromptAddress :: "string \<Rightarrow> ('w, Address) call"
  PromptAmount :: "string \<Rightarrow> u8 \<Rightarrow> u64 \<Rightarrow> ('w, u64) call"
  PromptContinue :: "('w, bool) call"
  PromptString :: "string \<Rightarrow> i64 \<Rightarrow> i64 \<Rightarrow> ('w, string) call"
  PromptChoice :: "string \<Rightarrow> i64 \<Rightarrow> ('w, i64) call"
  PromptBool :: "string \<Rightarrow> ('w, bool) call"
  PromptUint64 :: "string \<Rightarrow> ('w, u64) call"
  cj_Network :: "string \<Rightarrow> ('w, u32) call"
  cj_Accepted :: "string \<Rightarrow> ('w, u64) call"
  cj_GetCurrentEpoch :: "string \<Rightarrow> ('w, u64) call"
  cj_GenerateTransaction :: "string \<Rightarrow> Parser \<Rightarrow> Action list \<Rightarrow> ED25519Factory \<Rightarrow> u64 \<Rightarrow> ('w, 'tx) call"
  NewWebSocketClient :: "string \<Rightarrow> ('w, unit) call"
  ws_RegisterTx :: "'tx \<Rightarrow> ('w, unit) call"
  ws_ListenTx :: "'w \<Rightarrow> (ID \<times> err option \<times> Result option \<times> err option) \<times> 'w"
  ctx_ID :: "'tx \<Rightarrow> ID"
  AddressBech32 :: "string \<Rightarrow> Address \<Rightarrow> err + string"
  ed25519_PrivateKeyLen :: nat
  LoadBytes :: "string \<Rightarrow> nat \<Rightarrow> ('w, bytes) call"
  GenerateEd25519 :: "('w, bytes) call"
  GenerateBLS :: "('w, 'sk) call"
  val_UpdateArcadiaURL :: "string \<Rightarrow> string \<Rightarrow> ('w, unit) call"
  send_genesis :: "(unit, GenesisReply, 'w) sender"
  send_balance :: "(BalanceArgs, BalanceReply, 'w) sender"
  send_window :: "(unit, i64, 'w) sender"
  send_registry :: "(unit, RegistryReply, 'w) sender"
  send_headers :: "(GetBlockHeadersByStartTimeStampArgs, BlockHeadersResponse, 'w) sender"

text \<open>
  The state of a command is the client it made last and the world. A call on that client, and a call
  whose error is ignored.
\<close>

type_synonym 'w cli = "JSONRPCClient \<times> 'w"

definition with_client :: "(JSONRPCClient \<Rightarrow> ('w, 'v) call) \<Rightarrow> ('w cli, 'v) go" where
  "with_client f = (\<lambda>(cli, w). go_call (f cli) (cli, w))"

definition go_ignore :: "('w, 'v) call \<Rightarrow> ('w cli, 'v) go" where
  "go_ignore f = (\<lambda>(cli, w). case f w of ((v, _), w) \<Rightarrow> (Ok v, (cli, w)))"

definition set_client :: "JSONRPCClient \<Rightarrow> ('w cli, unit) go" where
  "set_client cli = (\<lambda>(_, w). (Ok (), (cli, w)))"

text \<open>A slice converted to the array of a private key.\<close>

definition to_PrivateKey :: "('sk, 'tx, 'w) cli_sdk \<Rightarrow> bytes \<Rightarrow> bytes res" where
  "to_PrivateKey K p = (if length p < ed25519_PrivateKeyLen K then Panic IndexOutOfRange else Ok (take (ed25519_PrivateKeyLen K) p))"

section \<open>handler.go\<close>

definition consts_Symbol :: string where "consts_Symbol = ''SEQ''"
definition consts_Decimals :: u8 where "consts_Decimals = 9"

record CliController =
  databasePath :: string

definition NewController :: "string \<Rightarrow> CliController" where "NewController path = \<lparr>databasePath = path\<rparr>"

definition CliController_DatabasePath :: "CliController \<Rightarrow> string" where "CliController_DatabasePath c = databasePath c"
definition CliController_Symbol :: string where "CliController_Symbol = consts_Symbol"
definition CliController_Decimals :: u8 where "CliController_Decimals = consts_Decimals"

definition CliController_Address :: "'x sdk_scheme \<Rightarrow> Address \<Rightarrow> string res" where
  "CliController_Address E addr = MustAddressBech32 E HRP addr"

definition CliController_ParseAddress :: "'x sdk_scheme \<Rightarrow> string \<Rightarrow> err + Address" where
  "CliController_ParseAddress E address = ParseAddressBech32 E HRP address"

text \<open>What \<open>DefaultActor\<close> returns; the clients are those for the first URI.\<close>

record Actor =
  act_chainID :: ID
  act_key :: "Address \<times> bytes"
  act_factory :: ED25519Factory
  act_uri :: string

definition DefaultActor :: "('sk, 'tx, 'w) cli_sdk \<Rightarrow> ('w cli, Actor) go" where
  "DefaultActor K =
     go_bind (go_call (GetDefaultKey K True)) (\<lambda>(addr, priv).
     go_bind (go_call (GetDefaultChain K True)) (\<lambda>(chainID, uris).
     case uris of
       [] \<Rightarrow> go_panic IndexOutOfRange
     | uri # _ \<Rightarrow>
         go_bind (go_call (cj_Network K uri)) (\<lambda>networkID.
         go_bind (go_call (NewWebSocketClient K uri)) (\<lambda>_.
         go_bind (go_lift (to_PrivateKey K priv)) (\<lambda>pk.
         go_bind (set_client (NewJSONRPCClient uri networkID chainID)) (\<lambda>_.
         go_return \<lparr>act_chainID = chainID, act_key = (addr, priv), act_factory = NewED25519Factory pk, act_uri = uri\<rparr>))))))"

definition Handler_GetBalance :: "('sk, 'tx, 'w) cli_sdk \<Rightarrow> Address \<Rightarrow> ('w cli, u64) go" where
  "Handler_GetBalance K addr =
     go_bind (go_lift (of_sum (AddressBech32 K HRP addr))) (\<lambda>saddr.
     with_client (\<lambda>cli. JSONRPCClient_Balance (send_balance K) cli saddr))"

section \<open>resolutions.go\<close>

text \<open>The parser of the client, whose cache it may fill.\<close>

definition cli_parser :: "('sk, 'tx, 'w) cli_sdk \<Rightarrow> ('w cli, Parser) go" where
  "cli_parser K s = (case JSONRPCClient_Parser (send_genesis K) s of
       ((_, Some e), s) \<Rightarrow> (Error e, s)
     | ((None, None), s) \<Rightarrow> (Panic NilDereference, s)
     | ((Some p, None), s) \<Rightarrow> (Ok p, s))"

definition send_tx ::
    "('sk, 'tx, 'w) cli_sdk \<Rightarrow> string \<Rightarrow> Action list \<Rightarrow> ED25519Factory \<Rightarrow> u64 \<Rightarrow> ('w cli, 'tx) go" where
  "send_tx K uri acts factory priorityFee =
     go_bind (cli_parser K) (\<lambda>parser.
     go_bind (go_call (cj_GenerateTransaction K uri parser acts factory priorityFee)) (\<lambda>tx.
     go_bind (go_call (ws_RegisterTx K tx)) (\<lambda>_.
     go_return tx)))"

text \<open>One turn of the loop that listens for the result of the transaction \<open>i\<close>: the result is kept and the loop left when it is there.\<close>

definition listened :: "('sk, 'tx, 'w) cli_sdk \<Rightarrow> ID \<Rightarrow> ('w \<times> Result option, bool) call" where
  "listened K i = (\<lambda>(w, res). case ws_ListenTx K w of
       ((txID, Some d, result, err), w) \<Rightarrow> ((False, Some d), (w, res))
     | ((txID, None, result, Some e), w) \<Rightarrow> ((False, Some e), (w, res))
     | ((txID, None, result, None), w) \<Rightarrow> if txID = i then ((True, None), (w, result)) else ((False, None), (w, res)))"

text \<open>\<open>None\<close>: the loop does not end.\<close>

definition sendAndWait ::
    "('sk, 'tx, 'w) cli_sdk \<Rightarrow> string \<Rightarrow> Action list \<Rightarrow> ED25519Factory \<Rightarrow> u64 \<Rightarrow> bool \<Rightarrow> 'w cli \<Rightarrow> (ID res \<times> 'w cli) option" where
  "sendAndWait K uri acts factory priorityFee printStatus s =
     (case send_tx K uri acts factory priorityFee s of
        (Error e, s) \<Rightarrow> Some (Error e, s)
      | (Panic p, s) \<Rightarrow> Some (Panic p, s)
      | (Ok tx, (cli, w)) \<Rightarrow>
          (case poll (\<lambda>_. None) (\<lambda>s. s) (listened K (ctx_ID K tx)) (w, None) of
             None \<Rightarrow> None
           | Some (Some e, (w, _)) \<Rightarrow> Some (Error e, (cli, w))
           | Some (None, (w, res)) \<Rightarrow>
               if printStatus \<and> res = None then Some (Panic NilDereference, (cli, w))
               else Some (Ok (ctx_ID K tx), (cli, w))))"

section \<open>action.go\<close>

definition priorityFee :: u64 where "priorityFee = 0"

text \<open>
  A command up to its transaction: the actor, the actions and the priority fee; \<open>None\<close> when it
  ends before without an error. Then the transaction is sent.
\<close>

type_synonym 'w prepared = "('w cli, (Actor \<times> Action list \<times> u64) option) go"

definition run_command :: "('sk, 'tx, 'w) cli_sdk \<Rightarrow> 'w prepared \<Rightarrow> 'w cli \<Rightarrow> (unit res \<times> 'w cli) option" where
  "run_command K prepare s =
     (case prepare s of
        (Error e, s) \<Rightarrow> Some (Error e, s)
      | (Panic p, s) \<Rightarrow> Some (Panic p, s)
      | (Ok None, s) \<Rightarrow> Some (Ok (), s)
      | (Ok (Some (a, acts, fee)), s) \<Rightarrow>
          (case sendAndWait K (act_uri a) acts (act_factory a) fee True s of
             None \<Rightarrow> None
           | Some (r, s) \<Rightarrow> Some (res_bind r (\<lambda>_. Ok ()), s)))"

definition prepare_transfer :: "('sk, 'tx, 'w) cli_sdk \<Rightarrow> 'w prepared" where
  "prepare_transfer K =
     go_bind (DefaultActor K) (\<lambda>a.
     go_bind (Handler_GetBalance K (fst (act_key a))) (\<lambda>balance.
     if balance = 0 then go_return None else
     go_bind (go_call (PromptAddress K ''recipient'')) (\<lambda>recipient.
     go_bind (go_call (PromptAmount K ''amount'' consts_Decimals balance)) (\<lambda>amount.
     go_bind (go_call (PromptContinue K)) (\<lambda>cont.
     if \<not> cont then go_return None else
     go_return (Some (a, [ATransfer \<lparr>t_To = recipient, t_Value = amount, t_Memo = []\<rparr>], priorityFee)))))))"

definition transferCmd :: "('sk, 'tx, 'w) cli_sdk \<Rightarrow> 'w cli \<Rightarrow> (unit res \<times> 'w cli) option" where
  "transferCmd K = run_command K (prepare_transfer K)"

definition prepare_msg :: "('sk, 'tx, 'w) cli_sdk \<Rightarrow> 'w prepared" where
  "prepare_msg K =
     go_bind (DefaultActor K) (\<lambda>a.
     go_bind (go_call (PromptAddress K ''recipient'')) (\<lambda>recipient.
     go_bind (go_call (PromptContinue K)) (\<lambda>cont.
     if \<not> cont then go_return None else
     go_return (Some (a, [ASequencerMsg \<lparr>sm_ChainID = map of_char ''nkit'', sm_Data = [0, 1, 2], sm_FromAddress = recipient,
       sm_RelayerID = 0\<rparr>], priorityFee)))))"

definition sequencerMsgCmd :: "('sk, 'tx, 'w) cli_sdk \<Rightarrow> 'w cli \<Rightarrow> (unit res \<times> 'w cli) option" where
  "sequencerMsgCmd K = run_command K (prepare_msg K)"

definition cli_registration :: "u64 \<Rightarrow> bytes \<Rightarrow> Address \<Rightarrow> i64 \<Rightarrow> RollupRegistration" where
  "cli_registration e namespace feeRecipient opCode =
     \<lparr>rr_Info = \<lparr>ri_FeeRecipient = feeRecipient, ri_Namespace = namespace, ri_AuthoritySEQAddress = feeRecipient,
        ri_SequencerPublicKey = feeRecipient, ri_StartEpoch = e + 10, ri_ExitEpoch = 0\<rparr>,
      rr_Namespace = namespace, rr_OpCode = opCode\<rparr>"

definition prepare_rollup :: "('sk, 'tx, 'w) cli_sdk \<Rightarrow> 'w prepared" where
  "prepare_rollup K =
     go_bind (DefaultActor K) (\<lambda>a.
     go_bind (go_call (PromptString K ''namespace'' 0 8)) (\<lambda>namespaceStr.
     let namespace = map of_char namespaceStr in
     go_bind (go_call (PromptAddress K ''feeRecipient'')) (\<lambda>feeRecipient.
     go_bind (go_call (PromptChoice K ''(0)create (1)exit (2)update'' 3)) (\<lambda>opCode.
     go_bind (go_ignore (cj_GetCurrentEpoch K (act_uri a))) (\<lambda>e.
     go_return (Some (a, [ARollupRegistration (cli_registration e namespace feeRecipient opCode)], 0)))))))"

definition rollupCmd :: "('sk, 'tx, 'w) cli_sdk \<Rightarrow> 'w cli \<Rightarrow> (unit res \<times> 'w cli) option" where
  "rollupCmd K = run_command K (prepare_rollup K)"

text \<open>The actions of a bid with the key \<open>p\<close> of the builder.\<close>

definition cli_bid_message :: "u64 \<Rightarrow> u64 \<Rightarrow> bytes \<Rightarrow> bytes" where
  "cli_bid_message epochNumber bidPrice pubKeyBytes = be64 epochNumber @ be64 bidPrice @ pubKeyBytes"

definition cli_auction :: "('p, 'pk, 'sg, 'sk, 'x) crypto_scheme \<Rightarrow> u64 \<Rightarrow> u64 \<Rightarrow> 'sk \<Rightarrow> Auction" where
  "cli_auction E hght bidPrice p =
     (let epochNumber = hght div 12 * MillisecondsPerSecond E + 1;
          builderSEQAddress = NewBLSAddress E (bls_PublicFromPrivateKey E p);
          pubKeyBytes = bls_PublicKeyToBytes E (bls_PublicFromPrivateKey E p);
          builderMsg = cli_bid_message epochNumber bidPrice pubKeyBytes;
          sig = bls_Sign E builderMsg p in
      \<lparr>au_AuctionInfo = \<lparr>ai_EpochNumber = epochNumber, ai_BidPrice = bidPrice, ai_BuilderSEQAddress = builderSEQAddress\<rparr>,
       au_BuilderPublicKey = pubKeyBytes, au_BuilderSignature = bls_SignatureToBytes E sig\<rparr>)"

definition prepare_auction :: "('p, 'pk, 'sg, 'sk, 'x) crypto_scheme \<Rightarrow> ('sk, 'tx, 'w) cli_sdk \<Rightarrow> 'w prepared" where
  "prepare_auction E K =
     go_bind (DefaultActor K) (\<lambda>a.
     go_bind (go_call (PromptAmount K ''bid price'' consts_Decimals 0)) (\<lambda>bidPrice.
     go_bind (go_call (cj_Accepted K (act_uri a))) (\<lambda>hght.
     go_bind (go_call (GenerateBLS K)) (\<lambda>p.
     let auction = cli_auction E hght bidPrice p in
     go_return (Some (a, [ATransfer \<lparr>t_To = ai_BuilderSEQAddress (au_AuctionInfo auction), t_Value = bidPrice * 2, t_Memo = []\<rparr>,
       AAuction auction], 0))))))"

definition auctionCmd :: "('p, 'pk, 'sg, 'sk, 'x) crypto_scheme \<Rightarrow> ('sk, 'tx, 'w) cli_sdk \<Rightarrow> 'w cli \<Rightarrow> (unit res \<times> 'w cli) option" where
  "auctionCmd E K = run_command K (prepare_auction E K)"

definition updateArcadiaURL :: "('sk, 'tx, 'w) cli_sdk \<Rightarrow> ('w cli, unit) go" where
  "updateArcadiaURL K =
     go_bind (go_call (PromptString K ''val rpc url'' 1 100)) (\<lambda>val.
     go_bind (go_call (PromptString K ''new arcadia url'' 1 150)) (\<lambda>str.
     go_call (val_UpdateArcadiaURL K val str)))"

section \<open>Listening\<close>

text \<open>Between the worlds \<open>w\<close> and \<open>w'\<close> only results of transactions other than \<open>i\<close> were heard.\<close>

inductive skips :: "('sk, 'tx, 'w) cli_sdk \<Rightarrow> ID \<Rightarrow> 'w \<Rightarrow> 'w \<Rightarrow> bool" for K i where
  none: "skips K i w w"
| other: "ws_ListenTx K w = ((j, None, r, None), w1) \<Longrightarrow> j \<noteq> i \<Longrightarrow> skips K i w1 w2 \<Longrightarrow> skips K i w w2"

text \<open>What the loop returns for what it hears next, \<open>None\<close> when it listens again.\<close>

fun heard :: "ID \<Rightarrow> ID \<times> err option \<times> Result option \<times> err option \<Rightarrow> (err option \<times> Result option) option" where
  "heard i (_, Some d, _, _) = Some (Some d, None)"
| "heard i (_, None, _, Some e) = Some (Some e, None)"
| "heard i (j, None, r, None) = (if j = i then Some (None, r) else None)"

lemma listened_heard:
  "ws_ListenTx K w = (h, w') \<Longrightarrow> listened K i (w, None) = (case heard i h of
     None \<Rightarrow> ((False, None), (w', None))
   | Some (None, r) \<Rightarrow> ((True, None), (w', r))
   | Some (Some e, _) \<Rightarrow> ((False, Some e), (w', None)))"
  by (cases "(i, h)" rule: heard.cases) (simp_all add: listened_def)

lemma heard_None: "heard i h = None \<longleftrightarrow> (\<exists>j r. h = (j, None, r, None) \<and> j \<noteq> i)"
  by (cases "(i, h)" rule: heard.cases) simp_all

lemma poll_listened:
  "poll (\<lambda>_. None) (\<lambda>s. s) (listened K i) (w, None) =
    (case ws_ListenTx K w of (h, w') \<Rightarrow> (case heard i h of
       None \<Rightarrow> poll (\<lambda>_. None) (\<lambda>s. s) (listened K i) (w', None)
     | Some (None, r) \<Rightarrow> Some (None, (w', r))
     | Some (Some e, _) \<Rightarrow> Some (Some e, (w', None))))"
  by (subst poll.simps) (auto simp: listened_heard split: prod.splits option.splits)

lemma poll_skips:
  "skips K i w w' \<Longrightarrow> poll (\<lambda>_. None) (\<lambda>s. s) (listened K i) (w, None) = poll (\<lambda>_. None) (\<lambda>s. s) (listened K i) (w', None)"
  by (induction rule: skips.induct) (simp_all add: poll_listened [of K i])

text \<open>Conversely a loop that returns has heard something else than a skipped result.\<close>

lemma poll_hears_aux:
  assumes "poll c p ch s = Some y"
  shows "c = (\<lambda>_. None) \<Longrightarrow> p = (\<lambda>s. s) \<Longrightarrow> ch = listened K i \<Longrightarrow> snd s = None \<Longrightarrow>
    \<exists>w1 h. skips K i (fst s) w1 \<and> ws_ListenTx K w1 = (h, fst (snd y)) \<and> heard i h = Some (fst y, snd (snd y))"
  using assms
proof (induction rule: poll.raw_induct [rotated, consumes 1])
  case (1 f c p ch s y)
  obtain w h w1 where w: "s = (w, None)" "ws_ListenTx K w = (h, w1)" using 1(6) by (metis prod.collapse)
  note run = 1(2) [unfolded 1(3-5) w, simplified listened_heard [OF w(2)]]
  show ?case
  proof (cases "heard i h")
    case None
    with run have "f (\<lambda>_. None) (\<lambda>s. s) (listened K i) (w1, None) = Some y" by simp
    from 1(1) [OF this] obtain w2 h2 where
      "skips K i w1 w2" "ws_ListenTx K w2 = (h2, fst (snd y))" "heard i h2 = Some (fst y, snd (snd y))" by auto
    moreover obtain j q where "h = (j, None, q, None)" "j \<noteq> i" using None by (auto simp: heard_None)
    ultimately show ?thesis using w skips.other [of K w j q w1 i w2] by (intro exI [of _ w2] exI [of _ h2]) simp
  next
    case (Some a)
    with run have "y = (fst a, (w1, snd a))" 
      by (cases "(i, h)" rule: heard.cases) (auto split: if_splits)
    then show ?thesis using w Some skips.none [of K i w] by (intro exI [of _ w] exI [of _ h]) simp
  qed
qed

lemma poll_hears:
  assumes "poll (\<lambda>_. None) (\<lambda>s. s) (listened K i) (w, None) = Some (e, (w', r))"
  shows "\<exists>w1 h. skips K i w w1 \<and> ws_ListenTx K w1 = (h, w') \<and> heard i h = Some (e, r)"
  using poll_hears_aux [OF assms refl refl refl] by simp

text \<open>
  C22: once its transaction is registered, sending returns exactly when, after finitely many results of other
  transactions, the connection reports an error or the result of this one. It then returns that error, or
  the ID of the transaction: also when the result is that the transaction failed. Only a report without a
  result, whose status cannot be printed, is a panic.
\<close>

theorem send_and_wait_returns:
  assumes "send_tx K uri acts factory fee s = (Ok tx, (cli, w))"
  shows "sendAndWait K uri acts factory fee printStatus s = Some (r, s') \<longleftrightarrow>
    (\<exists>w1 w' h e res. skips K (ctx_ID K tx) w w1 \<and> ws_ListenTx K w1 = (h, w') \<and> heard (ctx_ID K tx) h = Some (e, res)
       \<and> s' = (cli, w') \<and> r = (case e of Some e \<Rightarrow> Error e
           | None \<Rightarrow> if printStatus \<and> res = None then Panic NilDereference else Ok (ctx_ID K tx)))"
    (is "?returns \<longleftrightarrow> (\<exists>w1 w' h e res. ?hears w1 w' h e res)")
proof
  let ?i = "ctx_ID K tx"
  assume ?returns
  then obtain e w' res where p: "poll (\<lambda>_. None) (\<lambda>s. s) (listened K ?i) (w, None) = Some (e, (w', res))"
      "s' = (cli, w')"
      "r = (case e of Some e \<Rightarrow> Error e | None \<Rightarrow> if printStatus \<and> res = None then Panic NilDereference else Ok ?i)"
    using assms by (auto simp: sendAndWait_def split: option.splits prod.splits if_splits)
  then show "\<exists>w1 w' h e res. ?hears w1 w' h e res" using poll_hears [OF p(1)] by blast
next
  let ?i = "ctx_ID K tx"
  assume "\<exists>w1 w' h e res. ?hears w1 w' h e res"
  then obtain w1 w' h e res where h: "?hears w1 w' h e res" by blast
  then have "poll (\<lambda>_. None) (\<lambda>s. s) (listened K ?i) (w, None) = Some (e, (w', if e = None then res else None))"
    using poll_skips [of K ?i w w1] poll_listened [of K ?i w1] by (auto split: option.splits)
  then show ?returns using assms h by (auto simp: sendAndWait_def split: option.splits)
qed

section \<open>What the chain does with the actions of the client\<close>

text \<open>
  C25: a registration of the client that the chain accepts is never an exit, since the exit epoch it sends is
  \<open>0\<close> (as long as the current epoch is not the last but one of 64 bits). An accepted one leaves the fee
  recipient as the authority of the rollup, whoever sent it; a new namespace can only be created.
\<close>

theorem cli_registration_outcome:
  assumes "rollups S E" "registry_ok E S m" "GetEpochLength rules \<noteq> 0" "hght div GetEpochLength rules + 2 \<noteq> 0"
    and "RollupRegistration_Execute E S (cli_registration e ns feeRecipient opCode) rules ts hght actor aid m = (Ok out, m')"
  shows "(opCode = CreateRollup \<or> opCode = UpdateRollup)
    \<and> map_option ri_AuthoritySEQAddress (rollups_of E S m' ns) = Some feeRecipient
    \<and> (case rollups_of E S m ns of None \<Rightarrow> opCode = CreateRollup | Some j \<Rightarrow> ri_AuthoritySEQAddress j = actor)"
proof -
  let ?r = "cli_registration e ns feeRecipient opCode" and ?epoch = "hght div GetEpochLength rules"
  have ns: "rr_Namespace ?r = ns" by (simp add: cli_registration_def)
  obtain nss where nss: "registry_of E S m = Ok nss" using assms(2) by (auto simp: registry_ok_def)
  from assms(2) nss assms(3) show ?thesis
  proof (cases rule: Execute_cases [where r = ?r and hght = hght and actor = actor and ts = ts and aid = aid])
    case (refused e)
    then show ?thesis using assms(5) by simp
  next
    case (recorded new w)
    have "rollups_of E S m' = (rollups_of E S m)(ns \<mapsto> new)"
      using rollups.record_rollup_rollups [OF assms(1,2) nss recorded(3), of w new out m'] recorded(2) assms(5) ns by simp
    then show ?thesis
      using recorded(1) assms(4) unfolding ns
      by (auto simp: info_recorded_def cli_registration_def CreateRollup_def UpdateRollup_def Let_def split: option.splits if_splits)
  qed
qed

text \<open>
  C26: no bid of the client is ever accepted, at any height and by any actor: it signs the concatenation of
  epoch, price and public key, and the chain verifies the hash of epoch, price and address. The hypothesis on
  the signature is that it is not one of another message.
\<close>

theorem cli_auction_refused:
  assumes "signing E" "bls_PublicKeyLen E = 48" "GetEpochLength rules \<noteq> 0"
    and "\<forall>msg. length msg = 32 \<longrightarrow> msg \<noteq> cli_bid_message epochNumber bidPrice pubKeyBytes \<longrightarrow>
      \<not> bls_Verify E msg (bls_PublicFromPrivateKey E p) (bls_Sign E (cli_bid_message epochNumber bidPrice pubKeyBytes) p)"
    and "epochNumber = lastAccepted div 12 * MillisecondsPerSecond E + 1"
    and "pubKeyBytes = bls_PublicKeyToBytes E (bls_PublicFromPrivateKey E p)"
  shows "\<exists>e. Auction_Execute E S (cli_auction E lastAccepted bidPrice p) rules ts hght actor aid m = (Error e, m)"
proof (rule Auction_Execute_unauthorised [OF assms(3)])
  let ?msg = "cli_bid_message epochNumber bidPrice pubKeyBytes"
  have "length ?msg = 64" using signing.bls_lengths(1) [OF assms(1), where sk = p] assms(2,6) by (simp add: cli_bid_message_def)
  then have "\<not> bls_Verify E (sha256_Sum256 b) (bls_PublicFromPrivateKey E p) (bls_Sign E ?msg p)" for b
    using assms(4) length_sha256 [of b] by fastforce
  then show "\<not> bid_authorised E (cli_auction E lastAccepted bidPrice p) rules hght actor"
    using signing.bls_parse [OF assms(1), where sk = p] assms(5,6)
    by (auto simp: bid_authorised_def cli_auction_def Let_def)
qed

section \<open>A client for the witnesses\<close>

text \<open>The world holds the stored keys, the default one, and what the websocket will report.\<close>

type_synonym demo_world = "(Address \<rightharpoonup> bytes) \<times> Address option \<times> (ID \<times> err option \<times> Result option \<times> err option) list"

definition demo_cli :: "(bytes, ID, demo_world) cli_sdk" where
  "demo_cli = \<lparr>
     GetDefaultKey = (\<lambda>_ (ks, d, h). case d of
         None \<Rightarrow> ((([], []), Some (ErrExternal 20)), (ks, d, h))
       | Some a \<Rightarrow> (case ks a of
             None \<Rightarrow> ((([], []), Some (ErrExternal 21)), (ks, d, h))
           | Some p \<Rightarrow> (((a, p), None), (ks, d, h)))),
     GetDefaultChain = (\<lambda>_ w. (((replicate 32 1, [''http://node'']), None), w)),
     StoreKey = (\<lambda>(a, p) (ks, d, h). if ks a = None then (((), None), (ks(a \<mapsto> p), d, h)) else (((), Some (ErrExternal 22)), (ks, d, h))),
     StoreDefaultKey = (\<lambda>a (ks, d, h). (((), None), (ks, Some a, h))),
     PromptAddress = (\<lambda>_ w. ((alice, None), w)),
     PromptAmount = (\<lambda>_ _ _ w. ((7, None), w)),
     PromptContinue = (\<lambda>w. ((True, None), w)),
     PromptString = (\<lambda>_ _ _ w. ((''ns'', None), w)),
     PromptChoice = (\<lambda>_ _ w. ((0, None), w)),
     PromptBool = (\<lambda>_ w. ((True, None), w)),
     PromptUint64 = (\<lambda>_ w. ((5, None), w)),
     cj_Network = (\<lambda>_ w. ((1, None), w)),
     cj_Accepted = (\<lambda>_ w. ((13, None), w)),
     cj_GetCurrentEpoch = (\<lambda>_ w. ((2, None), w)),
     cj_GenerateTransaction = (\<lambda>_ _ _ _ _ w. ((replicate 32 5, None), w)),
     NewWebSocketClient = (\<lambda>_ w. (((), None), w)),
     ws_RegisterTx = (\<lambda>_ w. (((), None), w)),
     ws_ListenTx = (\<lambda>(ks, d, h). case h of [] \<Rightarrow> (([], Some (ErrExternal 23), None, None), (ks, d, [])) | x # h \<Rightarrow> (x, (ks, d, h))),
     ctx_ID = id,
     AddressBech32 = (\<lambda>_ a. Inr (map (char_of \<circ> unat) a)),
     ed25519_PrivateKeyLen = 32,
     LoadBytes = (\<lambda>_ n w. ((replicate n 9, None), w)),
     GenerateEd25519 = (\<lambda>w. ((replicate 32 8, None), w)),
     GenerateBLS = (\<lambda>w. ((replicate 48 7, None), w)),
     val_UpdateArcadiaURL = (\<lambda>_ _ w. (((), None), w)),
     send_genesis = (\<lambda>_ _ _ resp w. ((resp\<lparr>gr_Genesis := Some (Default ref)\<rparr>, None), w)),
     send_balance = (\<lambda>_ _ _ resp w. ((resp\<lparr>br_Amount := 100\<rparr>, None), w)),
     send_window = (\<lambda>_ _ _ _ w. ((6, None), w)),
     send_registry = (\<lambda>_ _ _ resp w. ((resp, None), w)),
     send_headers = (\<lambda>_ _ _ resp w. ((resp, None), w))\<rparr>"

definition demo_failed :: Result where "demo_failed = \<lparr>res_Success = False, res_Units = [], res_Fee = 3\<rparr>"

text \<open>A result of another transaction is skipped, then the transaction is reported as failed.\<close>

theorem send_and_wait_returns_witness:
  "\<exists>cli. sendAndWait demo_cli ''http://node'' [] (NewED25519Factory []) 0 True
     (NewJSONRPCClient ''http://node'' 1 [], (Map.empty, None, [([], None, Some demo_failed, None), (replicate 32 5, None, Some demo_failed, None)]))
   = Some (Ok (replicate 32 5), (cli, (Map.empty, None, [])))"
proof -
  let ?c = "NewJSONRPCClient ''http://node'' 1 []" and ?i = "replicate 32 5 :: ID"
  let ?x = "([], None, Some demo_failed, None)" and ?y = "(?i, None, Some demo_failed, None)"
  have send: "send_tx demo_cli ''http://node'' [] (NewED25519Factory []) 0 (?c, (Map.empty, None, [?x, ?y]))
      = (Ok ?i, (?c\<lparr>cl_g := Some (Default ref)\<rparr>, (Map.empty, None, [?x, ?y])))"
    by (simp add: send_tx_def cli_parser_def JSONRPCClient_Parser_def JSONRPCClient_Genesis_def NewJSONRPCClient_def Let_def
        go_bind_run go_call_def demo_cli_def go_return_def)
  have i: "ctx_ID demo_cli ?i = ?i" by (simp add: demo_cli_def)
  have ne: "[] \<noteq> ?i" by (metis length_replicate list.size(3) zero_neq_numeral)
  have "skips demo_cli ?i (Map.empty, None, [?x, ?y]) (Map.empty, None, [?y])"
    by (rule skips.other [OF _ ne skips.none]) (simp add: demo_cli_def)
  moreover have "ws_ListenTx demo_cli (Map.empty, None, [?y]) = (?y, (Map.empty, None, []))" by (simp add: demo_cli_def)
  moreover have "heard ?i ?y = Some (None, Some demo_failed)" by simp
  ultimately show ?thesis
    using send_and_wait_returns [OF send, of True "Ok ?i" "(?c\<lparr>cl_g := Some (Default ref)\<rparr>, (Map.empty, None, []))"] unfolding i
    by (metis option.distinct(1) option.simps(4))
qed

text \<open>Registering an empty registry's first rollup for another fee recipient.\<close>

theorem cli_registration_outcome_witness:
  "\<exists>out m'. RollupRegistration_Execute ref map_store (cli_registration 2 demo_ns alice 0) demo_rules 0 13 bob [] Map.empty = (Ok out, m')
     \<and> map_option ri_AuthoritySEQAddress (rollups_of ref map_store m' demo_ns) = Some alice"
proof -
  let ?r = "cli_registration 2 demo_ns alice 0"
  have L: "GetEpochLength demo_rules \<noteq> 0" "(13 :: u64) div GetEpochLength demo_rules + 2 \<noteq> 0" by (simp_all add: demo_epoch_length)
  have ns: "rr_Namespace ?r = demo_ns" by (simp add: cli_registration_def)
  have sp: "info_recorded (MaxNamespaceLen ref) (13 div GetEpochLength demo_rules) bob ?r
      (rollups_of ref map_store Map.empty (rr_Namespace ?r)) = Some (rr_Info ?r)"
    by (simp add: info_recorded_def cli_registration_def demo_epoch_length rollups_of_def empty_registry demo_ns_def)
  obtain w where run: "RollupRegistration_Execute ref map_store ?r demo_rules 0 13 bob [] Map.empty
      = record_rollup ref map_store w ?r (register [] (rr_Namespace ?r)) (rr_Info ?r) Map.empty"
    using Execute_cases [OF empty_registry(2,1) L(1), where r = ?r and hght = 13 and actor = bob and ts = 0 and aid = "[]"] sp
    by (metis option.distinct(1) option.inject)
  have enc: "packer_Err ref (RollupInfo_Marshal ref (rr_Info ?r) (NewWriter ref (RollupInfo_Size ref (rr_Info ?r)) (NetworkSizeLimit ref))) = None"
    by (simp add: rp_write_def r_writer_def cli_registration_def r_enc_info_def rp_enc_bytes_def demo_ns_def alice_def)
  obtain m' where "RollupRegistration_Execute ref map_store ?r demo_rules 0 13 bob [] Map.empty = (Ok ([], ?r\<lparr>rr_Info := rr_Info ?r\<rparr>), m')"
    using record_rollup_accepted [OF map_kv.kv_total_axioms enc, of "[demo_ns]" _ w ?r Map.empty] demo_packed run
    by (auto simp: register_def ns)
  then show ?thesis
    using cli_registration_outcome [OF ref_rollups.rollups_axioms empty_registry(2) L] by blast
qed

theorem cli_auction_refused_witness:
  "\<exists>e. Auction_Execute ref map_store (cli_auction ref 0 7 (replicate 48 7)) demo_rules 0 3 alice [] demo_auction_state
     = (Error e, demo_auction_state)"
proof -
  let ?pk = "bls_PublicKeyToBytes ref (bls_PublicFromPrivateKey ref (replicate 48 7))"
  let ?msg = "cli_bid_message (0 div 12 * MillisecondsPerSecond ref + 1) 7 ?pk"
  have pk: "?pk = replicate 48 7" by (simp add: pad_def)
  have L: "bls_PublicKeyLen ref = 48" "GetEpochLength demo_rules \<noteq> 0" by (simp_all add: demo_epoch_length)
  have forged: "\<not> bls_Verify ref msg (bls_PublicFromPrivateKey ref (replicate 48 7)) (bls_Sign ref ?msg (replicate 48 7))" if "length msg = 32" for msg
  proof
    assume "bls_Verify ref msg (bls_PublicFromPrivateKey ref (replicate 48 7)) (bls_Sign ref ?msg (replicate 48 7))"
    then have "bls_Sign ref ?msg (replicate 48 7) ! 80 = pad 96 (replicate 48 7 @ msg) ! 80" by (simp add: pad_def)
    then show False using that by (simp add: pad_def pk cli_bid_message_def nth_append)
  qed
  show ?thesis
    by (rule cli_auction_refused [OF ref_signing.signing_axioms L _ refl refl]) (use forged in blast)
qed

end
