(* ===== verification/Seq_Cli_Admin.thy ===== *)
theory Seq_Cli_Admin
  imports Seq_Cli
begin

text \<open>
  \<open>src/cmd/seq-cli/cmd\<close>: the commands that do not act on the chain: generating a genesis, making
  and importing keys, where watching the chain starts, and the closures handed to the SDK's load test. Shown: a generated
  genesis is the one a node reads, and the actor of a command owns the address its transactions are sent from.
\<close>

section \<open>Code outside the repository\<close>

text \<open>The closures of the load test, which the SDK calls.\<close>

record 'w spam_closures =
  spam_createClient_fn :: "string \<Rightarrow> u32 \<Rightarrow> ID \<Rightarrow> ('w cli, unit) go"
  spam_getFactory_fn :: "Address \<times> bytes \<Rightarrow> ED25519Factory res"
  spam_createAccount_fn :: "('w cli, Address \<times> bytes) go"
  spam_lookupBalance_fn :: "i64 \<Rightarrow> string \<Rightarrow> ('w cli, u64) go"
  spam_getParser_fn :: "ID \<Rightarrow> ('w cli, Parser) go"
  spam_getTransfer_fn :: "Address \<Rightarrow> u64 \<Rightarrow> Action list"
  spam_submitDummy_fn :: "string \<Rightarrow> Address \<times> bytes \<Rightarrow> u64 \<Rightarrow> 'w cli \<Rightarrow> (unit res \<times> 'w cli) option"

text \<open>Files, the JSON of a genesis, dimensions, and the parts of the SDK's handler these commands end in.\<close>

record 'w admin_sdk =
  ParseDimensions :: "string list \<Rightarrow> err + u64 list"
  ReadFile :: "string \<Rightarrow> ('w, bytes) call"
  WriteFile :: "string \<Rightarrow> bytes \<Rightarrow> ('w, unit) call"
  UnmarshalAllocations :: "bytes \<Rightarrow> err + CustomAllocation list"
  MarshalGenesis :: "Genesis \<Rightarrow> err + bytes"
  Root_SetKey :: "(i64 \<Rightarrow> string \<Rightarrow> string \<Rightarrow> u32 \<Rightarrow> ID \<Rightarrow> ('w cli, unit) go) \<Rightarrow> ('w cli, unit) go"
  Root_Balance :: "bool \<Rightarrow> bool \<Rightarrow> (Address \<Rightarrow> string \<Rightarrow> u32 \<Rightarrow> ID \<Rightarrow> ID \<Rightarrow> ('w cli, unit) go) \<Rightarrow> ('w cli, unit) go"
  Root_ImportOps :: "string \<Rightarrow> ('w cli, unit) go"
  Root_ImportChain :: "('w cli, unit) go"
  Root_ImportANR :: "('w cli, unit) go"
  Root_SetDefaultChain :: "('w cli, unit) go"
  Root_PrintChainInfo :: "('w cli, unit) go"
  Root_Spam :: "i64 \<Rightarrow> u64 option \<Rightarrow> bool \<Rightarrow> 'w spam_closures \<Rightarrow> 'w cli \<Rightarrow> (unit res \<times> 'w cli) option"

text \<open>The errors of the commands.\<close>

definition ErrInvalidArgs :: err where "ErrInvalidArgs = Errorf ''invalid args'' []"
definition ErrMissingSubcommand :: err where "ErrMissingSubcommand = Errorf ''must specify a subcommand'' []"

text \<open>A command group without a subcommand, and the check of a command for one argument before it runs.\<close>

definition groupCmd :: "('s, unit) go" where "groupCmd = go_error ErrMissingSubcommand"

definition one_arg :: "string list \<Rightarrow> (string \<Rightarrow> ('s, 'a) go) \<Rightarrow> ('s, 'a) go" where
  "one_arg args run = (case args of [a] \<Rightarrow> run a | _ \<Rightarrow> go_error ErrInvalidArgs)"

section \<open>genesis.go\<close>

record genesis_flags =
  minUnitPrice :: "string list"
  maxBlockUnits :: "string list"
  windowTargetUnits :: "string list"
  minBlockGap :: i64
  minEmptyBlockGap :: i64
  epochLength :: i64
  genesisFile :: string

definition default_genesis_flags :: genesis_flags where
  "default_genesis_flags = \<lparr>minUnitPrice = [], maxBlockUnits = [], windowTargetUnits = [], minBlockGap = - 1,
     minEmptyBlockGap = - 1, epochLength = 6, genesisFile = ''genesis.json''\<rparr>"

text \<open>A flag for dimensions is parsed when it is given, and the genesis updated.\<close>

definition set_dimensions ::
    "(string list \<Rightarrow> err + u64 list) \<Rightarrow> string list \<Rightarrow> (u64 list \<Rightarrow> Genesis \<Rightarrow> Genesis) \<Rightarrow> Genesis \<Rightarrow> Genesis res" where
  "set_dimensions parse flag upd g =
     (if length flag > 0 then res_bind (of_sum (parse flag)) (\<lambda>d. Ok (upd d g)) else Ok g)"

definition apply_genesis_flags :: "(string list \<Rightarrow> err + u64 list) \<Rightarrow> genesis_flags \<Rightarrow> Genesis \<Rightarrow> Genesis res" where
  "apply_genesis_flags parse f g =
     res_bind (set_dimensions parse (minUnitPrice f) (\<lambda>d g. g\<lparr>MinUnitPrice := d\<rparr>) g) (\<lambda>g.
     res_bind (set_dimensions parse (maxBlockUnits f) (\<lambda>d g. g\<lparr>MaxBlockUnits := d\<rparr>) g) (\<lambda>g.
     res_bind (set_dimensions parse (windowTargetUnits f) (\<lambda>d g. g\<lparr>WindowTargetUnits := d\<rparr>) g) (\<lambda>g.
     let g = (if 0 \<le> sint (minBlockGap f) then g\<lparr>MinBlockGap := minBlockGap f\<rparr> else g);
         g = (if 0 \<le> sint (minEmptyBlockGap f) then g\<lparr>MinEmptyBlockGap := minEmptyBlockGap f\<rparr> else g);
         g = (if 0 < sint (epochLength f) then g\<lparr>EpochLength := epochLength f\<rparr> else g) in
     Ok g)))"

definition genGenesisCmd :: "'x sdk_scheme \<Rightarrow> 'w admin_sdk \<Rightarrow> genesis_flags \<Rightarrow> string list \<Rightarrow> ('w cli, unit) go" where
  "genGenesisCmd E A f args = one_arg args (\<lambda>arg.
     go_bind (go_lift (apply_genesis_flags (ParseDimensions A) f (Default E))) (\<lambda>g.
     go_bind (go_call (ReadFile A arg)) (\<lambda>a.
     go_bind (go_lift (of_sum (UnmarshalAllocations A a))) (\<lambda>allocs.
     go_bind (go_lift (of_sum (MarshalGenesis A (g\<lparr>g_CustomAllocation := allocs\<rparr>)))) (\<lambda>b.
     go_call (WriteFile A (genesisFile f) b))))))"

section \<open>key.go\<close>

text \<open>The key is stored under its address and made the default one; the address is printed.\<close>

definition store_key :: "'x sdk_scheme \<Rightarrow> ('sk, 'tx, 'w) cli_sdk \<Rightarrow> Address \<times> bytes \<Rightarrow> ('w cli, unit) go" where
  "store_key E K priv =
     go_bind (go_call (StoreKey K priv)) (\<lambda>_.
     go_bind (go_call (StoreDefaultKey K (fst priv))) (\<lambda>_.
     go_bind (go_lift (MustAddressBech32 E HRP (fst priv))) (\<lambda>_.
     go_return ())))"

definition genKeyCmd :: "('p, 'pk, 'sg, 'sk, 'x) crypto_scheme \<Rightarrow> ('sk, 'tx, 'w) cli_sdk \<Rightarrow> ('w cli, unit) go" where
  "genKeyCmd E K =
     go_bind (go_call (GenerateEd25519 K)) (\<lambda>p.
     store_key E K (NewED25519Address E (ed25519_PublicKey E p), p))"

definition importKeyCmd ::
    "('p, 'pk, 'sg, 'sk, 'x) crypto_scheme \<Rightarrow> ('sk, 'tx, 'w) cli_sdk \<Rightarrow> string list \<Rightarrow> ('w cli, unit) go" where
  "importKeyCmd E K args = one_arg args (\<lambda>arg.
     go_bind (go_call (LoadBytes K arg (ed25519_PrivateKeyLen K))) (\<lambda>p.
     go_bind (go_lift (to_PrivateKey K p)) (\<lambda>pk.
     store_key E K (NewED25519Address E (ed25519_PublicKey E pk), p))))"

definition lookupSetKeyBalance ::
    "('sk, 'tx, 'w) cli_sdk \<Rightarrow> i64 \<Rightarrow> string \<Rightarrow> string \<Rightarrow> u32 \<Rightarrow> ID \<Rightarrow> ('w cli, unit) go" where
  "lookupSetKeyBalance K choice address uri networkID chainID =
     go_bind (set_client (NewJSONRPCClient uri networkID chainID)) (\<lambda>_.
     go_bind (with_client (\<lambda>cli. JSONRPCClient_Balance (send_balance K) cli address)) (\<lambda>_.
     go_return ()))"

definition setKeyCmd :: "'w admin_sdk \<Rightarrow> ('sk, 'tx, 'w) cli_sdk \<Rightarrow> ('w cli, unit) go" where
  "setKeyCmd A K = Root_SetKey A (lookupSetKeyBalance K)"

definition lookupKeyBalance ::
    "('sk, 'tx, 'w) cli_sdk \<Rightarrow> Address \<Rightarrow> string \<Rightarrow> u32 \<Rightarrow> ID \<Rightarrow> ID \<Rightarrow> ('w cli, unit) go" where
  "lookupKeyBalance K addr uri networkID chainID _ =
     go_bind (set_client (NewJSONRPCClient uri networkID chainID)) (\<lambda>_.
     go_bind (Handler_GetBalance K addr) (\<lambda>_.
     go_return ()))"

definition balanceKeyCmd :: "'w admin_sdk \<Rightarrow> ('sk, 'tx, 'w) cli_sdk \<Rightarrow> bool \<Rightarrow> ('w cli, unit) go" where
  "balanceKeyCmd A K checkAllChains = Root_Balance A checkAllChains True (lookupKeyBalance K)"

section \<open>chain.go\<close>

definition importChainCmd :: "'w admin_sdk \<Rightarrow> ('w cli, unit) go" where "importChainCmd A = Root_ImportChain A"
definition importANRChainCmd :: "'w admin_sdk \<Rightarrow> ('w cli, unit) go" where "importANRChainCmd A = Root_ImportANR A"
definition setChainCmd :: "'w admin_sdk \<Rightarrow> ('w cli, unit) go" where "setChainCmd A = Root_SetDefaultChain A"
definition chainInfoCmd :: "'w admin_sdk \<Rightarrow> ('w cli, unit) go" where "chainInfoCmd A = Root_PrintChainInfo A"

definition importAvalancheOpsChainCmd :: "'w admin_sdk \<Rightarrow> string list \<Rightarrow> ('w cli, unit) go" where
  "importAvalancheOpsChainCmd A args = one_arg args (Root_ImportOps A)"

text \<open>The check of the start block, and what is handed on: whether past blocks are streamed, and from where.\<close>

definition too_old :: "u64 \<Rightarrow> i64 \<Rightarrow> u64 \<Rightarrow> bool" where
  "too_old lastAccepted acceptedWindow startBlock \<longleftrightarrow>
     acceptedWindow < lastAccepted \<and> startBlock < lastAccepted - acceptedWindow"

definition watch_start :: "('sk, 'tx, 'w) cli_sdk \<Rightarrow> ('w cli, bool \<times> u64) go" where
  "watch_start K =
     go_bind (go_call (PromptBool K ''streaming from past blocks?'')) (\<lambda>pastBlocks.
     if \<not> pastBlocks then go_return (pastBlocks, 0) else
     go_bind (go_call (PromptUint64 K ''start block'')) (\<lambda>startBlock.
     go_bind (DefaultActor K) (\<lambda>a.
     go_bind (go_call (cj_Accepted K (act_uri a))) (\<lambda>lastAccepted.
     go_bind (with_client (JSONRPCClient_GetAcceptedBlockWindow (send_window K))) (\<lambda>acceptedWindow.
     if too_old lastAccepted acceptedWindow startBlock then go_error (Errorf ''start block is too old'' [])
     else go_return (pastBlocks, startBlock))))))"

definition testHeaderCmd :: "('sk, 'tx, 'w) cli_sdk \<Rightarrow> ('w cli, unit) go" where
  "testHeaderCmd K =
     go_bind (DefaultActor K) (\<lambda>a.
     let start = 1702502928; end_ts = 1702502930; startTime = start * 1000; endTime = end_ts * 1000 in
     go_bind (with_client (\<lambda>cli. JSONRPCClient_GetBlockHeadersByStartTimeStamp (send_headers K) cli startTime endTime)) (\<lambda>_.
     go_return ()))"

text \<open>The command prints the number of namespaces, which is the value here.\<close>

definition rollupsCmd :: "('sk, 'tx, 'w) cli_sdk \<Rightarrow> ('w cli, int) go" where
  "rollupsCmd K =
     go_bind (DefaultActor K) (\<lambda>a.
     go_bind (with_client (JSONRPCClient_RollupRegistry (send_registry K))) (\<lambda>namespaces.
     go_return (int (length namespaces))))"

section \<open>spam.go\<close>

text \<open>
  The closures of the load test, over the client that \<open>createClient\<close> makes first; the loop that calls
  them is the SDK's.
\<close>

definition spam_maxFee :: "i64 \<Rightarrow> u64 option" where
  "spam_maxFee maxFee = (if 0 \<le> sint maxFee then Some maxFee else None)"

definition spam_createClient :: "('sk, 'tx, 'w) cli_sdk \<Rightarrow> string \<Rightarrow> u32 \<Rightarrow> ID \<Rightarrow> ('w cli, unit) go" where
  "spam_createClient K uri networkID chainID =
     go_bind (set_client (NewJSONRPCClient uri networkID chainID)) (\<lambda>_.
     go_call (NewWebSocketClient K uri))"

definition spam_getFactory :: "('sk, 'tx, 'w) cli_sdk \<Rightarrow> Address \<times> bytes \<Rightarrow> ED25519Factory res" where
  "spam_getFactory K priv = res_bind (to_PrivateKey K (snd priv)) (\<lambda>pk. Ok (NewED25519Factory pk))"

definition spam_createAccount ::
    "('p, 'pk, 'sg, 'sk, 'x) crypto_scheme \<Rightarrow> ('sk, 'tx, 'w) cli_sdk \<Rightarrow> ('w cli, Address \<times> bytes) go" where
  "spam_createAccount E K =
     go_bind (go_call (GenerateEd25519 K)) (\<lambda>p.
     go_return (NewED25519Address E (ed25519_PublicKey E p), p))"

definition spam_lookupBalance :: "('sk, 'tx, 'w) cli_sdk \<Rightarrow> i64 \<Rightarrow> string \<Rightarrow> ('w cli, u64) go" where
  "spam_lookupBalance K choice address = with_client (\<lambda>cli. JSONRPCClient_Balance (send_balance K) cli address)"

definition spam_getParser :: "('sk, 'tx, 'w) cli_sdk \<Rightarrow> ID \<Rightarrow> ('w cli, Parser) go" where
  "spam_getParser K chainID = cli_parser K"

definition spam_getTransfer :: "Address \<Rightarrow> u64 \<Rightarrow> Action list" where
  "spam_getTransfer addr amount = [ATransfer \<lparr>t_To = addr, t_Value = amount, t_Memo = []\<rparr>]"

definition spam_submitDummy ::
    "('sk, 'tx, 'w) cli_sdk \<Rightarrow> string \<Rightarrow> Address \<times> bytes \<Rightarrow> u64 \<Rightarrow> 'w cli \<Rightarrow> (unit res \<times> 'w cli) option" where
  "spam_submitDummy K uri priv n s =
     (case spam_getFactory K priv of
        Ok fac \<Rightarrow> (case sendAndWait K uri [ATransfer \<lparr>t_To = fst priv, t_Value = n, t_Memo = []\<rparr>] fac priorityFee False s of
             None \<Rightarrow> None
           | Some (r, s) \<Rightarrow> Some (res_bind r (\<lambda>_. Ok ()), s))
      | Error e \<Rightarrow> Some (Error e, s)
      | Panic p \<Rightarrow> Some (Panic p, s))"

record spam_flags =
  randomRecipient :: bool
  maxTxBacklog :: i64
  maxFee :: i64

definition default_spam_flags :: spam_flags where
  "default_spam_flags = \<lparr>randomRecipient = False, maxTxBacklog = 72000, maxFee = - 1\<rparr>"

definition runSpamCmd ::
    "('p, 'pk, 'sg, 'sk, 'x) crypto_scheme \<Rightarrow> 'w admin_sdk \<Rightarrow> ('sk, 'tx, 'w) cli_sdk \<Rightarrow> spam_flags \<Rightarrow> 'w cli \<Rightarrow> (unit res \<times> 'w cli) option" where
  "runSpamCmd E A K f = Root_Spam A (maxTxBacklog f) (spam_maxFee (maxFee f)) (randomRecipient f)
     \<lparr>spam_createClient_fn = spam_createClient K, spam_getFactory_fn = spam_getFactory K, spam_createAccount_fn = spam_createAccount E K,
      spam_lookupBalance_fn = spam_lookupBalance K, spam_getParser_fn = spam_getParser K, spam_getTransfer_fn = spam_getTransfer,
      spam_submitDummy_fn = spam_submitDummy K\<rparr>"

section \<open>A generated genesis\<close>

lemma one_arg_Ok: "one_arg args run s = (Ok y, s') \<Longrightarrow> \<exists>a. args = [a] \<and> run a s = (Ok y, s')"
  by (auto simp: one_arg_def split: list.splits)

lemma set_dimensions_Ok:
  assumes "set_dimensions parse flag upd g = Ok g'"
  shows "g' = g \<or> (\<exists>d. g' = upd d g)"
  using assms by (auto simp: set_dimensions_def res_bind_Ok_iff split: if_splits)

lemma apply_genesis_flags_Ok:
  assumes "apply_genesis_flags parse f g = Ok g'"
  shows "EpochLength g' = (if 0 < sint (epochLength f) then epochLength f else EpochLength g)"
    and "MinBlockGap g' = (if 0 \<le> sint (minBlockGap f) then minBlockGap f else MinBlockGap g)"
    and "MinEmptyBlockGap g' = (if 0 \<le> sint (minEmptyBlockGap f) then minEmptyBlockGap f else MinEmptyBlockGap g)"
    and "StateBranchFactor g' = StateBranchFactor g"
proof -
  obtain g1 g2 g3 where
    "g1 = g \<or> (\<exists>d. g1 = g\<lparr>MinUnitPrice := d\<rparr>)" "g2 = g1 \<or> (\<exists>d. g2 = g1\<lparr>MaxBlockUnits := d\<rparr>)"
    "g3 = g2 \<or> (\<exists>d. g3 = g2\<lparr>WindowTargetUnits := d\<rparr>)"
    and g': "g' = (let g = (if 0 \<le> sint (minBlockGap f) then g3\<lparr>MinBlockGap := minBlockGap f\<rparr> else g3);
         g = (if 0 \<le> sint (minEmptyBlockGap f) then g\<lparr>MinEmptyBlockGap := minEmptyBlockGap f\<rparr> else g)
       in if 0 < sint (epochLength f) then g\<lparr>EpochLength := epochLength f\<rparr> else g)"
    using assms unfolding apply_genesis_flags_def res_bind_Ok_iff Let_def
    by (auto dest!: set_dimensions_Ok simp del: split_paired_Ex)
  then have same: "EpochLength g3 = EpochLength g" "MinBlockGap g3 = MinBlockGap g"
    "MinEmptyBlockGap g3 = MinEmptyBlockGap g" "StateBranchFactor g3 = StateBranchFactor g"
    by auto
  show "EpochLength g' = (if 0 < sint (epochLength f) then epochLength f else EpochLength g)"
    and "MinBlockGap g' = (if 0 \<le> sint (minBlockGap f) then minBlockGap f else MinBlockGap g)"
    and "MinEmptyBlockGap g' = (if 0 \<le> sint (minEmptyBlockGap f) then minEmptyBlockGap f else MinEmptyBlockGap g)"
    and "StateBranchFactor g' = StateBranchFactor g"
    unfolding g' by (simp_all add: Let_def same)
qed

text \<open>
  C23: a node that starts from the file a successful \<open>generate\<close> wrote reads the genesis with the allocations of
  the given file and the epoch length of the flag, or the default of 6 when the flag is not positive: so the
  epoch length is positive, and executing an action never divides by zero. The files are read back as they
  were written, and the JSON of a genesis is read back, over the defaults, as the genesis it was made of.
\<close>

theorem generated_genesis_read:
  assumes "\<forall>path b w w'. WriteFile A path b w = (((), None), w') \<longrightarrow> (\<exists>w''. ReadFile A path w' = ((b, None), w''))"
    and "\<forall>g b. MarshalGenesis A g = Inr b \<longrightarrow> b \<noteq> [] \<and> unmarshal b (Default E) = Inr g"
    and "genGenesisCmd E A f args (cli, w) = (Ok (), (cli', w'))"
  shows "\<exists>path a w1 b w2 g. args = [path] \<and> ReadFile A path w = ((a, None), w1)
    \<and> ReadFile A (genesisFile f) w' = ((b, None), w2) \<and> Genesis_New E unmarshal b = Inr g
    \<and> UnmarshalAllocations A a = Inr (g_CustomAllocation g)
    \<and> EpochLength g = (if 0 < sint (epochLength f) then epochLength f else 6) \<and> 0 < sint (EpochLength g)"
proof -
  obtain path g a w1 allocs b where c: "args = [path]" "apply_genesis_flags (ParseDimensions A) f (Default E) = Ok g"
      "ReadFile A path w = ((a, None), w1)" "UnmarshalAllocations A a = Inr allocs"
      "MarshalGenesis A (g\<lparr>g_CustomAllocation := allocs\<rparr>) = Inr b" "WriteFile A (genesisFile f) b w1 = (((), None), w')"
    using one_arg_Ok [OF assms(3) [unfolded genGenesisCmd_def]] by (auto simp: go_bind_Ok_iff)
  obtain w2 where "ReadFile A (genesisFile f) w' = ((b, None), w2)" using assms(1) c(6) by blast
  moreover have "Genesis_New E unmarshal b = Inr (g\<lparr>g_CustomAllocation := allocs\<rparr>)"
    using assms(2) c(5) by (simp add: Genesis_New_def)
  moreover have "EpochLength g = (if 0 < sint (epochLength f) then epochLength f else 6)"
    using apply_genesis_flags_Ok(1) [OF c(2)] by (simp add: Default_def)
  ultimately show ?thesis
    using c(1,3,4) by (intro exI [of _ path] exI [of _ a] exI [of _ w1] exI [of _ b] exI [of _ w2]
        exI [of _ "g\<lparr>g_CustomAllocation := allocs\<rparr>"]) simp
qed

section \<open>The keys of the client\<close>

text \<open>
  The SDK's store of keys: a key stored is found under its address, the default address is the one set
  last, and both survive the other calls; keys that are made or loaded have the length of a key.
\<close>

locale key_store =
  fixes K :: "('sk, 'tx, 'w) cli_sdk"
    and keys :: "'w \<Rightarrow> Address \<rightharpoonup> bytes"
    and default_key :: "'w \<Rightarrow> Address option"
  assumes stored: "StoreKey K (a, p) w = ((u, e), w') \<Longrightarrow> keys w' = (if e = None then (keys w)(a \<mapsto> p) else keys w)"
    and default_stored: "StoreDefaultKey K a w = ((u, e), w') \<Longrightarrow> keys w' = keys w \<and> (e = None \<longrightarrow> default_key w' = Some a)"
    and default_found: "GetDefaultKey K b w = (((a, p), None), w') \<Longrightarrow> default_key w = Some a \<and> keys w a = Some p"
    and generated: "GenerateEd25519 K w = ((q, e), w') \<Longrightarrow> keys w' = keys w \<and> (e = None \<longrightarrow> length q = ed25519_PrivateKeyLen K)"
    and loaded: "LoadBytes K path n w = ((q, e), w') \<Longrightarrow> keys w' = keys w \<and> (e = None \<longrightarrow> length q = n)"

text \<open>Every stored key has its length and stands under the address of its public key.\<close>

definition keys_ok :: "('p, 'pk, 'sg, 'sk, 'x) crypto_scheme \<Rightarrow> nat \<Rightarrow> (Address \<rightharpoonup> bytes) \<Rightarrow> bool" where
  "keys_ok E n ks \<longleftrightarrow> (\<forall>a p. ks a = Some p \<longrightarrow> length p = n \<and> a = NewED25519Address E (ed25519_PublicKey E p))"

text \<open>Commands that keep a predicate on the world, whatever they return.\<close>

definition keeps :: "('w \<Rightarrow> bool) \<Rightarrow> ('w cli, 'a) go \<Rightarrow> bool" where
  "keeps P f \<longleftrightarrow> (\<forall>s. P (snd s) \<longrightarrow> P (snd (snd (f s))))"

lemma keeps_bind:
  fixes P :: "'b \<Rightarrow> bool"
  assumes "keeps P f" "\<And>x s s'. f s = (Ok x, s') \<Longrightarrow> keeps P (g x)"
  shows "keeps P (go_bind f g)"
  unfolding keeps_def
proof (intro allI impI)
  fix s :: "'b cli"
  assume "P (snd s)"
  moreover obtain r s' where r: "f s = (r, s')" by (cases "f s")
  ultimately have s': "P (snd s')" using assms(1) unfolding keeps_def by (metis snd_conv)
  show "P (snd (snd (go_bind f g s)))"
  proof (cases r)
    case (Ok x)
    then show ?thesis using r s' assms(2) [of s x s'] unfolding keeps_def by (cases s') (simp add: go_bind_run)
  qed (use r s' in \<open>simp_all add: go_bind_run\<close>)
qed

lemma keeps_call: "(\<And>w v e w'. f w = ((v, e), w') \<Longrightarrow> P w \<Longrightarrow> P w') \<Longrightarrow> keeps P (go_call f)"
  by (fastforce simp: keeps_def go_call_def split: prod.splits option.splits)

lemma keeps_pure: "keeps P (go_lift r)" "keeps P (go_return x)" "keeps P (go_error e)"
  by (simp_all add: keeps_def go_lift_def go_return_def go_error_def)

lemma keeps_one_arg: "(\<And>a. keeps P (run a)) \<Longrightarrow> keeps P (one_arg args run)"
  by (auto simp: one_arg_def keeps_pure split: list.splits)

lemma go_call_Ok: "go_call f s = (Ok v, s') \<Longrightarrow> \<exists>w'. f (snd s) = ((v, None), w')"
  by (cases s) auto

context key_store
begin

lemma store_key_keeps:
  assumes "length p = ed25519_PrivateKeyLen K" "a = NewED25519Address E (ed25519_PublicKey E p)"
  shows "keeps (\<lambda>w. keys_ok E (ed25519_PrivateKeyLen K) (keys w)) (store_key E' K (a, p))"
  unfolding store_key_def fst_conv
proof (intro keeps_bind keeps_call keeps_pure)
  show "keys_ok E (ed25519_PrivateKeyLen K) (keys w')"
    if "StoreKey K (a, p) w = ((v, e), w')" "keys_ok E (ed25519_PrivateKeyLen K) (keys w)" for w v e w'
    using stored [OF that(1)] that(2) assms by (auto simp: keys_ok_def)
  show "keys_ok E (ed25519_PrivateKeyLen K) (keys w')"
    if "StoreDefaultKey K a w = ((v, e), w')" "keys_ok E (ed25519_PrivateKeyLen K) (keys w)" for w v e w'
    using default_stored [OF that(1)] that(2) by simp
qed

lemma genKeyCmd_keeps: "keeps (\<lambda>w. keys_ok E (ed25519_PrivateKeyLen K) (keys w)) (genKeyCmd E K)"
  unfolding genKeyCmd_def
proof (intro keeps_bind keeps_call store_key_keeps refl)
  show "length p = ed25519_PrivateKeyLen K" if "go_call (GenerateEd25519 K) s = (Ok p, s')" for p s s'
    using go_call_Ok [OF that] generated by blast
qed (use generated in metis)

lemma importKeyCmd_keeps: "keeps (\<lambda>w. keys_ok E (ed25519_PrivateKeyLen K) (keys w)) (importKeyCmd E K args)"
  unfolding importKeyCmd_def
proof (intro keeps_one_arg keeps_bind keeps_call keeps_pure store_key_keeps)
  fix path p s s' pk t t'
  assume p: "go_call (LoadBytes K path (ed25519_PrivateKeyLen K)) s = (Ok p, s')" "go_lift (to_PrivateKey K p) t = (Ok pk, t')"
  show l: "length p = ed25519_PrivateKeyLen K" using go_call_Ok [OF p(1)] loaded by blast
  then show "NewED25519Address E (ed25519_PublicKey E pk) = NewED25519Address E (ed25519_PublicKey E p)"
    using p(2) by (simp add: to_PrivateKey_def)
qed (use loaded in metis)

lemma DefaultActor_owns:
  assumes "keys_ok E (ed25519_PrivateKeyLen K) (keys w)" "DefaultActor K (cli, w) = (Ok a, s')"
  shows "default_key w = Some (fst (act_key a)) \<and> ED25519Factory_Address E (act_factory a) = fst (act_key a)"
proof -
  obtain addr priv w1 chainID uris w2 where k: "GetDefaultKey K True w = (((addr, priv), None), w1)"
      "GetDefaultChain K True w1 = (((chainID, uris), None), w2)"
    using assms(2) by (auto simp: DefaultActor_def go_bind_Ok_iff)
  then have "uris \<noteq> []" using assms(2) by (auto simp: DefaultActor_def go_bind_Ok_iff go_panic_def)
  with k obtain pk where "to_PrivateKey K priv = Ok pk" "act_key a = (addr, priv)" "act_factory a = NewED25519Factory pk"
    using assms(2) by (cases uris) (auto simp: DefaultActor_def go_bind_Ok_iff)
  with default_found [OF k(1)] assms(1) show ?thesis
    by (auto simp: keys_ok_def to_PrivateKey_def ED25519Factory_Address_def NewED25519Factory_def)
qed

end

text \<open>The worlds after any sequence of commands that make or import keys, successful or not.\<close>

inductive key_run :: "('p, 'pk, 'sg, 'sk, 'x) crypto_scheme \<Rightarrow> ('sk, 'tx, 'w) cli_sdk \<Rightarrow> 'w \<Rightarrow> 'w \<Rightarrow> bool" for E K w0 where
  start: "key_run E K w0 w0"
| gen: "key_run E K w0 w \<Longrightarrow> genKeyCmd E K (cli, w) = (r, (cli', w')) \<Longrightarrow> key_run E K w0 w'"
| import: "key_run E K w0 w \<Longrightarrow> importKeyCmd E K args (cli, w) = (r, (cli', w')) \<Longrightarrow> key_run E K w0 w'"

lemma key_run_keys_ok:
  assumes "key_store K keys default_key" "key_run E K w0 w" "keys_ok E (ed25519_PrivateKeyLen K) (keys w0)"
  shows "keys_ok E (ed25519_PrivateKeyLen K) (keys w)"
  using assms(2)
proof induction
  case start
  then show ?case by (rule assms(3))
next
  case (gen w cli r cli' w')
  then show ?case using key_store.genKeyCmd_keeps [OF assms(1), of E] unfolding keeps_def by (metis snd_conv)
next
  case (import w args cli r cli' w')
  then show ?case using key_store.importKeyCmd_keeps [OF assms(1), of E args] unfolding keeps_def by (metis snd_conv)
qed

text \<open>
  C24: whatever keys were made or imported before, starting from an empty store and with failures in between, a
  command acts for the address of the default key: its transactions are signed with the key of that address,
  and their actor is the address whose balance the command looked up.
\<close>

theorem actor_owns_address:
  assumes "key_store K keys default_key" "keys w0 = Map.empty" "key_run E K w0 w"
    and "DefaultActor K (cli, w) = (Ok a, s')"
  shows "default_key w = Some (fst (act_key a))
    \<and> (case ED25519Factory_Sign E (act_factory a) msg of (d, e) \<Rightarrow> e = None \<and> map_option (fst \<circ> ED25519_Actor E) d = Some (fst (act_key a)))"
proof -
  have "keys_ok E (ed25519_PrivateKeyLen K) (keys w)"
    using key_run_keys_ok [OF assms(1,3)] assms(2) by (simp add: keys_ok_def)
  from key_store.DefaultActor_owns [OF assms(1) this assms(4)] show ?thesis
    by (simp add: ED25519Factory_Sign_def ED25519_Actor_def ED25519_address_def ED25519Factory_Address_def Let_def)
qed

interpretation demo_keys: key_store demo_cli fst "fst \<circ> snd"
  by unfold_locales (auto simp: demo_cli_def split: if_splits option.splits)

theorem actor_owns_address_witness:
  "\<exists>w a s'. importKeyCmd ref demo_cli [''key''] (demo_client, (Map.empty, None, [])) = (Ok (), (demo_client, w))
     \<and> DefaultActor demo_cli (demo_client, w) = (Ok a, s')
     \<and> fst (act_key a) = NewED25519Address ref (replicate 32 9)
     \<and> (case ED25519Factory_Sign ref (act_factory a) [1] of (d, e) \<Rightarrow> e = None \<and> map_option (fst \<circ> ED25519_Actor ref) d = Some (fst (act_key a)))"
proof -
  let ?p = "replicate 32 9 :: bytes" and ?a = "NewED25519Address ref (replicate 32 9)"
  have pk: "ed25519_PublicKey ref ?p = ?p" by (simp add: pad_def)
  have addr: "\<exists>str. MustAddressBech32 ref HRP ?a = Ok str"
    by (rule ref_bank.bech32_address) (simp add: NewED25519Address_def pad_def)
  have run: "importKeyCmd ref demo_cli [''key''] (demo_client, (Map.empty, None, [])) = (Ok (), (demo_client, ([?a \<mapsto> ?p], Some ?a, [])))"
    using addr pk by (auto simp: importKeyCmd_def one_arg_def store_key_def to_PrivateKey_def demo_cli_def go_bind_def go_call_def go_lift_def
        go_return_def simp del: ref_simps)
  then have kr: "key_run ref demo_cli (Map.empty, None, []) ([?a \<mapsto> ?p], Some ?a, [])" by (rule key_run.import [OF key_run.start])
  obtain a s' where act: "DefaultActor demo_cli (demo_client, ([?a \<mapsto> ?p], Some ?a, [])) = (Ok a, s')" "fst (act_key a) = ?a"
    by (simp add: DefaultActor_def to_PrivateKey_def demo_cli_def go_bind_def go_call_def go_lift_def go_return_def set_client_def
        del: ref_simps)
  show ?thesis
    using run act actor_owns_address [OF demo_keys.key_store_axioms _ kr act(1), of "[1]"] by (metis fst_conv)
qed

text \<open>An allocation file with one address, and a file system of one file each.\<close>

definition demo_allocations :: "CustomAllocation list" where
  "demo_allocations = [\<lparr>ca_Address = ''a'', ca_Balance = 100\<rparr>]"

definition demo_admin :: "(string \<rightharpoonup> bytes) admin_sdk" where
  "demo_admin = \<lparr>ParseDimensions = (\<lambda>_. Inl (ErrExternal 30)),
     ReadFile = (\<lambda>path w. case w path of None \<Rightarrow> (([], Some (ErrExternal 31)), w) | Some b \<Rightarrow> ((b, None), w)),
     WriteFile = (\<lambda>path b w. (((), None), w(path \<mapsto> b))),
     UnmarshalAllocations = (\<lambda>b. if b = [1] then Inr demo_allocations else Inl (ErrExternal 32)),
     MarshalGenesis = (\<lambda>g. if g = (Default ref)\<lparr>EpochLength := 12, g_CustomAllocation := demo_allocations\<rparr> then Inr [2] else Inl (ErrExternal 33)),
     Root_SetKey = (\<lambda>_. go_return ()), Root_Balance = (\<lambda>_ _ _. go_return ()),
     Root_ImportOps = (\<lambda>_. go_return ()), Root_ImportChain = go_return (), Root_ImportANR = go_return (),
     Root_SetDefaultChain = go_return (), Root_PrintChainInfo = go_return (), Root_Spam = (\<lambda>_ _ _ _ s. Some (Ok (), s))\<rparr>"

theorem generated_genesis_read_witness:
  "\<exists>w'. genGenesisCmd ref demo_admin (default_genesis_flags\<lparr>epochLength := 12\<rparr>) [''allocs''] (demo_client, [''allocs'' \<mapsto> [1]]) = (Ok (), (demo_client, w'))
     \<and> (\<exists>g. Genesis_New ref (\<lambda>_ _. Inr ((Default ref)\<lparr>EpochLength := 12, g_CustomAllocation := demo_allocations\<rparr>)) [2] = Inr g
          \<and> w' ''genesis.json'' = Some [2] \<and> EpochLength g = 12 \<and> g_CustomAllocation g = demo_allocations)"
proof -
  let ?f = "default_genesis_flags\<lparr>epochLength := 12\<rparr>" and ?w = "[''allocs'' \<mapsto> [1]] :: string \<rightharpoonup> bytes"
  let ?u = "\<lambda>_ _. Inr ((Default ref)\<lparr>EpochLength := 12, g_CustomAllocation := demo_allocations\<rparr>) :: err + Genesis"
  have w: "\<forall>path b w w'. WriteFile demo_admin path b w = (((), None), w') \<longrightarrow> (\<exists>w''. ReadFile demo_admin path w' = ((b, None), w''))"
    by (auto simp: demo_admin_def)
  have m: "\<forall>g b. MarshalGenesis demo_admin g = Inr b \<longrightarrow> b \<noteq> [] \<and> ?u b (Default ref) = Inr g"
    by (auto simp: demo_admin_def split: if_splits)
  have "genGenesisCmd ref demo_admin ?f [''allocs''] (demo_client, ?w) = (Ok (), (demo_client, ?w(''genesis.json'' \<mapsto> [2])))"
    by (simp add: genGenesisCmd_def one_arg_def apply_genesis_flags_def set_dimensions_def default_genesis_flags_def demo_admin_def
        go_bind_def go_call_def go_lift_def Let_def)
  then show ?thesis
    using generated_genesis_read [where unmarshal = ?u and E = ref, OF w m, of ?f "[''allocs'']" demo_client ?w demo_client "?w(''genesis.json'' \<mapsto> [2])"]
    by (auto simp: demo_admin_def default_genesis_flags_def)
qed

section \<open>Watching\<close>

text \<open>
  The check of the start block is the bound on naturals, without wrapping: a start is refused exactly when it
  lies more than the window below the last accepted block.
\<close>

lemma too_old_iff: "too_old lastAccepted acceptedWindow startBlock \<longleftrightarrow> unat startBlock + unat acceptedWindow < unat lastAccepted"
  by (auto simp: too_old_def word_less_nat_alt unat_sub_if')

end
