(* ===== verification/Seq_Start.thy ===== *)
theory Seq_Start
  imports Seq_Rpc
begin

text \<open>
  \<open>Initialize\<close> of \<open>src/controller/controller.go\<close> with \<open>newMetrics\<close> of \<open>metrics.go\<close>: how the configured parts of a node are put together at
  start-up. Shown: a node that was started is the start of a run of the node, its rules whitelist
  exactly the configured addresses, and its archiver uses its own database file.
\<close>

section \<open>Code outside the repository\<close>

text \<open>
  What start-up calls: \<open>'k\<close> is the database of the transaction index, \<open>'db\<close> those of blocks and state,
  \<open>'h\<close> an HTTP handler, \<open>'bd\<close> a builder and \<open>'gs\<close> a gossiper. \<open>su_Err\<close> is what the error collector of the
  SDK reports for the collected errors; the decoders are \<open>json.Unmarshal\<close> into a filled struct.
\<close>

record ('f, 'k, 'db, 'h, 'bd, 'gs) startup =
  su_Register :: "string \<times> string \<Rightarrow> err option"
  su_GathererRegister :: "string \<Rightarrow> err option"
  su_Err :: "err option list \<Rightarrow> err option"
  su_hconfig :: hconfig
  su_float0 :: 'f
  su_UnmarshalConfig :: "bytes \<Rightarrow> 'f Config \<Rightarrow> err + 'f Config"
  su_UnmarshalGenesis :: "bytes \<Rightarrow> Genesis \<Rightarrow> err + Genesis"
  hstorage_New :: "string \<Rightarrow> err + ('db \<times> 'db \<times> 'k)"
  NewJSONRPCHandler :: "string \<Rightarrow> err + 'h"
  su_ToLower :: "string \<Rightarrow> string"
  builder_NewManual :: 'bd
  builder_NewTime :: 'bd
  gossiper_NewManual :: 'gs
  gossiper_NewProposer :: "ProposerConfig \<Rightarrow> err + 'gs"

text \<open>The context of the consensus engine, as far as it is read.\<close>

record snow_Context =
  snow_NodeID :: string
  snow_NetworkID :: u32
  snow_ChainID :: ID
  snow_ChainDataDir :: string

section \<open>metrics.go\<close>

definition newMetrics :: "('f, 'k, 'db, 'h, 'bd, 'gs) startup \<Rightarrow> metrics \<times> err option" where
  "newMetrics U =
     (let m = \<lparr>mt_transfer = 0, mt_sequencerMsg = 0, mt_auction = 0, mt_rollupRegister = 0, mt_epochExit = 0\<rparr>;
          errs = [su_Register U (''actions'', ''transfer''), su_Register U (''actions'', ''sequencer_msg''),
            su_Register U (''actions'', ''auction''), su_Register U (''actions'', ''rollup_register''),
            su_Register U (''actions'', ''epoch_exit''), su_GathererRegister U consts_Name] in
      (m, su_Err U errs))"

section \<open>controller.go\<close>

text \<open>What \<open>Initialize\<close> returns besides the registries, which \<open>Seq_Actions\<close> fills.\<close>

record ('f, 'db, 'h, 'bd, 'gs) initialized =
  in_config :: "'f Config"
  in_genesis :: Genesis
  in_builder :: 'bd
  in_gossiper :: 'gs
  in_blockDB :: 'db
  in_stateDB :: 'db
  in_apis :: "string \<Rightarrow> 'h option"
  in_engines :: "u8 \<Rightarrow> AuthEngine option"

definition set_field :: "('s \<Rightarrow> 's) \<Rightarrow> ('s, unit) go" where
  "set_field f = (\<lambda>s. (Ok (), f s))"

text \<open>The data source of an SQLite archive is replaced.\<close>

definition archiver_dsn :: "string \<Rightarrow> 'f Config \<Rightarrow> 'f Config" where
  "archiver_dsn nodeID cfg =
     (if ac_ArchiverType (ArchiverConfig cfg) = ''sqlite''
      then cfg\<lparr>ArchiverConfig := (ArchiverConfig cfg)\<lparr>ac_DSN := ''/tmp/sqlite.'' @ nodeID @ ''.db''\<rparr>\<rparr>
      else cfg)"

definition proposer_config :: "hconfig \<Rightarrow> 'f Config \<Rightarrow> ProposerConfig" where
  "proposer_config H cfg = (DefaultProposerConfig H)
     \<lparr>pc_GossipMaxSize := GossipMaxSize cfg, pc_GossipProposerDiff := GossipProposerDiff cfg,
      pc_GossipProposerDepth := GossipProposerDepth cfg, pc_NoGossipBuilderDiff := NoGossipBuilderDiff cfg,
      pc_VerifyTimeout := VerifyTimeout cfg\<rparr>"

definition builder_and_gossiper :: "('f, 'k, 'db, 'h, 'bd, 'gs) startup \<Rightarrow> 'f Config \<Rightarrow> ('bd \<times> 'gs) res" where
  "builder_and_gossiper U cfg =
     (if TestMode cfg then Ok (builder_NewManual U, gossiper_NewManual U)
      else res_bind (of_sum (gossiper_NewProposer U (proposer_config (su_hconfig U) cfg))) (\<lambda>gossip. Ok (builder_NewTime U, gossip)))"

definition Initialize ::
    "'x sdk_scheme \<Rightarrow> ('d, 't) gorm \<Rightarrow> ('f, 'k, 'db, 'h, 'bd, 'gs) startup \<Rightarrow> snow_Context \<Rightarrow> bytes \<Rightarrow> bytes \<Rightarrow> bytes
      \<Rightarrow> (('f, 'k, 'd) Controller, ('f, 'db, 'h, 'bd, 'gs) initialized) go" where
  "Initialize E G U snowCtx genesisBytes upgradeBytes configBytes =
     go_bind (set_field (\<lambda>c. c\<lparr>c_networkID := snow_NetworkID snowCtx, c_chainID := snow_ChainID snowCtx\<rparr>)) (\<lambda>_.
     go_bind (set_field (\<lambda>c. c\<lparr>c_metrics := fst (newMetrics U)\<rparr>)) (\<lambda>_.
     go_bind (go_lift (case snd (newMetrics U) of Some e \<Rightarrow> Error e | None \<Rightarrow> Ok ())) (\<lambda>_.
     go_bind (go_lift (of_sum (Config_New E (su_hconfig U) (su_UnmarshalConfig U) (su_float0 U) (snow_NodeID snowCtx) configBytes))) (\<lambda>cfg.
     go_bind (set_field (\<lambda>c. c\<lparr>c_config := cfg\<rparr>)) (\<lambda>_.
     go_bind (go_wrap ''unable to read genesis: %w'' [] (go_lift (of_sum (Genesis_New E (su_UnmarshalGenesis U) genesisBytes)))) (\<lambda>g.
     go_bind (set_field (\<lambda>c. c\<lparr>c_genesis := g\<rparr>)) (\<lambda>_.
     go_bind (go_lift (of_sum (hstorage_New U (snow_ChainDataDir snowCtx)))) (\<lambda>(blockDB, stateDB, metaDB).
     go_bind (set_field (\<lambda>c. c\<lparr>c_metaDB := metaDB\<rparr>)) (\<lambda>_.
     go_bind (go_lift (of_sum (NewJSONRPCHandler U consts_Name))) (\<lambda>jsonRPCHandler.
     let cfg = archiver_dsn (snow_NodeID snowCtx) cfg in
     go_bind (set_field (\<lambda>c. c\<lparr>c_config := cfg\<rparr>)) (\<lambda>_.
     go_bind (go_lift (NewORMArchiverFromConfig G (su_ToLower U) (ArchiverConfig cfg))) (\<lambda>archiver.
     go_bind (set_field (\<lambda>c. c\<lparr>c_archiver := archiver, c_rollupRegistry := NewRollupRegistr\<rparr>)) (\<lambda>_.
     let apis = [JSONRPCEndpoint \<mapsto> jsonRPCHandler] in
     go_bind (go_lift (builder_and_gossiper U cfg)) (\<lambda>(build, gossip).
     go_return \<lparr>in_config = cfg, in_genesis = g, in_builder = build, in_gossiper = gossip, in_blockDB = blockDB,
       in_stateDB = stateDB, in_apis = apis, in_engines = Engines\<rparr>))))))))))))))"

section \<open>The started node\<close>

lemma set_field_Ok_iff [simp]: "set_field f s = (r, s') \<longleftrightarrow> r = Ok () \<and> s' = f s"
  by (auto simp: set_field_def)

lemma Config_New_whitelist:
  assumes "Config_New E H unmarshal f0 nodeID b = Inr cfg"
  shows "parse_addresses E (WhitelistedAddresses cfg) = Inr (Config_GetParsedWhiteListedAddress cfg)"
  using assms by (auto simp: Config_New_def Config_GetParsedWhiteListedAddress_def Let_def split: sum.splits if_splits)

lemma Initialize_Ok:
  assumes "Initialize E G U snowCtx gb ub cb c0 = (Ok out, c)"
  shows "\<exists>cfg d. Config_New E (su_hconfig U) (su_UnmarshalConfig U) (su_float0 U) (snow_NodeID snowCtx) cb = Inr cfg
    \<and> Genesis_New E (su_UnmarshalGenesis U) gb = Inr (in_genesis out)
    \<and> in_config out = archiver_dsn (snow_NodeID snowCtx) cfg
    \<and> NewORMArchiverFromConfig G (su_ToLower U) (ArchiverConfig (in_config out)) = Ok d
    \<and> c_config c = in_config out \<and> c_genesis c = in_genesis out \<and> c_archiver c = d
    \<and> c_networkID c = snow_NetworkID snowCtx \<and> c_chainID c = snow_ChainID snowCtx
    \<and> c_rollupRegistry c = NewRollupRegistr \<and> c_spawned c = c_spawned c0"
  using assms unfolding Initialize_def Let_def by (clarsimp simp: go_bind_Ok_iff split: prod.splits)

context auctions
begin

lemma load_allocations_registry:
  assumes "load_allocations E S sofar al m = (Ok u, m')"
    and "\<And>h s pk. ParseAddressBech32 E h s = Inr pk \<Longrightarrow> is_address E pk"
  shows "registry_of E S m' = registry_of E S m"
  using assms(1)
proof (induction al arbitrary: sofar m)
  case (Cons c al)
  obtain pk s' m1 where pk: "ParseAddressBech32 E HRP (ca_Address c) = Inr pk"
    and set: "SetBalance E S pk (ca_Balance c) m = (Ok (), m1)"
    and rest: "load_allocations E S s' al m1 = (Ok u, m')"
    using Cons.prems by (auto simp: go_bind_Ok_iff)
  have "GetValue S m1 (RollupRegistryKey E) = GetValue S m (RollupRegistryKey E)"
    using SetBalance_Ok [OF assms(2) [OF pk] set, of "RollupRegistryKey E"] rollup_keys_not_balance [of "RollupRegistryKey E" pk]
    by (simp add: rollup_keys_def)
  with Cons.IH [OF rest] show ?case using views_cong(1) by metis
qed simp

end

text \<open>
  C20: a node that started without an error, with its genesis loaded into an empty state, is at the start
  of a run of the node: no rollup is registered, in the state or in memory. Its rules whitelist exactly the
  addresses of its configuration, and the archive of type \<open>sqlite\<close> lies in a file of its own.
\<close>

theorem started_node_ok:
  assumes "auctions S E" "empty_state S me" "Initialize E G U snowCtx gb ub cb c0 = (Ok out, c)"
    and "Load E S (in_genesis out) me = (Ok u, m)"
    and "\<forall>hrp s pk. ParseAddressBech32 E hrp s = Inr pk \<longrightarrow> is_address E pk"
  shows "node_run E S D m c []
    \<and> isWhiteListed (Controller_Rules c t) actor
        = Ok (\<exists>s\<in>set (WhitelistedAddresses (in_config out)). ParseAddressBech32 E HRP s = Inr actor)
    \<and> (ac_ArchiverType (ArchiverConfig (in_config out)) = ''sqlite'' \<longrightarrow>
        ac_DSN (ArchiverConfig (in_config out)) = ''/tmp/sqlite.'' @ snow_NodeID snowCtx @ ''.db'')
    \<and> NewORMArchiverFromConfig G (su_ToLower U) (ArchiverConfig (in_config out)) = Ok (c_archiver c)"
proof -
  obtain cfg where cfg: "Config_New E (su_hconfig U) (su_UnmarshalConfig U) (su_float0 U) (snow_NodeID snowCtx) cb = Inr cfg"
      "in_config out = archiver_dsn (snow_NodeID snowCtx) cfg"
    and c: "NewORMArchiverFromConfig G (su_ToLower U) (ArchiverConfig (in_config out)) = Ok (c_archiver c)"
      "c_config c = in_config out" "c_rollupRegistry c = NewRollupRegistr"
    using Initialize_Ok [OF assms(3)] by auto
  have "registry_of E S me = Ok []"
    using assms(2) by (simp add: views_eq empty_state_def innerGetRegistry_def)
  moreover have "load_allocations E S 0 (g_CustomAllocation (in_genesis out)) me = (Ok u, m)"
    using assms(4) by (simp add: Load_def split: option.splits)
  ultimately have "registry_of E S m = Ok []"
    using auctions.load_allocations_registry [OF assms(1)] assms(5) by metis
  then have "node_run E S D m c []" using c(3) by (rule node_run.genesis)
  moreover have "parse_addresses E (WhitelistedAddresses (in_config out)) = Inr (Config_GetParsedWhiteListedAddress (c_config c))"
    using Config_New_whitelist [OF cfg(1)] cfg(2) c(2) by (simp add: archiver_dsn_def Config_GetParsedWhiteListedAddress_def)
  then have "isWhiteListed (Controller_Rules c t) actor
      = Ok (\<exists>s\<in>set (WhitelistedAddresses (in_config out)). ParseAddressBech32 E HRP s = Inr actor)"
    by (simp add: Controller_Rules_def Genesis_Rules_def parse_addresses_set)
  ultimately show ?thesis using c(1) cfg(2) by (simp add: archiver_dsn_def)
qed

text \<open>A configuration that whitelists the address \<open>abc\<close> and archives with SQLite.\<close>

definition demo_startup :: "(unit, kv, unit, unit, bool, bool) startup" where
  "demo_startup = \<lparr>su_Register = (\<lambda>_. None), su_GathererRegister = (\<lambda>_. None), su_Err = (\<lambda>es. case filter (\<lambda>e. e \<noteq> None) es of [] \<Rightarrow> None | e # _ \<Rightarrow> e),
     su_hconfig = demo_hconfig, su_float0 = (),
     su_UnmarshalConfig = (\<lambda>b c. Inr (c\<lparr>WhitelistedAddresses := [''abc''],
       ArchiverConfig := \<lparr>ac_Enabled = True, ac_ArchiverType = ''sqlite'', ac_DSN = []\<rparr>\<rparr>)),
     su_UnmarshalGenesis = (\<lambda>b g. Inr g), hstorage_New = (\<lambda>d. Inr ((), (), Map.empty)), NewJSONRPCHandler = (\<lambda>n. Inr ()),
     su_ToLower = id, builder_NewManual = False, builder_NewTime = True, gossiper_NewManual = False,
     gossiper_NewProposer = (\<lambda>p. Inr True)\<rparr>"

definition demo_snow :: snow_Context where
  "demo_snow = \<lparr>snow_NodeID = ''n1'', snow_NetworkID = 1, snow_ChainID = [], snow_ChainDataDir = ''/data''\<rparr>"

lemma demo_started:
  "\<exists>out c. Initialize ref list_gorm demo_startup demo_snow [] [] [1] demo_controller = (Ok out, c)
     \<and> in_genesis out = Default ref \<and> WhitelistedAddresses (in_config out) = [''abc'']"
proof -
  let ?d = "(setDefault demo_hconfig (zero_Config () ''n1''))\<lparr>WhitelistedAddresses := [''abc''],
      ArchiverConfig := \<lparr>ac_Enabled = True, ac_ArchiverType = ''sqlite'', ac_DSN = []\<rparr>\<rparr>"
  have lists: "MempoolExemptSponsors ?d = []" "TestMode ?d = False" by (simp_all add: setDefault_def zero_Config_def Let_def)
  obtain cfg where cfg: "Config_New ref demo_hconfig (su_UnmarshalConfig demo_startup) () ''n1'' [1] = Inr cfg"
    "WhitelistedAddresses cfg = [''abc'']"
    using lists by (simp add: Config_New_def demo_startup_def Let_def)
  show ?thesis
    using cfg by (simp add: Initialize_def newMetrics_def demo_startup_def demo_snow_def Genesis_New_def set_field_def
        go_bind_run Let_def NewORMArchiverFromConfig_def NewORMArchiver_def list_gorm_def archiver_dsn_def builder_and_gossiper_def)
qed

theorem started_node_ok_witness:
  "\<exists>out c. Initialize ref list_gorm demo_startup demo_snow [] [] [1] demo_controller = (Ok out, c)
     \<and> node_run ref map_store map_kvdb Map.empty c []
     \<and> isWhiteListed (Controller_Rules c 0) (pad 33 [97, 98, 99]) = Ok True"
proof -
  obtain out and c :: "(unit, kv, DBBlock list) Controller" where run: "Initialize ref list_gorm demo_startup demo_snow [] [] [1] demo_controller = (Ok out, c)"
    and out: "in_genesis out = Default ref" "WhitelistedAddresses (in_config out) = [''abc'']"
    using demo_started by blast
  have e: "empty_state map_store Map.empty" by (simp add: empty_state_def map_store_def)
  have load: "Load ref map_store (in_genesis out) Map.empty = (Ok (), Map.empty)"
    by (simp add: out Load_def Default_def)
  have len: "length (pad 33 b) = 33" for b by (simp add: pad_def)
  have parse: "\<forall>hrp s pk. ParseAddressBech32 ref hrp s = Inr pk \<longrightarrow> is_address ref pk"
    by (auto simp: Let_def len split: if_splits)
  have abc: "ParseAddressBech32 ref HRP ''abc'' = Inr (pad 33 [97, 98, 99])" by (simp add: of_char_def)
  show ?thesis
    using started_node_ok [OF ref_auctions.auctions_axioms e run load parse, of map_kvdb 0 "pad 33 [97, 98, 99]"] run out(2) abc
    by auto
qed

end
