(* ===== verification/Seq_Entry.thy ===== *)
theory Seq_Entry
  imports Seq_Cli_Admin Seq_Start
begin

text \<open>
  The edges of the programs: what the command line client prints about a transaction, watching the chain, its
  monitoring queries and its life cycle (\<open>src/cmd/seq-cli\<close>), and the process of the VM (\<open>src/cmd/seqvm\<close>, \<open>src/factory.go\<close>,
  \<open>src/version\<close>). Shown: every monitoring query is a complete format, a transaction is printed with one line
  per action, or one for its failure.
\<close>

section \<open>Formatting of the standard library\<close>

text \<open>
  \<open>fmt.Sprintf\<close> for formats whose only verb is \<open>%s\<close>, with arguments of the type \<open>ty\<close> given by their texts. A
  missing or extra argument leaves a mark in the text.
\<close>

definition extra_args :: "string \<Rightarrow> string list \<Rightarrow> string" where
  "extra_args ty args = (case map (\<lambda>a. ty @ ''='' @ a) args of
       [] \<Rightarrow> []
     | a # rest \<Rightarrow> ''%!(EXTRA '' @ a @ concat (map (\<lambda>b. '', '' @ b) rest) @ '')'')"

fun Sprintf :: "string \<Rightarrow> string \<Rightarrow> string list \<Rightarrow> string" where
  "Sprintf ty [] args = extra_args ty args"
| "Sprintf ty (c # f) args =
     (if c = CHR ''%'' then (case f of
          [] \<Rightarrow> ''%!(NOVERB)'' @ extra_args ty args
        | d # g \<Rightarrow> if d = CHR ''s'' then (case args of [] \<Rightarrow> ''%!s(MISSING)'' @ Sprintf ty g [] | a # as \<Rightarrow> a @ Sprintf ty g as)
            else c # Sprintf ty f args)
      else c # Sprintf ty f args)"

text \<open>The texts before, between and after the verbs of a format, whether its verbs are \<open>n\<close> times \<open>%s\<close>, and the texts filled in.\<close>

fun pieces :: "string \<Rightarrow> string list" where
  "pieces [] = [[]]"
| "pieces (c # f) =
     (if c = CHR ''%'' \<and> take 1 f = ''s'' then [] # pieces (drop 1 f)
      else case pieces f of p # ps \<Rightarrow> (c # p) # ps | [] \<Rightarrow> [])"

fun complete_format :: "string \<Rightarrow> nat \<Rightarrow> bool" where
  "complete_format [] n = (n = 0)"
| "complete_format (c # f) n =
     (if c = CHR ''%'' then take 1 f = ''s'' \<and> 0 < n \<and> complete_format (drop 1 f) (n - 1) else complete_format f n)"

fun splice_texts :: "string list \<Rightarrow> string list \<Rightarrow> string" where
  "splice_texts (p # ps) (a # as) = p @ a @ splice_texts ps as"
| "splice_texts ps as = concat ps"

section \<open>cmd/seq-cli/cmd/prometheus.go\<close>

text \<open>The queries of the SDK's client, and its command, which is given the panels of a chain.\<close>

record 'w prometheus_sdk =
  InboundBandwidth :: string
  InboundCompressionSavingsPercent :: string
  DecompressionTime :: string
  OutboundBandwidth :: string
  OutboundCompressionSavingsPercent :: string
  CompressionTime :: string
  OutboundFailed :: string
  ID_String :: "ID \<Rightarrow> string"
  Root_GeneratePrometheus :: "string \<Rightarrow> bool \<Rightarrow> bool \<Rightarrow> string \<Rightarrow> string \<Rightarrow> (ID \<Rightarrow> string list) \<Rightarrow> ('w cli, unit) go"

text \<open>A panel is a format with the number of times the chain ID is given to it, or a fixed text.\<close>

datatype panel = Fmt string nat | Lit string

definition panel_list :: "'w prometheus_sdk \<Rightarrow> panel list" where
  "panel_list P =
     [Fmt ''increase(avalanche_%s_vm_hypersdk_chain_empty_block_built[5s])'' 1,
      Fmt ''increase(avalanche_%s_vm_hypersdk_chain_build_capped[5s])'' 1,
      Fmt ''increase(avalanche_%s_blks_accepted_count[5s])/5'' 1,
      Fmt ''increase(avalanche_%s_blks_rejected_count[5s])/5'' 1,
      Fmt ''avalanche_%s_vm_hypersdk_chain_bandwidth_price'' 1,
      Fmt ''avalanche_%s_vm_hypersdk_chain_compute_price'' 1,
      Fmt ''avalanche_%s_vm_hypersdk_chain_storage_read_price'' 1,
      Fmt ''avalanche_%s_vm_hypersdk_chain_storage_create_price'' 1,
      Fmt ''avalanche_%s_vm_hypersdk_chain_storage_modify_price'' 1,
      Fmt ''increase(avalanche_%s_vm_hypersdk_chain_build_capped[5s])/5'' 1,
      Fmt ''increase(avalanche_%s_vm_hypersdk_vm_txs_submitted[5s])/5'' 1,
      Fmt ''increase(avalanche_%s_vm_hypersdk_vm_txs_gossiped[5s])/5'' 1,
      Fmt ''increase(avalanche_%s_vm_hypersdk_vm_txs_received[5s])/5'' 1,
      Fmt ''increase(avalanche_%s_vm_hypersdk_vm_seen_txs_received[5s])/5'' 1,
      Fmt ''increase(avalanche_%s_vm_hypersdk_vm_txs_verified[5s])/5'' 1,
      Fmt ''increase(avalanche_%s_vm_hypersdk_vm_txs_accepted[5s])/5'' 1,
      Fmt ''increase(avalanche_%s_vm_hypersdk_chain_state_operations[5s])/5'' 1,
      Fmt ''increase(avalanche_%s_vm_hypersdk_chain_state_changes[5s])/5'' 1,
      Fmt ''increase(avalanche_%s_vm_hypersdk_chain_root_calculated_sum[5s])/1000000/5'' 1,
      Fmt ''increase(avalanche_%s_vm_hypersdk_chain_wait_root_sum[5s])/1000000/5'' 1,
      Fmt ''increase(avalanche_%s_vm_hypersdk_chain_wait_signatures_sum[5s])/1000000/5'' 1,
      Fmt ''avalanche_%s_vm_hypersdk_chain_mempool_size'' 1,
      Lit ''avalanche_resource_tracker_cpu_usage'',
      Lit ''avalanche_go_memstats_alloc_bytes'',
      Fmt ''avalanche_%s_vm_go_memstats_alloc_bytes'' 1,
      Fmt (''increase(avalanche_%s_handler_chits_sum[5s])/1000000/5 + '' @
         ''increase(avalanche_%s_handler_notify_sum[5s])/1000000/5 + '' @
         ''increase(avalanche_%s_handler_get_sum[5s])/1000000/5 + '' @
         ''increase(avalanche_%s_handler_push_query_sum[5s])/1000000/5 + '' @
         ''increase(avalanche_%s_handler_put_sum[5s])/1000000/5 + '' @
         ''increase(avalanche_%s_handler_pull_query_sum[5s])/1000000/5 + '' @
         ''increase(avalanche_%s_handler_query_failed_sum[5s])/1000000/5'') 7,
      Lit (InboundBandwidth P),
      Lit (InboundCompressionSavingsPercent P),
      Lit (DecompressionTime P),
      Lit (OutboundBandwidth P),
      Lit (OutboundCompressionSavingsPercent P),
      Lit (CompressionTime P),
      Lit (OutboundFailed P),
      Fmt ''increase(avalanche_%s_vm_hypersdk_chain_block_build_sum[5s])/1000000/5'' 1,
      Fmt ''increase(avalanche_%s_vm_hypersdk_chain_block_parse_sum[5s])/1000000/5'' 1,
      Fmt ''increase(avalanche_%s_vm_hypersdk_chain_block_verify_sum[5s])/1000000/5'' 1,
      Fmt ''increase(avalanche_%s_vm_hypersdk_chain_block_accept_sum[5s])/1000000/5'' 1,
      Fmt ''increase(avalanche_%s_vm_hypersdk_chain_block_process_sum[5s])/1000000/5'' 1,
      Fmt (''increase(avalanche_%s_vm_state_merkleDB_intermediate_node_cache_hit[5s])/('' @
         ''increase(avalanche_%s_vm_state_merkleDB_intermediate_node_cache_miss[5s]) + '' @
         ''increase(avalanche_%s_vm_state_merkleDB_intermediate_node_cache_hit[5s]))'') 3,
      Fmt (''increase(avalanche_%s_vm_state_merkleDB_value_node_cache_hit[5s])/('' @
         ''increase(avalanche_%s_vm_state_merkleDB_value_node_cache_miss[5s]) + '' @
         ''increase(avalanche_%s_vm_state_merkleDB_value_node_cache_hit[5s]))'') 3]"

fun panel_text :: "string \<Rightarrow> panel \<Rightarrow> string" where
  "panel_text chainID (Fmt f n) = Sprintf ''ids.ID'' f (replicate n chainID)"
| "panel_text chainID (Lit s) = s"

record prometheus_flags =
  prometheusBaseURI :: string
  prometheusOpenBrowser :: bool
  prometheusFile :: string
  prometheusData :: string
  startPrometheus :: bool

text \<open>\<open>now\<close> is the text of the current time in seconds.\<close>

definition default_prometheus_flags :: "string \<Rightarrow> prometheus_flags" where
  "default_prometheus_flags now = \<lparr>prometheusBaseURI = ''http://localhost:9090'', prometheusOpenBrowser = True,
     prometheusFile = ''/tmp/prometheus.yaml'', prometheusData = ''/tmp/prometheus-'' @ now, startPrometheus = True\<rparr>"

definition generatePrometheusCmd :: "'w prometheus_sdk \<Rightarrow> prometheus_flags \<Rightarrow> ('w cli, unit) go" where
  "generatePrometheusCmd P f = Root_GeneratePrometheus P (prometheusBaseURI f) (prometheusOpenBrowser f) (startPrometheus f)
     (prometheusFile f) (prometheusData f) (\<lambda>chainID. map (panel_text (ID_String P chainID)) (panel_list P))"

section \<open>handleTx of cmd/seq-cli/cmd/resolutions.go\<close>

text \<open>The transaction with its auth and base, and the result with its error, as far as they are printed.\<close>

record HandledTx =
  ht_ID :: ID
  ht_Actor :: Address
  ht_MaxFee :: u64
  ht_Actions :: "Action list"

record FullResult = Result + res_Error :: string

text \<open>The formatting functions of the SDK, and the percentage of the fee, a float.\<close>

record 'f tx_printer =
  FormatBalance :: "u64 \<Rightarrow> u8 \<Rightarrow> string"
  fee_percent :: "u64 \<Rightarrow> u64 \<Rightarrow> 'f"
  DimensionsText :: "u64 list \<Rightarrow> string"
  TypeOf :: "Action \<Rightarrow> string"

text \<open>A printed line: for a failure its error, for an action its type and summary.\<close>

record 'f tx_line =
  tl_ID :: ID
  tl_actor :: string
  tl_type :: "string option"
  tl_text :: string
  tl_percent :: 'f
  tl_fee :: string
  tl_units :: string

definition memo_text :: "bytes \<Rightarrow> string" where "memo_text memo = map (char_of \<circ> unat) memo"

fun action_summary :: "'x sdk_scheme \<Rightarrow> 'f tx_printer \<Rightarrow> Action \<Rightarrow> string res" where
  "action_summary E R (ATransfer t) =
     (let amountStr = FormatBalance R (t_Value t) consts_Decimals in
      res_bind (MustAddressBech32 E HRP (t_To t)) (\<lambda>addr.
      let summaryStr = amountStr @ '' '' @ consts_Symbol @ '' -> '' @ addr in
      Ok (if length (t_Memo t) > 0 then summaryStr @ '' (memo: '' @ memo_text (t_Memo t) @ '')'' else summaryStr)))"
| "action_summary E R _ = Ok []"

definition tx_line_of :: "'f tx_printer \<Rightarrow> HandledTx \<Rightarrow> FullResult \<Rightarrow> string \<Rightarrow> string option \<Rightarrow> string \<Rightarrow> 'f tx_line" where
  "tx_line_of R tx result actor ty s = \<lparr>tl_ID = ht_ID tx, tl_actor = actor, tl_type = ty, tl_text = s,
     tl_percent = fee_percent R (res_Fee result) (ht_MaxFee tx), tl_fee = FormatBalance R (res_Fee result) consts_Decimals,
     tl_units = DimensionsText R (res_Units result)\<rparr>"

text \<open>The loop over the actions, with the lines printed so far; a panic stops the printing.\<close>

fun action_lines ::
    "'x sdk_scheme \<Rightarrow> 'f tx_printer \<Rightarrow> HandledTx \<Rightarrow> FullResult \<Rightarrow> Action list \<Rightarrow> 'f tx_line list \<Rightarrow> unit res \<times> 'f tx_line list" where
  "action_lines E R tx result [] out = (Ok (), out)"
| "action_lines E R tx result (act # rest) out =
     (case res_bind (action_summary E R act) (\<lambda>s. res_bind (MustAddressBech32 E HRP (ht_Actor tx)) (\<lambda>a. Ok (a, s))) of
        Ok (a, s) \<Rightarrow> action_lines E R tx result rest (out @ [tx_line_of R tx result a (Some (TypeOf R act)) s])
      | Error e \<Rightarrow> (Error e, out)
      | Panic p \<Rightarrow> (Panic p, out))"

definition handleTx :: "'x sdk_scheme \<Rightarrow> 'f tx_printer \<Rightarrow> HandledTx \<Rightarrow> FullResult \<Rightarrow> unit res \<times> 'f tx_line list" where
  "handleTx E R tx result =
     (if \<not> res_Success result then
        (case MustAddressBech32 E HRP (ht_Actor tx) of
           Ok a \<Rightarrow> (Ok (), [tx_line_of R tx result a None (res_Error result)])
         | Error e \<Rightarrow> (Error e, [])
         | Panic p \<Rightarrow> (Panic p, []))
      else action_lines E R tx result (ht_Actions tx) [])"

section \<open>watchChainCmd of cmd/seq-cli/cmd/chain.go\<close>

text \<open>
  The two closures that are handed to \<open>WatchChain\<close> of the SDK, over the client variable they share: it is nil
  until the first of them was called. The second one gives the lines it prints.
\<close>

definition watch_getParser ::
    "('sk, 'tx, 'w) cli_sdk \<Rightarrow> string \<Rightarrow> u32 \<Rightarrow> ID \<Rightarrow> (JSONRPCClient option \<times> 'w, Parser) go" where
  "watch_getParser K uri networkID chainID = (\<lambda>(_, w).
     case cli_parser K (NewJSONRPCClient uri networkID chainID, w) of (r, (cli, w)) \<Rightarrow> (r, (Some cli, w)))"

definition watch_handleTx ::
    "'x sdk_scheme \<Rightarrow> 'f tx_printer \<Rightarrow> JSONRPCClient option \<Rightarrow> HandledTx \<Rightarrow> FullResult \<Rightarrow> unit res \<times> 'f tx_line list" where
  "watch_handleTx E R cli tx result = (if cli = None then (Ok (), []) else handleTx E R tx result)"

text \<open>\<open>watch\<close> is \<open>WatchChain\<close>.\<close>

definition watchChainCmd ::
    "'x sdk_scheme \<Rightarrow> 'f tx_printer
      \<Rightarrow> (bool \<Rightarrow> bool \<Rightarrow> u64 \<Rightarrow> (string \<Rightarrow> u32 \<Rightarrow> ID \<Rightarrow> (JSONRPCClient option \<times> 'w, Parser) go)
          \<Rightarrow> (JSONRPCClient option \<Rightarrow> HandledTx \<Rightarrow> FullResult \<Rightarrow> unit res \<times> 'f tx_line list) \<Rightarrow> (JSONRPCClient option \<times> 'w, unit) go)
      \<Rightarrow> ('sk, 'tx, 'w) cli_sdk \<Rightarrow> bool \<Rightarrow> ('w cli, unit) go" where
  "watchChainCmd E R watch K hideTxs =
     go_bind (watch_start K) (\<lambda>(pastBlocks, startBlock). \<lambda>(cli, w).
     case watch hideTxs pastBlocks startBlock (watch_getParser K) (watch_handleTx E R) (None, w) of
       (r, (_, w)) \<Rightarrow> (r, (cli, w)))"

text \<open>Once a parser was asked for, with or without success, every transaction is printed.\<close>

lemma watch_prints:
  "watch_getParser K uri networkID chainID s = (r, (cli, w)) \<Longrightarrow> watch_handleTx E R cli tx result = handleTx E R tx result"
  by (auto simp: watch_getParser_def watch_handleTx_def split: prod.splits)

section \<open>The life cycle of the client, cmd/seq-cli/main.go and cmd/root.go\<close>

text \<open>\<open>cliNew\<close> opens the handler of a controller, \<open>close\<close> closes its database.\<close>

definition root_PersistentPreRunE :: "(CliController \<Rightarrow> ('w, 'h) call) \<Rightarrow> string \<Rightarrow> ('w cli, 'h) go" where
  "root_PersistentPreRunE cliNew dbPath = go_call (cliNew (NewController dbPath))"

definition root_PersistentPostRunE :: "('h \<Rightarrow> ('w, unit) call) \<Rightarrow> 'h \<Rightarrow> ('w cli, unit) go" where
  "root_PersistentPostRunE close handler = go_call (close handler)"

text \<open>The exit code for what \<open>Execute\<close> returned.\<close>

definition cli_main :: "err option \<Rightarrow> nat" where
  "cli_main err = (if err \<noteq> None then 1 else 0)"

section \<open>The process of the VM\<close>

record Semantic =
  Major :: int
  Minor :: int
  Patch :: int

definition Version :: Semantic where "Version = \<lparr>Major = 0, Minor = 0, Patch = 1\<rparr>"

text \<open>\<open>vmNew\<close> is \<open>vm.New\<close>, \<open>ctl\<close> the empty controller.\<close>

definition controller_New :: "('ctl \<Rightarrow> Semantic \<Rightarrow> 'vm) \<Rightarrow> 'ctl \<Rightarrow> 'vm" where
  "controller_New vmNew ctl = vmNew ctl Version"

definition Factory_New :: "('ctl \<Rightarrow> Semantic \<Rightarrow> 'vm) \<Rightarrow> 'ctl \<Rightarrow> 'vm \<times> err option" where
  "Factory_New vmNew ctl = (controller_New vmNew ctl, None)"

definition runFunc :: "('w, unit) call \<Rightarrow> ('vm \<Rightarrow> ('w, unit) call) \<Rightarrow> 'vm \<Rightarrow> ('c \<times> 'w, unit) go" where
  "runFunc ulimitSet serve vm =
     go_bind (go_wrap ''%w: failed to set fd limit correctly'' [] (go_call ulimitSet)) (\<lambda>_. go_call (serve vm))"

text \<open>What \<open>version\<close> prints, with the texts of the version and the ID.\<close>

definition versionFunc :: "(Semantic \<Rightarrow> string) \<Rightarrow> string \<Rightarrow> string" where
  "versionFunc versionString idText = Sprintf ''string'' (''%s@%s (%s)'' @ [CHR 0x0A]) [consts_Name, versionString Version, idText]"

section \<open>Lemmas\<close>

lemma pieces_nonempty [simp]: "pieces f \<noteq> []"
  by (induction f rule: pieces.induct) (auto split: list.splits)

text \<open>A format with as many verbs as arguments is filled without a mark.\<close>

lemma Sprintf_exact: "complete_format f (length args) \<Longrightarrow> Sprintf ty f args = splice_texts (pieces f) args"
proof (induction f "length args" arbitrary: args rule: complete_format.induct)
  case 1
  then show ?case by (simp add: extra_args_def)
next
  case (2 c f)
  show ?case
  proof (cases "c = CHR ''%''")
    case True
    with 2(3) obtain g where f: "f = CHR ''s'' # g" by (cases f) auto
    with True 2(3) obtain a as where "args = a # as" "complete_format g (length as)" by (cases args) auto
    with 2(1) [of as] True f show ?thesis by simp
  next
    case False
    obtain p ps where ps: "pieces f = p # ps" by (metis list.exhaust pieces_nonempty)
    from 2(2) [of args] 2(3) False ps show ?thesis by (cases args) auto
  qed
qed

text \<open>Every panel is a complete format: it has the verb for the chain ID as often as the ID is given.\<close>

fun panel_ok :: "panel \<Rightarrow> bool" where
  "panel_ok (Fmt f n) = complete_format f n"
| "panel_ok (Lit s) = True"

lemma panel_formats: "list_all panel_ok (panel_list P)"
  unfolding panel_list_def by simp

lemma panels_filled:
  assumes "Fmt f n \<in> set (panel_list P)"
  shows "panel_text chainID (Fmt f n) = splice_texts (pieces f) (replicate n chainID)"
  using panel_formats [of P] assms by (auto simp: list_all_iff Sprintf_exact)

lemma versionFunc_text:
  "versionFunc versionString idText = ''seqvm@'' @ versionString Version @ '' ('' @ idText @ '')'' @ [CHR 0x0A]"
  by (simp add: versionFunc_def consts_Name_def extra_args_def)

text \<open>When the addresses can be printed, a failed transaction has one line and another one line per action, in order.\<close>

lemma action_lines_run:
  assumes "MustAddressBech32 E HRP (ht_Actor tx) = Ok a" "\<forall>act\<in>set acts. \<exists>s. action_summary E R act = Ok s"
  shows "\<exists>ss. map (action_summary E R) acts = map Ok ss \<and> action_lines E R tx result acts out
    = (Ok (), out @ map (\<lambda>(act, s). tx_line_of R tx result a (Some (TypeOf R act)) s) (zip acts ss))"
  using assms(2)
proof (induction acts arbitrary: out)
  case (Cons act acts)
  then obtain s where s: "action_summary E R act = Ok s" by auto
  from Cons.IH [of "out @ [tx_line_of R tx result a (Some (TypeOf R act)) s]"] Cons.prems obtain ss where
    "map (action_summary E R) acts = map Ok ss"
    "action_lines E R tx result acts (out @ [tx_line_of R tx result a (Some (TypeOf R act)) s])
      = (Ok (), (out @ [tx_line_of R tx result a (Some (TypeOf R act)) s])
          @ map (\<lambda>(act, s). tx_line_of R tx result a (Some (TypeOf R act)) s) (zip acts ss))" by auto
  then show ?case using s assms(1) by (intro exI [of _ "s # ss"]) simp
qed simp

lemma handleTx_lines:
  assumes "\<forall>x. is_address E x \<longrightarrow> (\<exists>s. MustAddressBech32 E HRP x = Ok s)"
    and "is_address E (ht_Actor tx)" "\<forall>act\<in>set (ht_Actions tx). \<forall>x\<in>set (action_addresses act). is_address E x"
    and "handleTx E R tx result = (r, out)"
  shows "r = Ok () \<and> (\<forall>l\<in>set out. tl_ID l = ht_ID tx)
    \<and> map tl_type out = (if res_Success result then map (Some \<circ> TypeOf R) (ht_Actions tx) else [None])"
proof -
  obtain a where a: "MustAddressBech32 E HRP (ht_Actor tx) = Ok a" using assms(1,2) by blast
  have "\<exists>s. action_summary E R act = Ok s" if "act \<in> set (ht_Actions tx)" for act
    using assms(1,3) that by (cases act) (fastforce simp: Let_def)+
  then obtain ss where ss: "map (action_summary E R) (ht_Actions tx) = map Ok ss"
    "action_lines E R tx result (ht_Actions tx) []
      = (Ok (), map (\<lambda>(act, s). tx_line_of R tx result a (Some (TypeOf R act)) s) (zip (ht_Actions tx) ss))"
    using action_lines_run [OF a, of "ht_Actions tx" R result "[]"] by auto
  have "length (ht_Actions tx) = length ss" using ss(1) by (metis length_map)
  then have "map (\<lambda>p. Some (TypeOf R (fst p))) (zip (ht_Actions tx) ss) = map (Some \<circ> TypeOf R) (ht_Actions tx)"
    by (metis (mono_tags, lifting) comp_apply map_fst_zip map_map map_eq_conv)
  then show ?thesis
    using assms(4) ss(2) a by (auto simp: handleTx_def tx_line_of_def case_prod_beta' comp_def split: if_splits)
qed

end
