(* ===== verification/Spec2Isabelle.thy ===== *)
theory Spec2Isabelle
  imports Seq_Sizes Seq_Contract Seq_Entry
begin

text \<open>
  Verification of SeqVM, the virtual machine of a shared sequencer for rollups, as it stands under
  \<open>src/\<close>. It is a Go program on an SDK (hypersdk on avalanchego) that is not part of the
  repository.

  \<^bold>\<open>The program.\<close> The state is a key-value store. A transaction carries actions (transfer, sequencer
  message, auction, rollup registration, epoch exit); each declares the keys it may touch and is executed
  on the state through the getters and setters of \<open>storage\<close>. The SDK checks and deducts fees through the
  state manager. When a block is accepted, the controller indexes the results of its transactions, updates
  the registry of rollups it keeps in memory, and archives the block in the background. A JSON-RPC
  server answers queries from the state, the index, the registry in memory and the archive; clients
  call it, wait for transactions and submit new ones; a command line client does so for its user. The
  commitments of the blocks go to a contract on another chain, for which there is a binding. Everything starts from a genesis and a configuration.

  \<^bold>\<open>How Go is modelled\<close> (\<open>Seq_Prelude\<close>). Integers are words of their width, so that additions wrap where
  the code does not check them; byte slices are byte lists, with slicing and copying out of range as panics;
  structs are records, pointers that may be \<open>nil\<close> are options. A function that works on a state is a function
  \<open>('s, 'a) go\<close> from the state to a result and a state: the result is \<open>Ok\<close>, \<open>Error\<close> (a returned error; the
  changes made before it stay) or \<open>Panic\<close> (nil dereference, index out of range, division by zero, failed
  type assertion, explicit panic). Errors are values, with the wrapping of \<open>fmt.Errorf\<close> kept. Go iterates over a
  map in any order: the order is an argument. Loops are structural recursions, except the padding and block
  loop of SHA-256 and the digits of a number, which have termination proofs, and the loops that wait (polling,
  and listening for the result of a transaction), which may run forever and are partial functions (\<open>None\<close> when
  they do not return): for these it is shown when they return. There is no fuel.

  \<^bold>\<open>Code that is not under src/\<close> is a parameter: a record of functions (\<open>Seq_Sdk\<close>: packers, addresses,
  signatures, checked arithmetic, rollup infos; \<open>'m Mutable\<close>: the state; further records in the theories that
  need them: the object-relational mapper, the batches of a database, the VM, the batch of signatures, the
  requester of a client). What the sources rely on is stated as the laws of a locale, e.g. \<open>bank\<close> (keys of
  balances, checked 64-bit arithmetic, reading after writing), \<open>rollups\<close> (encodings of infos and registries, keys
  that do not clash), \<open>auctions\<close>, \<open>packer\<close>, \<open>signing\<close>, \<open>batch_verifier\<close>, \<open>hashing\<close>, \<open>rollup_epochs\<close>, \<open>rollup_ids\<close>,
  \<open>kv_batches\<close>, \<open>orm\<close> and \<open>orm_up\<close>, \<open>polling\<close>, \<open>served\<close>, \<open>sized_packer\<close>, \<open>key_store\<close>. \<open>Seq_Instance\<close> gives an executable SDK \<open>ref\<close> and a
  state of maps \<open>map_store\<close>; every locale is interpreted on such instances, and the witnesses run on them.

  \<^bold>\<open>Theories\<close>, in the order of the program:
  \<^item> \<open>Seq_Balance\<close>: \<open>storage/storage.go\<close>, \<open>balance.go\<close>. Key layout and balance records; readable records,
    the balance of an address as a number, what every operation changes.
  \<^item> \<open>Seq_Rollup_Storage\<close>: the other files of \<open>storage\<close>. Rollup infos, namespaces, exits, bids, transaction
    index; round trips, and agreement of the queries with the reads of the actions.
  \<^item> \<open>Seq_Genesis\<close>: \<open>genesis\<close>. Loading the allocations never overflows and gives every address the last of its
    allocations.
  \<^item> \<open>Seq_Action_Utils\<close>, \<open>Seq_Transfer\<close>, \<open>Seq_Sha256\<close>, \<open>Seq_Auction\<close>, \<open>Seq_Rollup_Register\<close>, \<open>Seq_Epoch_Exit\<close>:
    \<open>actions\<close> and \<open>controller/state_manager.go\<close>. Each action refines a specification on the abstract state
    (the ledger, the map of registered rollups, the exits per epoch) on every branch; who may do what;
    invariants; SHA-256 of the standard library for the bid digest. The specifications of registrations and epoch
    exits are those of the comments and of \<open>arcadia.md\<close>; where the code departs from them, the refinement leaves
    the case out and a lemma shows the departure (\<open>create_overwrites_epochs\<close>, \<open>late_exit_accepted\<close>).
  \<^item> \<open>Seq_Actions\<close>: \<open>registry/registry.go\<close>, \<open>consts\<close>. The actions together: a step relation of the VM, its
    reachable states, the bound on the supply from genesis on, declared keys, round trip of every action.
    \<open>Seq_Sizes\<close>: the sizes the actions declare against the bytes they are marshalled to.
  \<^item> \<open>Seq_Auth\<close>: \<open>auth\<close>. Both signature schemes; signed transactions over the wire; the batch verifier, with
    its batches in a heap because \<open>Add\<close> and \<open>Done\<close> share them, accepts exactly what single verification accepts.
  \<^item> \<open>Seq_Config\<close>: \<open>config\<close>. \<open>Seq_Commit\<close>: \<open>types\<close>, commitments are binding up to collisions of the hash.
    \<open>Seq_U256\<close>: the JSON form of 256-bit integers, with the formatting and scanning of the standard library.
  \<^item> \<open>Seq_Rollup_Registry\<close>: \<open>rollup_registry\<close>. \<open>Seq_Archiver\<close>: \<open>archiver\<close>, insertion, windows of headers, commitment
    blocks.
  \<^item> \<open>Seq_Controller\<close>: \<open>controller/controller.go\<close> and \<open>resolutions.go\<close>. Accepting a block; the blocks whose
    archiving was started are kept in \<open>c_spawned\<close>, since the background call runs at any later time. What each
    outcome leaves in the index, errors of the database included. The registry in memory agrees with the state of
    a node that runs from genesis, up to the rollups that have exited.
  \<^item> \<open>Seq_Rpc\<close>: \<open>rpc/jsonrpc_server.go\<close>, every handler; the fee of a submitted message. \<open>Seq_Start\<close>: start-up (\<open>Initialize\<close>, \<open>newMetrics\<close>).
  \<^item> \<open>Seq_Client\<close>: \<open>rpc/jsonrpc_client.go\<close> and \<open>multi_jsonrpc_client.go\<close>. A request goes to the handlers of the
    node (\<open>served\<close>); waiting for a transaction ends once its block is accepted; generated transactions.
  \<^item> \<open>Seq_Cli\<close>: \<open>cmd/seq-cli/cmd\<close>, \<open>handler.go\<close>, \<open>resolutions.go\<close>, \<open>action.go\<close>. A command is a function of the client
    it made last and the world; a prompt is a call on the world. When \<open>sendAndWait\<close> returns; what the chain does
    with the registrations and the bids of the client. \<open>Seq_Cli_Admin\<close>: \<open>genesis.go\<close>, \<open>key.go\<close>, \<open>chain.go\<close>,
    \<open>spam.go\<close>. The generated genesis is the one a node reads; stored keys belong to their addresses.
    \<open>Seq_Entry\<close>: \<open>prometheus.go\<close>, \<open>handleTx\<close>, watching the chain, the life cycle of the client, and \<open>cmd/seqvm\<close>, \<open>factory.go\<close>,
    \<open>version\<close>. What is printed about a transaction is a list of lines here; the queries are complete formats.
  \<^item> \<open>Seq_Contract\<close>: \<open>sequencer/sequencer.go\<close>. Calls, transactions, and the iterators and watchers of events. A
    channel is the list of what it holds, and the choice of \<open>select\<close> between two ready cases an argument; \<open>iter_run\<close>
    interleaves an iterator with the subscription that feeds it.

  The properties that span components are in the theory of the last component they need.

  \<^bold>\<open>Not modelled.\<close> The JSON and ABI texts themselves (the decoders of the libraries are parameters); logging and
  tracing, and the layout of printed lines; the registration of commands and flags with the command parser,
  except the defaults of the flags; locks, whose critical sections are single steps here; the goroutine of a
  watcher is given by what its \<open>select\<close> statements receive, not interleaved with its subscription.
\<close>

end
